(* ===== verification/Prelude.thy ===== *)
theory Prelude
  imports Main "HOL-Library.Word" "HOL-Library.Sublist"
begin

text \<open>
  Shared vocabulary of the development: the names of the machine types the sources use, the
  collections of simplification rules the components extend, the C string functions the
  sources call, and the generic facts about lists that several components need.

  A C string is the list of its bytes before the terminating NUL. A pointer into a string is
  the suffix that starts there, so a result of \<open>strstr\<close> or \<open>strchr\<close> is \<open>Some\<close> suffix, and two
  pointers into the same string are equal exactly when the suffixes are.
\<close>

unbundle bit_operations_syntax

type_synonym byte = "8 word"
type_synonym uint32 = "32 word"
type_synonym uint64 = "64 word"
type_synonym time_t = int
type_synonym path = string

named_theorems sys_frame \<open>what a call leaves unchanged\<close>
named_theorems cstring \<open>evaluation of the C string functions\<close>

subsection \<open>C strings\<close>

fun strchr :: "string \<Rightarrow> char \<Rightarrow> string option" where
  "strchr [] c = None"
| "strchr (x # xs) c = (if x = c then Some (x # xs) else strchr xs c)"

fun strstr :: "string \<Rightarrow> string \<Rightarrow> string option" where
  "strstr [] needle = (if needle = [] then Some [] else None)"
| "strstr (x # xs) needle =
     (if prefix needle (x # xs) then Some (x # xs) else strstr xs needle)"

definition strrchr_split :: "string \<Rightarrow> char \<Rightarrow> (string \<times> string) option" where
  "strrchr_split s c =
     (if c \<in> set s
      then Some (rev (tl (dropWhile (\<lambda>x. x \<noteq> c) (rev s))), c # rev (takeWhile (\<lambda>x. x \<noteq> c) (rev s)))
      else None)"

lemma strchr_None_iff [cstring]: "strchr s c = None \<longleftrightarrow> c \<notin> set s"
  by (induction s) auto

lemma strchr_Some_suffix:
  "strchr s c = Some r \<Longrightarrow> \<exists>p. s = p @ r \<and> c \<notin> set p \<and> r \<noteq> [] \<and> hd r = c"
proof (induction s)
  case Nil
  then show ?case by simp
next
  case (Cons x xs)
  show ?case
  proof (cases "x = c")
    case True
    with Cons.prems show ?thesis by auto
  next
    case False
    with Cons.prems have "strchr xs c = Some r" by simp
    with Cons.IH obtain p where "xs = p @ r" "c \<notin> set p" "r \<noteq> []" "hd r = c" by auto
    with False show ?thesis by (intro exI [of _ "x # p"]) auto
  qed
qed

lemma strstr_suffix: "strstr h n = Some r \<Longrightarrow> suffix r h"
  by (induction h) (auto split: if_splits simp: suffix_Cons)

lemma strstr_prefix: "strstr h n = Some r \<Longrightarrow> prefix n r"
  by (induction h) (auto split: if_splits)

text \<open>The idiom \<open>strstr(s, p) == s\<close> of the sources tests that \<open>p\<close> is a prefix of \<open>s\<close>.\<close>

lemma strstr_eq_start_iff [cstring]: "strstr h n = Some h \<longleftrightarrow> prefix n h"
proof (cases h)
  case Nil
  then show ?thesis by auto
next
  case (Cons x xs)
  have "strstr xs n \<noteq> Some (x # xs)"
    using strstr_suffix [of xs n "x # xs"] suffix_length_le [of "x # xs" xs] by auto
  with Cons show ?thesis by auto
qed

lemma strstr_None_iff: "strstr h n = None \<longleftrightarrow> \<not> sublist n h"
  by (induction h) (auto simp: sublist_Cons_right)

lemma strrchr_split_Some:
  assumes "strrchr_split s c = Some (a, b)"
  shows "s = a @ b" and "hd b = c" and "b \<noteq> []" and "c \<notin> set (tl b)"
proof -
  let ?d = "dropWhile (\<lambda>x. x \<noteq> c) (rev s)" and ?t = "takeWhile (\<lambda>x. x \<noteq> c) (rev s)"
  from assms have c: "c \<in> set s" and a: "a = rev (tl ?d)" and b: "b = c # rev ?t"
    by (auto simp: strrchr_split_def split: if_splits)
  from c have ne: "?d \<noteq> []" by simp
  then have "hd ?d = c" using hd_dropWhile [of "\<lambda>x. x \<noteq> c" "rev s"] by auto
  with ne have d: "?d = c # tl ?d" by (metis list.collapse)
  have "rev s = ?t @ ?d" by simp
  then have "rev s = ?t @ (c # tl ?d)" using d by simp
  then have "s = rev (?t @ (c # tl ?d))" by (metis rev_rev_ident)
  with a b show "s = a @ b" by simp
  show "hd b = c" "b \<noteq> []" using b by auto
  show "c \<notin> set (tl b)" using b by (auto dest: set_takeWhileD)
qed

lemma strrchr_split_None: "strrchr_split s c = None \<longleftrightarrow> c \<notin> set s"
  by (simp add: strrchr_split_def)

subsection \<open>Searching an array from its start\<close>

text \<open>
  \<open>find_idx P xs\<close> is the loop \<open>for (i = 0; i < n; i++) if (P(a[i])) \<dots>\<close>: the least index whose
  element satisfies \<open>P\<close>. Both caches search this way.
\<close>

fun find_idx :: "('a \<Rightarrow> bool) \<Rightarrow> 'a list \<Rightarrow> nat option" where
  "find_idx P [] = None"
| "find_idx P (x # xs) = (if P x then Some 0 else map_option Suc (find_idx P xs))"

lemma find_idx_Some_iff:
  "find_idx P xs = Some i \<longleftrightarrow> i < length xs \<and> P (xs ! i) \<and> (\<forall>j<i. \<not> P (xs ! j))"
proof (induction xs arbitrary: i)
  case Nil
  then show ?case by simp
next
  case (Cons x xs)
  show ?case
  proof (cases i)
    case 0
    then show ?thesis by auto
  next
    case (Suc k)
    with Cons.IH [of k] show ?thesis by (auto simp: less_Suc_eq_0_disj)
  qed
qed

lemma find_idx_SomeD:
  assumes "find_idx P xs = Some i"
  shows "i < length xs" "P (xs ! i)" "j < i \<Longrightarrow> \<not> P (xs ! j)"
  using assms by (auto simp: find_idx_Some_iff)

lemma find_idx_None_iff: "find_idx P xs = None \<longleftrightarrow> (\<forall>x\<in>set xs. \<not> P x)"
  by (induction xs) auto

lemma find_idx_None_nth: "find_idx P xs = None \<longleftrightarrow> (\<forall>i<length xs. \<not> P (xs ! i))"
  by (simp add: find_idx_None_iff all_set_conv_all_nth)

lemma find_idx_take:
  "find_idx P (take n xs) =
     (case find_idx P xs of None \<Rightarrow> None | Some i \<Rightarrow> if i < n then Some i else None)"
proof (induction xs arbitrary: n)
  case Nil
  then show ?case by simp
next
  case (Cons x xs)
  then show ?case by (cases n) (auto split: option.splits)
qed

lemma length_tl_dropWhile_less:
  "dropWhile P xs \<noteq> [] \<Longrightarrow> length (tl (dropWhile P xs)) < length xs"
  using length_dropWhile_le [of P xs] by (cases "dropWhile P xs") (simp_all del: dropWhile_eq_Nil_conv)

lemma length_filter_update:
  "i < length xs \<Longrightarrow>
     int (length (filter P (xs[i := y]))) =
     int (length (filter P xs)) - (if P (xs ! i) then 1 else 0) + (if P y then 1 else 0)"
proof (induction xs arbitrary: i)
  case Nil
  then show ?case by simp
next
  case (Cons x xs)
  show ?case
  proof (cases i)
    case 0
    then show ?thesis by simp
  next
    case (Suc k)
    with Cons.IH [of k] Cons.prems show ?thesis by (auto split: if_splits)
  qed
qed

lemma option_restrictI:
  "(\<And>q. f = Some q \<longleftrightarrow> P \<and> g = Some q) \<Longrightarrow> f = (if P then g else None)"
  by (cases f; cases g) (auto split: if_splits)

lemma takeWhile_notin [simp]: "x \<notin> set xs \<Longrightarrow> takeWhile (\<lambda>y. y \<noteq> x) xs = xs"
  by (induction xs) auto

lemma dropWhile_notin [simp]: "x \<notin> set xs \<Longrightarrow> dropWhile (\<lambda>y. y \<noteq> x) xs = []"
  by (induction xs) auto

subsection \<open>Words in memory\<close>

text \<open>The bytes of a word in the order a little-endian machine stores them, and back.\<close>

fun bytes_le :: "nat \<Rightarrow> 'a::len word \<Rightarrow> byte list" where
  "bytes_le 0 w = []"
| "bytes_le (Suc n) w = ucast w # bytes_le n (drop_bit 8 w)"

fun word_le :: "byte list \<Rightarrow> 'a::len word" where
  "word_le [] = 0"
| "word_le (b # bs) = ucast b OR push_bit 8 (word_le bs)"

lemma length_bytes_le [simp]: "length (bytes_le n w) = n"
  by (induction n arbitrary: w) auto

lemma word_le_bytes_le: "word_le (bytes_le n w) = w AND mask (8 * n)"
proof (induction n arbitrary: w)
  case 0
  then show ?case by simp
next
  case (Suc n)
  show ?case
  proof (rule bit_word_eqI)
    fix i
    assume i: "i < LENGTH('a)"
    show "bit (word_le (bytes_le (Suc n) w) :: 'a word) i = bit (w AND mask (8 * Suc n)) i"
      using i by (auto simp: Suc.IH bit_simps)
  qed
qed

lemma word_le_inverse [simp]:
  fixes w :: "'a::len word"
  assumes "LENGTH('a) \<le> 8 * n"
  shows "word_le (bytes_le n w) = w"
  unfolding word_le_bytes_le
  by (rule bit_word_eqI) (use assms in \<open>auto simp: bit_simps\<close>)

lemma bytes_le_nth: "i < n \<Longrightarrow> bytes_le n w ! i = ucast (drop_bit (8 * i) w)"
proof (induction n arbitrary: i w)
  case 0
  then show ?case by simp
next
  case (Suc n)
  then show ?case by (cases i) (simp_all add: add.commute)
qed

lemma bit_word_le:
  "bit (word_le bs :: 'a::len word) i \<longleftrightarrow>
     i < LENGTH('a) \<and> i < 8 * length bs \<and> bit (bs ! (i div 8)) (i mod 8)"
proof (induction bs arbitrary: i)
  case Nil
  then show ?case by simp
next
  case (Cons b bs)
  show ?case
  proof (cases "i < 8")
    case True
    then show ?thesis by (auto simp: bit_simps)
  next
    case False
    then obtain j where j: "i = j + 8" by (metis add.commute le_Suc_ex not_less)
    then have "\<not> bit b i" using bit_imp_le_length [of b "j + 8"] by auto
    moreover have "(j + 8) div 8 = Suc (j div 8)" by simp
    ultimately show ?thesis
      using Cons.IH [of j] j by (auto simp: bit_simps)
  qed
qed

lemma bytes_le_inverse:
  assumes "length bs = n" and "8 * n \<le> LENGTH('a)"
  shows "bytes_le n (word_le bs :: 'a::len word) = bs"
proof (rule nth_equalityI)
  show "length (bytes_le n (word_le bs :: 'a word)) = length bs" using assms by simp
next
  fix i
  assume "i < length (bytes_le n (word_le bs :: 'a word))"
  then have i: "i < n" by simp
  have "ucast (drop_bit (8 * i) (word_le bs :: 'a word)) = bs ! i"
  proof (rule bit_word_eqI)
    fix j
    assume "j < LENGTH(8)"
    then have j: "j < 8" by simp
    with i assms have b: "j + 8 * i < LENGTH('a)" "j + 8 * i < 8 * length bs" by auto
    have "(j + 8 * i) div 8 = i" "(j + 8 * i) mod 8 = j" using j by auto
    with b j show "bit (ucast (drop_bit (8 * i) (word_le bs :: 'a word)) :: byte) j = bit (bs ! i) j"
      by (simp add: bit_simps bit_word_le add.commute)
  qed
  with i show "bytes_le n (word_le bs :: 'a word) ! i = bs ! i" by (simp add: bytes_le_nth)
qed

end
