(* ===== verification/Nfs_Types.thy ===== *)
theory Nfs_Types
  imports Prelude
begin

text \<open>
  The NFS version 3 protocol types of \<open>nfs.h\<close> that the server code computes with, and the
  parts of \<open>struct stat\<close> and \<open><errno.h>\<close> it reads. An enumeration is a datatype with the
  source's constructors; where the C type can hold a value outside the enumeration and the
  code meets it (a zeroed \<open>ftype3\<close>, a \<open>time_how\<close> read from the network), a constructor says so.
\<close>

subsection \<open>Limits\<close>

definition NFS_MAXPATHLEN :: nat where "NFS_MAXPATHLEN = 1024"
definition NFS3_FHSIZE :: nat where "NFS3_FHSIZE = 64"
definition NFS_MAXDATA_TCP :: uint32 where "NFS_MAXDATA_TCP = 524288"
definition NFS_MAXDATA_UDP :: uint32 where "NFS_MAXDATA_UDP = 32768"

subsection \<open>Status codes\<close>

datatype nfsstat3 =
    NFS3_OK | NFS3ERR_PERM | NFS3ERR_NOENT | NFS3ERR_IO | NFS3ERR_NXIO | NFS3ERR_ACCES
  | NFS3ERR_EXIST | NFS3ERR_XDEV | NFS3ERR_NODEV | NFS3ERR_NOTDIR | NFS3ERR_ISDIR
  | NFS3ERR_INVAL | NFS3ERR_FBIG | NFS3ERR_NOSPC | NFS3ERR_ROFS | NFS3ERR_MLINK
  | NFS3ERR_NAMETOOLONG | NFS3ERR_NOTEMPTY | NFS3ERR_DQUOT | NFS3ERR_STALE | NFS3ERR_REMOTE
  | NFS3ERR_BADHANDLE | NFS3ERR_NOT_SYNC | NFS3ERR_BAD_COOKIE | NFS3ERR_NOTSUPP
  | NFS3ERR_TOOSMALL | NFS3ERR_SERVERFAULT | NFS3ERR_BADTYPE | NFS3ERR_JUKEBOX

fun nfsstat3_code :: "nfsstat3 \<Rightarrow> int" where
  "nfsstat3_code NFS3_OK = 0"
| "nfsstat3_code NFS3ERR_PERM = 1"
| "nfsstat3_code NFS3ERR_NOENT = 2"
| "nfsstat3_code NFS3ERR_IO = 5"
| "nfsstat3_code NFS3ERR_NXIO = 6"
| "nfsstat3_code NFS3ERR_ACCES = 13"
| "nfsstat3_code NFS3ERR_EXIST = 17"
| "nfsstat3_code NFS3ERR_XDEV = 18"
| "nfsstat3_code NFS3ERR_NODEV = 19"
| "nfsstat3_code NFS3ERR_NOTDIR = 20"
| "nfsstat3_code NFS3ERR_ISDIR = 21"
| "nfsstat3_code NFS3ERR_INVAL = 22"
| "nfsstat3_code NFS3ERR_FBIG = 27"
| "nfsstat3_code NFS3ERR_NOSPC = 28"
| "nfsstat3_code NFS3ERR_ROFS = 30"
| "nfsstat3_code NFS3ERR_MLINK = 31"
| "nfsstat3_code NFS3ERR_NAMETOOLONG = 63"
| "nfsstat3_code NFS3ERR_NOTEMPTY = 66"
| "nfsstat3_code NFS3ERR_DQUOT = 69"
| "nfsstat3_code NFS3ERR_STALE = 70"
| "nfsstat3_code NFS3ERR_REMOTE = 71"
| "nfsstat3_code NFS3ERR_BADHANDLE = 10001"
| "nfsstat3_code NFS3ERR_NOT_SYNC = 10002"
| "nfsstat3_code NFS3ERR_BAD_COOKIE = 10003"
| "nfsstat3_code NFS3ERR_NOTSUPP = 10004"
| "nfsstat3_code NFS3ERR_TOOSMALL = 10005"
| "nfsstat3_code NFS3ERR_SERVERFAULT = 10006"
| "nfsstat3_code NFS3ERR_BADTYPE = 10007"
| "nfsstat3_code NFS3ERR_JUKEBOX = 10008"

subsection \<open>Attributes\<close>

text \<open>
  \<open>NF3NONE\<close> is the value 0 of a zero-initialised \<open>ftype3\<close>, \<open>NF3OTHER\<close> any other value that has no
  name in the sources and that \<open>xdr_ftype3\<close> lets through.
\<close>

datatype ftype3 =
    NF3NONE | NF3REG | NF3DIR | NF3BLK | NF3CHR | NF3LNK | NF3SOCK | NF3FIFO | NF3OTHER int

record nfstime3 =
  seconds :: uint32
  nseconds :: uint32

record specdata3 =
  specdata1 :: uint32
  specdata2 :: uint32

record fattr3 =
  fa_type :: ftype3
  fa_mode :: uint32
  fa_nlink :: uint32
  fa_uid :: uint32
  fa_gid :: uint32
  fa_size :: uint64
  fa_used :: uint64
  fa_rdev :: specdata3
  fa_fsid :: uint64
  fa_fileid :: uint64
  fa_atime :: nfstime3
  fa_mtime :: nfstime3
  fa_ctime :: nfstime3

definition zero_time :: nfstime3 where
  "zero_time = \<lparr>seconds = 0, nseconds = 0\<rparr>"

definition zero_fattr :: fattr3 where
  "zero_fattr = \<lparr>fa_type = NF3NONE, fa_mode = 0, fa_nlink = 0, fa_uid = 0, fa_gid = 0,
     fa_size = 0, fa_used = 0, fa_rdev = \<lparr>specdata1 = 0, specdata2 = 0\<rparr>, fa_fsid = 0,
     fa_fileid = 0, fa_atime = zero_time, fa_mtime = zero_time, fa_ctime = zero_time\<rparr>"

text \<open>
  The optional attributes of a reply keep the C layout, a flag and the union's memory: the
  handlers write the attribute fields without testing the flag.
\<close>

record post_op_attr =
  attributes_follow :: bool
  attributes :: fattr3

record wcc_attr =
  wcc_size :: uint64
  wcc_mtime :: nfstime3
  wcc_ctime :: nfstime3

text \<open>The pre-operation attributes are read only where the flag is set: an option.\<close>

type_synonym pre_op_attr = "wcc_attr option"

record wcc_data =
  before :: pre_op_attr
  after :: post_op_attr

subsection \<open>Settable attributes\<close>

text \<open>
  \<open>TIME_HOW_OTHER\<close> stands for a \<open>time_how\<close> outside the enumeration, which
  \<open>xdr_time_how\<close> lets through.
\<close>

datatype set_time_how =
    DONT_CHANGE
  | SET_TO_SERVER_TIME
  | SET_TO_CLIENT_TIME nfstime3
  | TIME_HOW_OTHER int

record sattr3 =
  set_mode :: "uint32 option"
  set_uid :: "uint32 option"
  set_gid :: "uint32 option"
  set_size :: "uint64 option"
  set_atime :: set_time_how
  set_mtime :: set_time_how

subsection \<open>File handles as the protocol carries them\<close>

text \<open>An \<open>nfs_fh3\<close> is a counted byte string of at most \<open>NFS3_FHSIZE\<close> bytes.\<close>

type_synonym nfs_fh3 = "byte list"

subsection \<open>What a stat call returns\<close>

record stat =
  st_dev :: uint64
  st_ino :: uint64
  st_mode :: uint32
  st_nlink :: uint64
  st_uid :: uint32
  st_gid :: uint32
  st_rdev :: uint64
  st_size :: uint64
  st_blksize :: uint64
  st_blocks :: uint64
  st_atime :: time_t
  st_mtime :: time_t
  st_ctime :: time_t

definition S_IFMT :: uint32 where "S_IFMT = 0xF000"
definition S_IFIFO :: uint32 where "S_IFIFO = 0x1000"
definition S_IFCHR :: uint32 where "S_IFCHR = 0x2000"
definition S_IFDIR :: uint32 where "S_IFDIR = 0x4000"
definition S_IFBLK :: uint32 where "S_IFBLK = 0x6000"
definition S_IFREG :: uint32 where "S_IFREG = 0x8000"
definition S_IFLNK :: uint32 where "S_IFLNK = 0xA000"
definition S_IFSOCK :: uint32 where "S_IFSOCK = 0xC000"

definition S_IRUSR :: uint32 where "S_IRUSR = 0x100"
definition S_IWUSR :: uint32 where "S_IWUSR = 0x80"
definition S_IXUSR :: uint32 where "S_IXUSR = 0x40"
definition S_IRGRP :: uint32 where "S_IRGRP = 0x20"
definition S_IWGRP :: uint32 where "S_IWGRP = 0x10"
definition S_IXGRP :: uint32 where "S_IXGRP = 0x8"
definition S_IROTH :: uint32 where "S_IROTH = 0x4"
definition S_IWOTH :: uint32 where "S_IWOTH = 0x2"
definition S_IXOTH :: uint32 where "S_IXOTH = 0x1"

definition S_ISDIR :: "uint32 \<Rightarrow> bool" where "S_ISDIR m \<longleftrightarrow> m AND S_IFMT = S_IFDIR"
definition S_ISREG :: "uint32 \<Rightarrow> bool" where "S_ISREG m \<longleftrightarrow> m AND S_IFMT = S_IFREG"
definition S_ISBLK :: "uint32 \<Rightarrow> bool" where "S_ISBLK m \<longleftrightarrow> m AND S_IFMT = S_IFBLK"
definition S_ISCHR :: "uint32 \<Rightarrow> bool" where "S_ISCHR m \<longleftrightarrow> m AND S_IFMT = S_IFCHR"
definition S_ISLNK :: "uint32 \<Rightarrow> bool" where "S_ISLNK m \<longleftrightarrow> m AND S_IFMT = S_IFLNK"
definition S_ISSOCK :: "uint32 \<Rightarrow> bool" where "S_ISSOCK m \<longleftrightarrow> m AND S_IFMT = S_IFSOCK"
definition S_ISFIFO :: "uint32 \<Rightarrow> bool" where "S_ISFIFO m \<longleftrightarrow> m AND S_IFMT = S_IFIFO"

lemmas mode_bits = S_IFMT_def S_IFIFO_def S_IFCHR_def S_IFDIR_def S_IFBLK_def S_IFREG_def
  S_IFLNK_def S_IFSOCK_def S_IRUSR_def S_IWUSR_def S_IXUSR_def S_IRGRP_def S_IWGRP_def
  S_IXGRP_def S_IROTH_def S_IWOTH_def S_IXOTH_def

lemmas mode_tests = S_ISDIR_def S_ISREG_def S_ISBLK_def S_ISCHR_def S_ISLNK_def S_ISSOCK_def
  S_ISFIFO_def

definition has_bits :: "uint32 \<Rightarrow> uint32 \<Rightarrow> bool" where
  "has_bits m b \<longleftrightarrow> m AND b \<noteq> 0"

definition time32 :: "time_t \<Rightarrow> nfstime3" where
  "time32 t = \<lparr>seconds = word_of_int t, nseconds = 0\<rparr>"

subsection \<open>Error numbers\<close>

datatype errno =
    EPERM | ENOENT | EIO | ENXIO | EACCES | EEXIST | EXDEV | ENODEV | ENOTDIR | EISDIR
  | EINVAL | EFBIG | ENOSPC | EROFS | EMLINK | ENAMETOOLONG | ENOSYS | ENOTEMPTY | ELOOP
  | EDQUOT | ENOMEDIUM | EOTHER int

end
