(* ===== verification/Sys.thy ===== *)
theory Sys
  imports Nfs_Types
begin

text \<open>
  The operating system below the server. The kernel and the C library's name services are not
  part of the sources: they are the record \<open>'w os\<close>, an argument of every definition that
  reaches them. A system call reads the caller's credentials and the world \<open>'w\<close> and returns
  either an error number or a result, together with the next world. Every call, a plain
  \<open>lstat\<close> included, may change the world, so what other processes do between two calls of the
  server (the local races the sources talk about) is covered.

  A directory stream is the list of names it is going to deliver. \<open>backend_unix.h\<close> names each
  call \<open>backend_<call>\<close>; the definitions below are those names.

  The process credentials are part of the state, with the rules of POSIX \<open>seteuid\<close>,
  \<open>setegid\<close> and \<open>setgroups\<close>.
\<close>

subsection \<open>Process credentials\<close>

record creds =
  ruid :: uint32
  rgid :: uint32
  euid :: uint32
  egid :: uint32
  suid :: uint32
  sgid :: uint32
  groups :: "uint32 list"

definition posix_seteuid :: "uint32 \<Rightarrow> creds \<Rightarrow> creds option" where
  "posix_seteuid u c =
     (if euid c = 0 \<or> u = ruid c \<or> u = euid c \<or> u = suid c then Some (c\<lparr>euid := u\<rparr>) else None)"

definition posix_setegid :: "uint32 \<Rightarrow> creds \<Rightarrow> creds option" where
  "posix_setegid g c =
     (if euid c = 0 \<or> g = rgid c \<or> g = egid c \<or> g = sgid c then Some (c\<lparr>egid := g\<rparr>) else None)"

definition posix_setgroups :: "uint32 list \<Rightarrow> creds \<Rightarrow> creds option" where
  "posix_setgroups gs c = (if euid c = 0 then Some (c\<lparr>groups := gs\<rparr>) else None)"

subsection \<open>The interface to the kernel\<close>

type_synonym ('w, 'a) syscall = "creds \<Rightarrow> 'w \<Rightarrow> (errno + 'a) \<times> 'w"

record statvfs =
  f_blocks :: uint64
  f_bfree :: uint64
  f_bavail :: uint64
  f_frsize :: uint64
  f_files :: uint64
  f_ffree :: uint64

record passwd =
  pw_name :: string
  pw_uid :: uint32
  pw_gid :: uint32

record 'w os =
  os_lstat :: "path \<Rightarrow> ('w, stat) syscall"
  os_fstat :: "int \<Rightarrow> ('w, stat) syscall"
  os_open :: "path \<Rightarrow> uint32 \<Rightarrow> ('w, int) syscall"
  os_open_create :: "path \<Rightarrow> uint32 \<Rightarrow> uint32 \<Rightarrow> ('w, int) syscall"
  os_close :: "int \<Rightarrow> ('w, unit) syscall"
  os_fsync :: "int \<Rightarrow> ('w, unit) syscall"
  os_pwrite :: "int \<Rightarrow> byte list \<Rightarrow> uint64 \<Rightarrow> ('w, int) syscall"
  os_truncate :: "path \<Rightarrow> uint64 \<Rightarrow> ('w, unit) syscall"
  os_ftruncate :: "int \<Rightarrow> uint64 \<Rightarrow> ('w, unit) syscall"
  os_lchown :: "path \<Rightarrow> uint32 \<Rightarrow> uint32 \<Rightarrow> ('w, unit) syscall"
  os_fchown :: "int \<Rightarrow> uint32 \<Rightarrow> uint32 \<Rightarrow> ('w, unit) syscall"
  os_chmod :: "path \<Rightarrow> uint32 \<Rightarrow> ('w, unit) syscall"
  os_fchmod :: "int \<Rightarrow> uint32 \<Rightarrow> ('w, unit) syscall"
  os_utime :: "path \<Rightarrow> time_t \<Rightarrow> time_t \<Rightarrow> ('w, unit) syscall"
  os_opendir :: "path \<Rightarrow> ('w, string list) syscall"
  os_dirents :: "path \<Rightarrow> ('w, (string \<times> bool) list) syscall"
  os_stat :: "path \<Rightarrow> ('w, stat) syscall"
  os_system :: "string \<Rightarrow> ('w, unit) syscall"
  os_mkdir :: "path \<Rightarrow> uint32 \<Rightarrow> ('w, unit) syscall"
  os_rmdir :: "path \<Rightarrow> ('w, unit) syscall"
  os_remove :: "path \<Rightarrow> ('w, unit) syscall"
  os_rename :: "path \<Rightarrow> path \<Rightarrow> ('w, unit) syscall"
  os_statvfs :: "path \<Rightarrow> ('w, statvfs) syscall"
  os_realpath :: "path \<Rightarrow> ('w, path) syscall"
  os_mtab :: "('w, path list) syscall"
  os_getpwnam :: "string \<Rightarrow> ('w, passwd) syscall"
  os_getpwuid :: "uint32 \<Rightarrow> ('w, passwd) syscall"
  os_random :: "('w, byte list) syscall"
  os_seed :: "('w, byte list) syscall"
  os_time :: "'w \<Rightarrow> time_t \<times> 'w"
  os_getpid :: "'w \<Rightarrow> uint32"
  os_rand :: "'w \<Rightarrow> uint32 \<times> 'w"

definition O_RDONLY :: uint32 where "O_RDONLY = 0"
definition O_WRONLY :: uint32 where "O_WRONLY = 1"
definition O_RDWR :: uint32 where "O_RDWR = 2"
definition O_CREAT :: uint32 where "O_CREAT = 0x40"
definition O_EXCL :: uint32 where "O_EXCL = 0x80"
definition O_TRUNC :: uint32 where "O_TRUNC = 0x200"
definition O_NONBLOCK :: uint32 where "O_NONBLOCK = 0x800"

subsection \<open>The state below the server's own globals\<close>

record 'w sys =
  world :: 'w
  errno :: errno
  cred :: creds

definition sys_call :: "('w, 'a) syscall \<Rightarrow> ('w, 'z) sys_scheme \<Rightarrow> 'a option \<times> ('w, 'z) sys_scheme" where
  "sys_call f s =
     (case f (cred s) (world s) of
        (Inl e, w) \<Rightarrow> (None, s\<lparr>world := w, errno := e\<rparr>)
      | (Inr a, w) \<Rightarrow> (Some a, s\<lparr>world := w\<rparr>))"

text \<open>The C convention for calls that return nothing but success: 0, or -1 with \<open>errno\<close> set.\<close>

definition sys_int :: "('w, unit) syscall \<Rightarrow> ('w, 'z) sys_scheme \<Rightarrow> int \<times> ('w, 'z) sys_scheme" where
  "sys_int f s = (case sys_call f s of (None, s) \<Rightarrow> (-1, s) | (Some _, s) \<Rightarrow> (0, s))"

text \<open>The C convention for calls that return a number: the number, or -1.\<close>

definition sys_num :: "('w, int) syscall \<Rightarrow> ('w, 'z) sys_scheme \<Rightarrow> int \<times> ('w, 'z) sys_scheme" where
  "sys_num f s = (case sys_call f s of (None, s) \<Rightarrow> (-1, s) | (Some n, s) \<Rightarrow> (n, s))"

definition backend_lstat where "backend_lstat os p = sys_call (os_lstat os p)"
definition backend_fstat where "backend_fstat os fd = sys_call (os_fstat os fd)"
definition backend_open where "backend_open os p fl = sys_num (os_open os p fl)"
definition backend_open_create where "backend_open_create os p fl m = sys_num (os_open_create os p fl m)"
definition backend_close where "backend_close os fd = sys_int (os_close os fd)"
definition backend_fsync where "backend_fsync os fd = sys_int (os_fsync os fd)"
definition backend_pwrite where "backend_pwrite os fd d off = sys_num (os_pwrite os fd d off)"
definition backend_truncate where "backend_truncate os p n = sys_int (os_truncate os p n)"
definition backend_ftruncate where "backend_ftruncate os fd n = sys_int (os_ftruncate os fd n)"
definition backend_lchown where "backend_lchown os p u g = sys_int (os_lchown os p u g)"
definition backend_fchown where "backend_fchown os fd u g = sys_int (os_fchown os fd u g)"
definition backend_chmod where "backend_chmod os p m = sys_int (os_chmod os p m)"
definition backend_fchmod where "backend_fchmod os fd m = sys_int (os_fchmod os fd m)"
definition backend_utime where "backend_utime os p a m = sys_int (os_utime os p a m)"
definition backend_opendir where "backend_opendir os p = sys_call (os_opendir os p)"
definition backend_mkdir where "backend_mkdir os p m = sys_int (os_mkdir os p m)"
definition backend_rmdir where "backend_rmdir os p = sys_int (os_rmdir os p)"
definition backend_remove where "backend_remove os p = sys_int (os_remove os p)"
definition backend_rename where "backend_rename os p q = sys_int (os_rename os p q)"
definition backend_statvfs where "backend_statvfs os p = sys_call (os_statvfs os p)"
definition backend_realpath where "backend_realpath os p = sys_call (os_realpath os p)"
definition backend_getpwnam where "backend_getpwnam os n = sys_call (os_getpwnam os n)"
definition backend_random where "backend_random os = sys_call (os_random os)"
definition backend_seed where "backend_seed os = sys_call (os_seed os)"

definition c_time :: "'w os \<Rightarrow> ('w, 'z) sys_scheme \<Rightarrow> time_t \<times> ('w, 'z) sys_scheme" where
  "c_time os s = (case os_time os (world s) of (t, w) \<Rightarrow> (t, s\<lparr>world := w\<rparr>))"

definition c_rand :: "'w os \<Rightarrow> ('w, 'z) sys_scheme \<Rightarrow> uint32 \<times> ('w, 'z) sys_scheme" where
  "c_rand os s = (case os_rand os (world s) of (t, w) \<Rightarrow> (t, s\<lparr>world := w\<rparr>))"

definition set_cred :: "creds option \<Rightarrow> ('w, 'z) sys_scheme \<Rightarrow> int \<times> ('w, 'z) sys_scheme" where
  "set_cred co s = (case co of None \<Rightarrow> (-1, s\<lparr>errno := EPERM\<rparr>) | Some c \<Rightarrow> (0, s\<lparr>cred := c\<rparr>))"

definition backend_seteuid where "backend_seteuid u s = set_cred (posix_seteuid u (cred s)) s"
definition backend_setegid where "backend_setegid g s = set_cred (posix_setegid g (cred s)) s"
definition backend_setgroups where "backend_setgroups gs s = set_cred (posix_setgroups gs (cred s)) s"

lemmas backend_defs = backend_lstat_def backend_fstat_def backend_open_def
  backend_open_create_def backend_close_def backend_fsync_def backend_pwrite_def
  backend_truncate_def backend_ftruncate_def backend_lchown_def backend_fchown_def
  backend_chmod_def backend_fchmod_def backend_utime_def backend_opendir_def backend_mkdir_def
  backend_rmdir_def backend_remove_def backend_rename_def backend_statvfs_def
  backend_realpath_def backend_getpwnam_def backend_random_def backend_seed_def

lemmas sys_defs = backend_defs sys_call_def sys_int_def sys_num_def c_time_def c_rand_def

subsection \<open>What a system call leaves alone\<close>

text \<open>
  \<open>sys_only s s'\<close>: the two states agree but for the world and the error number. It is
  reflexive and transitive, every call above other than the three that change the
  credentials satisfies it, and it keeps every field of every extension of the record.
\<close>

definition sys_only :: "('w, 'z) sys_scheme \<Rightarrow> ('w, 'z) sys_scheme \<Rightarrow> bool" where
  "sys_only s s' \<longleftrightarrow> s' = s\<lparr>world := world s', errno := errno s'\<rparr>"

lemma sys_only_refl [simp, intro]: "sys_only s s"
  by (simp add: sys_only_def)

lemma sys_onlyI [intro]: "s' = s\<lparr>world := w, errno := e\<rparr> \<Longrightarrow> sys_only s s'"
  by (simp add: sys_only_def)

lemma sys_onlyE:
  assumes "sys_only s s'"
  obtains w e where "s' = s\<lparr>world := w, errno := e\<rparr>"
  using assms by (auto simp: sys_only_def)

lemma sys_only_trans [trans]: "sys_only s s' \<Longrightarrow> sys_only s' s'' \<Longrightarrow> sys_only s s''"
  by (auto elim!: sys_onlyE)

lemma sys_only_world [simp]: "sys_only s (s\<lparr>world := w\<rparr>)"
  by (simp add: sys_only_def)

lemma sys_only_errno [simp]: "sys_only s (s\<lparr>errno := e\<rparr>)"
  by (simp add: sys_only_def)

lemma sys_only_cred: "sys_only s s' \<Longrightarrow> cred s' = cred s"
  by (auto elim: sys_onlyE)

lemma sys_only_more: "sys_only s s' \<Longrightarrow> sys.more s' = sys.more s"
  by (auto elim: sys_onlyE)

lemma sys_call_only [sys_frame]: "sys_call f s = (r, s') \<Longrightarrow> sys_only s s'"
  by (auto simp: sys_call_def split: prod.splits sum.splits)

lemma sys_int_only [sys_frame]: "sys_int f s = (r, s') \<Longrightarrow> sys_only s s'"
  by (auto simp: sys_int_def split: prod.splits option.splits dest: sys_call_only)

lemma sys_num_only [sys_frame]: "sys_num f s = (r, s') \<Longrightarrow> sys_only s s'"
  by (auto simp: sys_num_def split: prod.splits option.splits dest: sys_call_only)

lemma c_time_only [sys_frame]: "c_time os s = (r, s') \<Longrightarrow> sys_only s s'"
  by (auto simp: c_time_def split: prod.splits)

lemma c_rand_only [sys_frame]: "c_rand os s = (r, s') \<Longrightarrow> sys_only s s'"
  by (auto simp: c_rand_def split: prod.splits)

lemma sys_int_result: "sys_int f s = (r, s') \<Longrightarrow> r = 0 \<or> r = -1"
  by (auto simp: sys_int_def split: prod.splits option.splits)

lemmas backend_only [sys_frame] =
  sys_call_only [where f = "os_lstat os p" for os p, folded backend_lstat_def]
  sys_call_only [where f = "os_fstat os p" for os p, folded backend_fstat_def]
  sys_call_only [where f = "os_opendir os p" for os p, folded backend_opendir_def]
  sys_call_only [where f = "os_statvfs os p" for os p, folded backend_statvfs_def]
  sys_call_only [where f = "os_realpath os p" for os p, folded backend_realpath_def]
  sys_call_only [where f = "os_getpwnam os p" for os p, folded backend_getpwnam_def]
  sys_call_only [where f = "os_random os" for os, folded backend_random_def]
  sys_num_only [where f = "os_open os p fl" for os p fl, folded backend_open_def]
  sys_num_only [where f = "os_open_create os p fl m" for os p fl m, folded backend_open_create_def]
  sys_num_only [where f = "os_pwrite os fd d off" for os fd d off, folded backend_pwrite_def]
  sys_int_only [where f = "os_close os fd" for os fd, folded backend_close_def]
  sys_int_only [where f = "os_fsync os fd" for os fd, folded backend_fsync_def]
  sys_int_only [where f = "os_truncate os p n" for os p n, folded backend_truncate_def]
  sys_int_only [where f = "os_ftruncate os p n" for os p n, folded backend_ftruncate_def]
  sys_int_only [where f = "os_lchown os p u g" for os p u g, folded backend_lchown_def]
  sys_int_only [where f = "os_fchown os p u g" for os p u g, folded backend_fchown_def]
  sys_int_only [where f = "os_chmod os p m" for os p m, folded backend_chmod_def]
  sys_int_only [where f = "os_fchmod os p m" for os p m, folded backend_fchmod_def]
  sys_int_only [where f = "os_utime os p a m" for os p a m, folded backend_utime_def]
  sys_int_only [where f = "os_mkdir os p m" for os p m, folded backend_mkdir_def]
  sys_int_only [where f = "os_rmdir os p" for os p, folded backend_rmdir_def]
  sys_int_only [where f = "os_remove os p" for os p, folded backend_remove_def]
  sys_int_only [where f = "os_rename os p q" for os p q, folded backend_rename_def]
  sys_call_only [where f = "os_seed os" for os, folded backend_seed_def]

end
