(* ===== verification/Errors.thy ===== *)
theory Errors
  imports Sys
begin

text \<open>
  \<open>error.c\<close>: the translation of Unix error numbers into NFS status codes, one function per
  operation, each a chain of tests in the source's order, and \<open>join\<close>/\<open>join3\<close>, which combine
  the outcomes of several checks.
\<close>

definition is_stale :: "errno \<Rightarrow> bool" where
  "is_stale e \<longleftrightarrow> e = ENOTDIR \<or> e = ELOOP \<or> e = ENOENT \<or> e = ENAMETOOLONG"

definition symlink_err :: "errno \<Rightarrow> nfsstat3" where
  "symlink_err e =
     (if e = EACCES \<or> e = EPERM then NFS3ERR_ACCES
      else if is_stale e then NFS3ERR_STALE
      else if e = EROFS then NFS3ERR_ROFS
      else if e = EEXIST then NFS3ERR_EXIST
      else if e = ENOSPC then NFS3ERR_NOSPC
      else if e = EDQUOT then NFS3ERR_DQUOT
      else if e = ENOSYS then NFS3ERR_NOTSUPP
      else if e = EINVAL then NFS3ERR_INVAL
      else NFS3ERR_IO)"

definition mkdir_err :: "errno \<Rightarrow> nfsstat3" where "mkdir_err e = symlink_err e"
definition mknod_err :: "errno \<Rightarrow> nfsstat3" where "mknod_err e = symlink_err e"

definition link_err :: "errno \<Rightarrow> nfsstat3" where
  "link_err e =
     (if e = EXDEV then NFS3ERR_XDEV
      else if e = EMLINK then NFS3ERR_MLINK
      else if e = EDQUOT then NFS3ERR_DQUOT
      else symlink_err e)"

definition lookup_err :: "errno \<Rightarrow> nfsstat3" where
  "lookup_err e =
     (if e = ENOENT then NFS3ERR_NOENT
      else if e = ENOMEDIUM then NFS3ERR_NOENT
      else if e = EACCES then NFS3ERR_ACCES
      else if e = ENOTDIR \<or> e = ELOOP \<or> e = ENAMETOOLONG then NFS3ERR_STALE
      else if e = EINVAL then NFS3ERR_INVAL
      else NFS3ERR_IO)"

definition readlink_err :: "errno \<Rightarrow> nfsstat3" where
  "readlink_err e =
     (if e = EINVAL then NFS3ERR_INVAL
      else if e = EACCES then NFS3ERR_ACCES
      else if e = ENOSYS then NFS3ERR_NOTSUPP
      else if is_stale e then NFS3ERR_STALE
      else NFS3ERR_IO)"

definition read_err :: "errno \<Rightarrow> nfsstat3" where
  "read_err e =
     (if e = EINVAL then NFS3ERR_INVAL
      else if is_stale e then NFS3ERR_STALE
      else if e = EACCES then NFS3ERR_ACCES
      else if e = ENXIO \<or> e = ENODEV then NFS3ERR_NXIO
      else NFS3ERR_IO)"

definition write_open_err :: "errno \<Rightarrow> nfsstat3" where
  "write_open_err e =
     (if e = EACCES then NFS3ERR_ACCES
      else if is_stale e then NFS3ERR_STALE
      else if e = EINVAL then NFS3ERR_INVAL
      else if e = EROFS then NFS3ERR_ROFS
      else NFS3ERR_IO)"

definition write_write_err :: "errno \<Rightarrow> nfsstat3" where
  "write_write_err e =
     (if e = EINVAL then NFS3ERR_INVAL
      else if e = EFBIG then NFS3ERR_FBIG
      else if e = ENOSPC then NFS3ERR_NOSPC
      else if e = EDQUOT then NFS3ERR_DQUOT
      else NFS3ERR_IO)"

definition create_err :: "errno \<Rightarrow> nfsstat3" where
  "create_err e =
     (if e = EACCES then NFS3ERR_ACCES
      else if is_stale e then NFS3ERR_STALE
      else if e = EROFS then NFS3ERR_ROFS
      else if e = ENOSPC then NFS3ERR_NOSPC
      else if e = EEXIST then NFS3ERR_EXIST
      else if e = EDQUOT then NFS3ERR_DQUOT
      else NFS3ERR_IO)"

definition rename_err :: "errno \<Rightarrow> nfsstat3" where
  "rename_err e =
     (if e = EISDIR then NFS3ERR_ISDIR
      else if e = EXDEV then NFS3ERR_XDEV
      else if e = EEXIST then NFS3ERR_EXIST
      else if e = ENOTEMPTY then NFS3ERR_NOTEMPTY
      else if e = EINVAL then NFS3ERR_INVAL
      else if e = ENOTDIR then NFS3ERR_NOTDIR
      else if e = EACCES \<or> e = EPERM then NFS3ERR_ACCES
      else if e = ENOENT then NFS3ERR_NOENT
      else if e = ELOOP \<or> e = ENAMETOOLONG then NFS3ERR_STALE
      else if e = EROFS then NFS3ERR_ROFS
      else if e = ENOSPC then NFS3ERR_NOSPC
      else if e = EDQUOT then NFS3ERR_DQUOT
      else NFS3ERR_IO)"

text \<open>The source returns the number \<open>ENOENT\<close>, 2, which is \<open>NFS3ERR_NOENT\<close>.\<close>

definition remove_err :: "errno \<Rightarrow> nfsstat3" where
  "remove_err e =
     (if e = EACCES \<or> e = EPERM then NFS3ERR_ACCES
      else if e = ENOENT then NFS3ERR_NOENT
      else if e = ENOTDIR \<or> e = ELOOP \<or> e = ENAMETOOLONG then NFS3ERR_STALE
      else if e = EINVAL then NFS3ERR_INVAL
      else if e = EROFS then NFS3ERR_ROFS
      else NFS3ERR_IO)"

definition rmdir_err :: "errno \<Rightarrow> nfsstat3" where
  "rmdir_err e = (if e = ENOTEMPTY then NFS3ERR_NOTEMPTY else remove_err e)"

definition setattr_err :: "errno \<Rightarrow> nfsstat3" where
  "setattr_err e =
     (if e = EPERM then NFS3ERR_PERM
      else if e = EROFS then NFS3ERR_ROFS
      else if is_stale e then NFS3ERR_STALE
      else if e = EACCES then NFS3ERR_ACCES
      else if e = EDQUOT then NFS3ERR_DQUOT
      else if e = EINVAL then NFS3ERR_INVAL
      else NFS3ERR_IO)"

definition readdir_err :: "errno \<Rightarrow> nfsstat3" where
  "readdir_err e =
     (if e = EPERM then NFS3ERR_PERM
      else if e = EACCES then NFS3ERR_ACCES
      else if e = ENOTDIR then NFS3ERR_NOTDIR
      else if is_stale e then NFS3ERR_STALE
      else if e = EINVAL then NFS3ERR_INVAL
      else NFS3ERR_IO)"

definition join :: "nfsstat3 \<Rightarrow> nfsstat3 \<Rightarrow> nfsstat3" where
  "join x y = (if x \<noteq> NFS3_OK then x else y)"

definition join3 :: "nfsstat3 \<Rightarrow> nfsstat3 \<Rightarrow> nfsstat3 \<Rightarrow> nfsstat3" where
  "join3 x y z = (if x \<noteq> NFS3_OK then x else join y z)"

lemmas err_defs = symlink_err_def mkdir_err_def mknod_err_def link_err_def lookup_err_def
  readlink_err_def read_err_def write_open_err_def write_write_err_def create_err_def
  rename_err_def remove_err_def rmdir_err_def setattr_err_def readdir_err_def is_stale_def

text \<open>A failed operation is never reported as a success.\<close>

lemma err_not_ok [simp]:
  "symlink_err e \<noteq> NFS3_OK" "mkdir_err e \<noteq> NFS3_OK" "mknod_err e \<noteq> NFS3_OK"
  "link_err e \<noteq> NFS3_OK" "lookup_err e \<noteq> NFS3_OK" "readlink_err e \<noteq> NFS3_OK"
  "read_err e \<noteq> NFS3_OK" "write_open_err e \<noteq> NFS3_OK" "write_write_err e \<noteq> NFS3_OK"
  "create_err e \<noteq> NFS3_OK" "rename_err e \<noteq> NFS3_OK" "remove_err e \<noteq> NFS3_OK"
  "rmdir_err e \<noteq> NFS3_OK" "setattr_err e \<noteq> NFS3_OK" "readdir_err e \<noteq> NFS3_OK"
  by (auto simp: err_defs)

lemma join_ok_iff [simp]: "join x y = NFS3_OK \<longleftrightarrow> x = NFS3_OK \<and> y = NFS3_OK"
  by (simp add: join_def)

lemma join3_ok_iff [simp]:
  "join3 x y z = NFS3_OK \<longleftrightarrow> x = NFS3_OK \<and> y = NFS3_OK \<and> z = NFS3_OK"
  by (simp add: join3_def)

text \<open>
  The combination of checks is a monoid with \<open>NFS3_OK\<close> as unit: the interface is stated once
  as a locale, so that a sequence of checks reports the first failure whatever its length.
\<close>

locale first_failure =
  fixes ok :: 'a and comb :: "'a \<Rightarrow> 'a \<Rightarrow> 'a"
  assumes ok_left: "comb ok y = y"
    and keep_left: "x \<noteq> ok \<Longrightarrow> comb x y = x"
begin

lemma ok_right: "comb x ok = x"
  by (cases "x = ok") (auto simp: ok_left keep_left)

lemma assoc: "comb (comb x y) z = comb x (comb y z)"
  by (cases "x = ok") (auto simp: ok_left keep_left)

lemma foldr_first:
  "foldr comb xs ok = (case List.find (\<lambda>x. x \<noteq> ok) xs of None \<Rightarrow> ok | Some x \<Rightarrow> x)"
  by (induction xs) (auto simp: ok_left keep_left)

end

interpretation status: first_failure NFS3_OK join
  by unfold_locales (auto simp: join_def)

lemma join3_join: "join3 x y z = foldr join [x, y, z] NFS3_OK"
  by (simp add: join3_def join_def)

end
