(* ===== verification/Daemon_Globals.thy ===== *)
theory Daemon_Globals
  imports Errors
begin

text \<open>
  The globals of \<open>daemon.c\<close> that the rest of the server reads and writes: the write verifier,
  the READDIR cookie base and the command-line options the request path looks at; and the RPC
  request as the handlers see it.
\<close>

record 'w daemon = "'w sys" +
  wverf :: "byte list"
  rcookie :: uint64
  opt_singleuser :: bool
  opt_brute_force :: bool
  opt_readable_executables :: bool

subsection \<open>Requests\<close>

record authunix_parms =
  aup_uid :: uint32
  aup_gid :: uint32
  aup_gids :: "uint32 list"

definition AUTH_UNIX :: int where "AUTH_UNIX = 1"

definition SOCK_STREAM :: int where "SOCK_STREAM = 1"

record svc_req =
  rq_vers :: nat
  oa_flavor :: int
  rq_clntcred :: authunix_parms
  rq_addr :: uint32
  rq_port :: "16 word"
  rq_socktype :: int

definition get_remote :: "svc_req \<Rightarrow> uint32" where "get_remote req = rq_addr req"
definition get_port :: "svc_req \<Rightarrow> 16 word" where "get_port req = rq_port req"

text \<open>\<open>rq_socktype\<close> is what \<open>getsockopt\<close> reports, or -1 where it fails.\<close>

definition get_socket_type :: "svc_req \<Rightarrow> int" where "get_socket_type req = rq_socktype req"

subsection \<open>Write verifier\<close>

text \<open>
  \<open>wverf\<close> is an array of eight \<open>char\<close>s, so each of the three assignments stores one byte.
\<close>

definition regenerate_write_verifier :: "'w os \<Rightarrow> ('w, 'z) daemon_scheme \<Rightarrow> ('w, 'z) daemon_scheme" where
  "regenerate_write_verifier os s =
     (let pid = os_getpid os (world s);
          s = s\<lparr>wverf := (wverf s)[0 := ucast pid]\<rparr>;
          (r, s) = c_rand os s;
          s = s\<lparr>wverf := (wverf s)[0 := wverf s ! 0 XOR ucast r]\<rparr>;
          (t, s) = c_time os s
      in s\<lparr>wverf := (wverf s)[4 := word_of_int t]\<rparr>)"

text \<open>
  What it computes, in one update: bytes 0 and 4 from the process id, a random number and the
  time; the other six bytes stay.
\<close>

lemma regenerate_write_verifier_eq:
  "regenerate_write_verifier os s =
     (case os_rand os (world s) of (r, w) \<Rightarrow>
      case os_time os w of (t, w') \<Rightarrow>
        s\<lparr>world := w',
          wverf := (wverf s)[0 := ((wverf s)[0 := ucast (os_getpid os (world s))]) ! 0 XOR ucast r,
                             4 := word_of_int t]\<rparr>)"
  by (simp add: regenerate_write_verifier_def c_rand_def c_time_def Let_def split: prod.splits)

lemma regenerate_write_verifier_frame:
  obtains w v where "regenerate_write_verifier os s = s\<lparr>world := w, wverf := v\<rparr>"
    and "length v = length (wverf s)" and "\<And>i. i \<noteq> 0 \<Longrightarrow> i \<noteq> 4 \<Longrightarrow> v ! i = wverf s ! i"
proof -
  obtain r w where r: "os_rand os (world s) = (r, w)" by fastforce
  obtain t w' where t: "os_time os w = (t, w')" by fastforce
  let ?v = "(wverf s)[0 := ((wverf s)[0 := ucast (os_getpid os (world s))]) ! 0 XOR ucast r,
                      4 := word_of_int t]"
  show thesis
    by (rule that [of ?v w']) (simp_all add: regenerate_write_verifier_eq r t)
qed

subsection \<open>READDIR cookies\<close>

definition change_readdir_cookie :: "('w, 'z) daemon_scheme \<Rightarrow> ('w, 'z) daemon_scheme" where
  "change_readdir_cookie s =
     (let s = s\<lparr>rcookie := drop_bit 32 (rcookie s)\<rparr>;
          s = s\<lparr>rcookie := rcookie s + 1\<rparr>
      in s\<lparr>rcookie := push_bit 32 (rcookie s)\<rparr>)"

definition cookie_base :: "uint64 \<Rightarrow> bool" where
  "cookie_base c \<longleftrightarrow> c AND 0xFFFFFFFF = 0"

lemma change_readdir_cookie_rcookie:
  "rcookie (change_readdir_cookie s) = push_bit 32 (drop_bit 32 (rcookie s) + 1)"
  by (simp add: change_readdir_cookie_def Let_def)

lemma mask32_eq: "(0xFFFFFFFF :: uint64) = mask 32"
  by (simp add: mask_eq_exp_minus_1)

lemma push_bit_cookie_base: "cookie_base (push_bit 32 c)"
  unfolding cookie_base_def mask32_eq
  by (rule bit_word_eqI) (auto simp: bit_simps)

text \<open>Every change gives another base: the upper half is counted up modulo \<open>2 ^ 32\<close>.\<close>

lemma rcookie_changes:
  "rcookie (change_readdir_cookie s) \<noteq> rcookie s"
proof
  assume eq: "rcookie (change_readdir_cookie s) = rcookie s"
  let ?h = "drop_bit 32 (rcookie s)"
  have h: "?h = take_bit 32 ?h" by (rule bit_word_eqI) (auto simp: bit_simps dest: bit_imp_le_length)
  have "drop_bit 32 (push_bit 32 (?h + 1)) = take_bit 32 (?h + 1)"
    by (rule bit_word_eqI) (auto simp: bit_simps dest: bit_imp_le_length)
  with eq have "take_bit 32 (?h + 1) = take_bit 32 ?h"
    using h by (simp add: change_readdir_cookie_rcookie)
  then have "bit (take_bit 32 (?h + 1)) 0 = bit (take_bit 32 ?h) 0" by simp
  then show False by (simp add: bit_simps bit_0)
qed

end
