(* ===== verification/Lexer.thy ===== *)
theory Lexer
  imports Nfs_Types "HOL-Library.While_Combinator"
begin

text \<open>
  The lexer of the exports file, \<open>Config/lex.yy.c\<close>: the tables generated from \<open>Config/exports.l\<close>, the
  loop of \<open>yylex\<close> that runs them over a buffer, the filling of the buffer from the file, and the
  actions of the rules. The buffer outlives the parse of a file: it is part of the server's state. A
  file is the string of its bytes; reading an open file is assumed not to fail, and the file is not a
  terminal.
\<close>

subsection \<open>Tokens\<close>

text \<open>A token the lexer returns as a bare character carries the \<open>char\<close>, a signed number.\<close>

datatype token =
    T_PATH string | T_ID string | T_OPTVALUE string | T_WHITE string
  | T_IP string | T_NET string | T_OLDNET string | T_CHAR int

fun text_of :: "token \<Rightarrow> string" where
  "text_of (T_PATH x) = x" | "text_of (T_ID x) = x" | "text_of (T_OPTVALUE x) = x"
| "text_of (T_WHITE x) = x" | "text_of (T_IP x) = x" | "text_of (T_NET x) = x"
| "text_of (T_OLDNET x) = x" | "text_of (T_CHAR i) = []"

subsection \<open>The tables\<close>

definition yy_accept :: "nat list" where
  "yy_accept =
    [0, 0, 2, 17, 14, 12, 15, 14, 5, 11, 14, 10, 14, 13, 2, 1, 5, 12, 5, 0, 9, 5, 11, 0, 0, 10, 3,
     13, 2, 1, 5, 5, 4, 0, 0, 0, 0, 0, 0, 0, 0, 6, 0, 0, 6, 7, 6, 0, 7, 0, 0, 0, 0, 0, 0, 0, 0, 8,
     0, 8, 8, 0]"

definition yy_ec :: "nat list" where
  "yy_ec =
    [0, 1, 1, 1, 1, 1, 1, 1, 1, 2, 3, 1, 1, 1, 1, 1, 1, 1, 1, 1, 1, 1, 1, 1, 1, 1, 1, 1, 1, 1, 1,
     1, 2, 1, 4, 5, 1, 1, 1, 1, 1, 6, 1, 1, 6, 7, 8, 9, 10, 10, 10, 10, 10, 10, 10, 10, 10, 10, 1,
     1, 1, 11, 1, 1, 1, 1, 1, 1, 1, 1, 1, 1, 1, 1, 1, 1, 1, 1, 1, 1, 1, 1, 1, 1, 1, 1, 1, 1, 1, 1,
     1, 1, 12, 1, 1, 7, 1, 13, 13, 13, 13, 13, 13, 13, 13, 13, 13, 13, 13, 13, 13, 13, 13, 13, 13,
     13, 13, 13, 13, 13, 13, 13, 13, 1, 1, 1, 1, 1, 1, 1, 1, 1, 1, 1, 1, 1, 1, 1, 1, 1, 1, 1, 1, 1,
     1, 1, 1, 1, 1, 1, 1, 1, 1, 1, 1, 1, 1, 1, 1, 1, 1, 1, 1, 1, 1, 1, 1, 1, 1, 1, 1, 1, 1, 1, 1,
     1, 1, 1, 1, 1, 1, 1, 1, 1, 1, 1, 1, 1, 1, 1, 1, 1, 1, 1, 1, 1, 1, 1, 1, 1, 1, 1, 1, 1, 1, 1,
     1, 1, 1, 1, 1, 1, 1, 1, 1, 1, 1, 1, 1, 1, 1, 1, 1, 1, 1, 1, 1, 1, 1, 1, 1, 1, 1, 1, 1, 1, 1,
     1, 1, 1, 1, 1, 1, 1, 1, 1, 1, 1, 1, 1, 1, 1, 1, 1, 1, 1]"

definition yy_meta :: "nat list" where
  "yy_meta =
    [0, 1, 2, 3, 1, 1, 4, 5, 5, 1, 5, 1, 1, 5]"

definition yy_base :: "nat list" where
  "yy_base =
    [0, 0, 12, 85, 86, 16, 86, 80, 0, 0, 14, 0, 80, 0, 23, 86, 79, 0, 0, 77, 76, 0, 0, 69, 68, 0,
     86, 0, 0, 86, 74, 73, 86, 21, 67, 64, 63, 24, 64, 61, 54, 26, 55, 52, 48, 29, 48, 43, 38, 32,
     36, 31, 28, 35, 25, 20, 17, 13, 12, 9, 86, 86, 45, 50, 55, 60, 11, 65]"

definition yy_def :: "nat list" where
  "yy_def =
    [0, 61, 1, 61, 61, 61, 61, 62, 63, 64, 61, 65, 61, 66, 61, 61, 67, 5, 63, 62, 62, 63, 64, 61,
     10, 65, 61, 66, 14, 61, 67, 67, 61, 61, 61, 61, 33, 61, 61, 61, 37, 61, 61, 61, 41, 61, 61,
     61, 45, 61, 61, 61, 49, 61, 61, 61, 53, 61, 61, 61, 61, 0, 61, 61, 61, 61, 61, 61]"

definition yy_nxt :: "nat list" where
  "yy_nxt =
    [0, 4, 5, 6, 7, 8, 4, 4, 4, 9, 10, 11, 12, 13, 14, 15, 27, 16, 17, 60, 55, 18, 23, 59, 24, 28,
     29, 58, 30, 35, 57, 36, 39, 51, 40, 43, 44, 47, 54, 48, 51, 53, 52, 55, 47, 56, 19, 19, 50,
     19, 19, 21, 21, 49, 21, 21, 22, 43, 46, 22, 22, 25, 45, 39, 42, 25, 31, 31, 31, 31, 31, 41,
     35, 38, 37, 23, 32, 32, 34, 33, 20, 20, 32, 26, 20, 61, 3, 61, 61, 61, 61, 61, 61, 61, 61, 61,
     61, 61, 61, 61]"

definition yy_chk :: "nat list" where
  "yy_chk =
    [0, 1, 1, 1, 1, 1, 1, 1, 1, 1, 1, 1, 1, 1, 2, 2, 66, 2, 5, 59, 58, 5, 10, 57, 10, 14, 14, 56,
     14, 33, 55, 33, 37, 54, 37, 41, 41, 45, 52, 45, 49, 51, 49, 53, 50, 53, 62, 62, 48, 62, 62,
     63, 63, 47, 63, 63, 64, 46, 44, 64, 64, 65, 43, 42, 40, 65, 67, 67, 67, 67, 67, 39, 38, 36,
     35, 34, 31, 30, 24, 23, 20, 19, 16, 12, 7, 3, 61, 61, 61, 61, 61, 61, 61, 61, 61, 61, 61, 61,
     61, 61]"

subsection \<open>Running the tables\<close>

text \<open>
  A row that has no entry of its own for the class of a character names another row to look in; the
  rows from 62 on have the classes merged into those of \<open>yy_meta\<close>.
\<close>

definition yy_trans :: "nat \<Rightarrow> nat \<Rightarrow> nat" where
  "yy_trans st c =
     (let (st, c) =
            while (\<lambda>(st, c). yy_chk ! (yy_base ! st + c) \<noteq> st)
              (\<lambda>(st, c). let st = yy_def ! st in (st, if 62 \<le> st then yy_meta ! c else c)) (st, c)
      in yy_nxt ! (yy_base ! st + c))"

text \<open>
  A NUL is also the mark of the end of the buffer. The loop meets it as such first, finds out that it
  belongs to the file and takes it for a character of class 1 (\<open>yy_try_NUL_trans\<close>).
\<close>

definition yy_class :: "char \<Rightarrow> nat" where
  "yy_class c = (if of_char c = (0 :: nat) then 1 else yy_ec ! of_char c)"

text \<open>
  The characters are matched until no longer match is possible, in a state that has no row of its own
  (\<open>Inl\<close>), or the buffer is at its end (\<open>Inr\<close>). The last accepting state and its position are kept.
\<close>

fun yy_match ::
  "nat \<Rightarrow> nat \<Rightarrow> (nat \<times> nat) option \<Rightarrow> string \<Rightarrow> (nat \<times> nat \<times> (nat \<times> nat) option) + (nat \<times> (nat \<times> nat) option)" where
  "yy_match st cp la [] = Inr (st, la)"
| "yy_match st cp la (c # cs) =
     (let la = (if yy_accept ! st \<noteq> 0 then Some (st, cp) else la);
          st = yy_trans st (yy_class c)
      in if yy_base ! st = 86 then Inl (st, cp + 1, la) else yy_match st (cp + 1) la cs)"

definition yy_find_action :: "nat \<Rightarrow> nat \<Rightarrow> (nat \<times> nat) option \<Rightarrow> nat \<times> nat" where
  "yy_find_action st cp la =
     (if yy_accept ! st \<noteq> 0 then (yy_accept ! st, cp)
      else case la of Some (st, cp) \<Rightarrow> (yy_accept ! st, cp) | None \<Rightarrow> (0, 0))"

subsection \<open>The buffer\<close>

definition YY_BUF_SIZE :: nat where "YY_BUF_SIZE = 16384"
definition YY_READ_BUF_SIZE :: nat where "YY_READ_BUF_SIZE = 8192"

text \<open>
  The characters that are not scanned yet, the size, whether the scan stands at the beginning of a
  line, and whether the end of the file has been met behind characters that were still to be scanned.
\<close>

record yy_buffer =
  yy_ch_buf :: string
  yy_buf_size :: nat
  yy_at_bol :: bool
  yy_eof_pending :: bool

definition yy_flush_buffer :: "yy_buffer \<Rightarrow> yy_buffer" where
  "yy_flush_buffer b = b\<lparr>yy_ch_buf := [], yy_at_bol := True, yy_eof_pending := False\<rparr>"

definition yy_create_buffer :: "nat \<Rightarrow> yy_buffer" where
  "yy_create_buffer n = \<lparr>yy_ch_buf = [], yy_buf_size = n, yy_at_bol = True, yy_eof_pending = False\<rparr>"

text \<open>The buffer has room for more than it holds.\<close>

definition buffer_inv :: "yy_buffer \<Rightarrow> bool" where
  "buffer_inv b \<longleftrightarrow> length (yy_ch_buf b) < yy_buf_size b \<and> 2 \<le> yy_buf_size b"

datatype eob_act = EOB_ACT_CONTINUE_SCAN | EOB_ACT_END_OF_FILE | EOB_ACT_LAST_MATCH

text \<open>
  The characters matched so far, the whole rest of the buffer, move to its beginning; more are read
  behind them. A buffer they fill is doubled.
\<close>

definition yy_get_next_buffer :: "yy_buffer \<Rightarrow> string \<Rightarrow> eob_act \<times> yy_buffer \<times> string" where
  "yy_get_next_buffer b file =
     (let number_to_move = length (yy_ch_buf b);
          b = (if \<not> yy_eof_pending b \<and> yy_buf_size b - number_to_move - 1 = 0
               then b\<lparr>yy_buf_size := 2 * yy_buf_size b\<rparr> else b);
          num_to_read = (if yy_eof_pending b then 0
                         else min YY_READ_BUF_SIZE (yy_buf_size b - number_to_move - 1));
          (chunk, file) = (take num_to_read file, drop num_to_read file)
      in if chunk = []
         then (if number_to_move = 0 then (EOB_ACT_END_OF_FILE, yy_flush_buffer b, file)
               else (EOB_ACT_LAST_MATCH, b\<lparr>yy_eof_pending := True\<rparr>, file))
         else (EOB_ACT_CONTINUE_SCAN, b\<lparr>yy_ch_buf := yy_ch_buf b @ chunk\<rparr>, file))"

subsection \<open>Scanning\<close>

definition yy_start_state :: "bool \<Rightarrow> nat" where
  "yy_start_state bol = 1 + of_bool bol"

lemma yy_get_next_buffer_shrinks:
  "yy_get_next_buffer b file = (EOB_ACT_CONTINUE_SCAN, b', file') \<Longrightarrow> length file' < length file"
  by (auto simp: yy_get_next_buffer_def Let_def split: if_splits)

text \<open>
  The rule that matches next and the length of the match, \<open>None\<close> at the end of the file. When the
  buffer has been filled up the state is computed anew from its beginning
  (\<open>yy_get_previous_state\<close>).
\<close>

function yy_scan :: "yy_buffer \<Rightarrow> string \<Rightarrow> (nat \<times> nat) option \<times> yy_buffer \<times> string" where
  "yy_scan b file =
     (case yy_match (yy_start_state (yy_at_bol b)) 0 None (yy_ch_buf b) of
        Inl (st, cp, la) \<Rightarrow> (Some (yy_find_action st cp la), b, file)
      | Inr (st, la) \<Rightarrow>
          (case yy_get_next_buffer b file of
             (EOB_ACT_END_OF_FILE, b, file) \<Rightarrow> (None, b, file)
           | (EOB_ACT_LAST_MATCH, b, file) \<Rightarrow> (Some (yy_find_action st (length (yy_ch_buf b)) la), b, file)
           | (EOB_ACT_CONTINUE_SCAN, b, file) \<Rightarrow> yy_scan b file))"
  by pat_completeness auto
termination by (relation "measure (length \<circ> snd)") (auto dest!: yy_get_next_buffer_shrinks [OF sym])

declare yy_scan.simps [simp del]

text \<open>\<open>YY_RULE_SETUP\<close> and the end of the action: the text of the match is taken off the buffer.\<close>

definition yy_advance :: "nat \<Rightarrow> yy_buffer \<Rightarrow> yy_buffer" where
  "yy_advance leng b =
     b\<lparr>yy_ch_buf := drop leng (yy_ch_buf b),
       yy_at_bol := (if 0 < leng then yy_ch_buf b ! (leng - 1) = CHR ''\<newline>'' else yy_at_bol b)\<rparr>"

text \<open>
  The text of a token is copied into \<open>yylval\<close>, an array of \<open>NFS_MAXPATHLEN\<close> bytes; a longer text is
  cut and recorded as an error. It is read as a C string from there on.
\<close>

definition copy_text :: "string \<Rightarrow> string \<times> bool" where
  "copy_text from =
     (let (len, err) = (if NFS_MAXPATHLEN < length from + 1 then (NFS_MAXPATHLEN - 1, True) else (length from, False))
      in (takeWhile (\<lambda>c. of_char c \<noteq> (0 :: nat)) (take len from), err))"

definition signed_char :: "char \<Rightarrow> int" where
  "signed_char c = (let n = of_char c in if n < 128 then n else n - 256)"

text \<open>The actions: the token a rule returns and whether its text was too long; the first five return none.\<close>

definition yy_action :: "nat \<Rightarrow> string \<Rightarrow> (token \<times> bool) option" where
  "yy_action act yytext =
     (if act = 6 then Some (apfst T_IP (copy_text yytext))
      else if act = 7 then Some (apfst T_NET (copy_text yytext))
      else if act = 8 then Some (apfst T_OLDNET (copy_text yytext))
      else if act = 9 then Some (apfst T_PATH (copy_text (take (length yytext - 2) (drop 1 yytext))))
      else if act = 10 then Some (apfst T_OPTVALUE (copy_text (drop 1 yytext)))
      else if act = 11 then Some (apfst T_PATH (copy_text yytext))
      else if act = 12 then Some (apfst T_WHITE (copy_text yytext))
      else if act = 13 then Some (apfst T_ID (copy_text yytext))
      else if act = 14 then Some (T_CHAR (signed_char (hd yytext)), False)
      else if act = 15 then Some (T_CHAR 10, False)
      else None)"

subsection \<open>A scan makes progress\<close>

lemma yy_class_range: "yy_class c \<in> set [1..<14]"
proof -
  have "\<forall>n\<in>set [1..<256]. yy_ec ! n \<in> set [1..<14]" by code_simp
  moreover have "of_char c < (256 :: nat)" by (rule nat_of_char_less_256)
  ultimately show ?thesis by (auto simp: yy_class_def)
qed

lemma yy_starts: "\<forall>st\<in>set [1, 2]. \<forall>c\<in>set [1..<14]. yy_accept ! yy_trans st c \<noteq> 0"
  by code_simp

definition la_ok :: "nat \<Rightarrow> (nat \<times> nat) option \<Rightarrow> bool" where
  "la_ok n la \<longleftrightarrow> (\<exists>st k. la = Some (st, k) \<and> 0 < k \<and> k \<le> n \<and> yy_accept ! st \<noteq> 0)"

lemma la_ok_step:
  "yy_accept ! st \<noteq> 0 \<or> la_ok cp la \<Longrightarrow> 0 < cp \<Longrightarrow> la_ok (cp + 1) (if yy_accept ! st \<noteq> 0 then Some (st, cp) else la)"
  by (auto simp: la_ok_def)

lemma yy_match_ok:
  assumes "yy_accept ! st \<noteq> 0 \<or> la_ok cp la" "0 < cp"
  shows "yy_match st cp la cs = Inl (st', n, la') \<Longrightarrow> 0 < n \<and> n \<le> cp + length cs \<and> la_ok n la'"
    and "yy_match st cp la cs = Inr (st', la') \<Longrightarrow> yy_accept ! st' \<noteq> 0 \<or> la_ok (cp + length cs) la'"
  using assms
proof (induction cs arbitrary: st cp la)
  case Nil
  { case 1 then show ?case by simp }
  { case 2 then show ?case by simp }
next
  case (Cons c cs)
  { case 1
    note ok = la_ok_step [OF 1(2,3)]
    show ?case
    proof (cases "yy_base ! yy_trans st (yy_class c) = 86")
      case True
      with 1 ok show ?thesis by (auto simp: Let_def)
    next
      case False
      with 1 ok Cons.IH(1) [of "yy_trans st (yy_class c)" "cp + 1" "if yy_accept ! st \<noteq> 0 then Some (st, cp) else la"] show ?thesis by (simp add: Let_def)
    qed }
  { case 2
    with la_ok_step [OF 2(2,3)]
      Cons.IH(2) [of "yy_trans st (yy_class c)" "cp + 1" "if yy_accept ! st \<noteq> 0 then Some (st, cp) else la"]
    show ?case by (simp add: Let_def split: if_splits) }
qed

lemma yy_find_action_ok:
  assumes "yy_accept ! st \<noteq> 0 \<or> la_ok n la" "yy_find_action st n la = (act, k)" "0 < n"
  shows "act \<noteq> 0 \<and> 0 < k \<and> k \<le> n"
  using assms by (auto simp: yy_find_action_def la_ok_def split: if_splits)

text \<open>A match is never empty and lies within the buffer.\<close>

lemma yy_match_start:
  assumes "st \<in> {1, 2}" "cs \<noteq> []"
  shows "yy_match st 0 None cs = Inl (st', n, la) \<Longrightarrow> yy_find_action st' n la = (act, k) \<Longrightarrow> act \<noteq> 0 \<and> 0 < k \<and> k \<le> length cs"
    and "yy_match st 0 None cs = Inr (st', la) \<Longrightarrow> yy_find_action st' (length cs) la = (act, k)
      \<Longrightarrow> act \<noteq> 0 \<and> 0 < k \<and> k \<le> length cs"
proof -
  obtain c cs' where cs: "cs = c # cs'" using assms(2) by (cases cs) auto
  let ?q = "yy_trans st (yy_class c)" and ?la = "if yy_accept ! st \<noteq> 0 then Some (st, 0) else None"
  have q: "yy_accept ! ?q \<noteq> 0" using assms(1) yy_starts yy_class_range [of c] by auto
  have m: "yy_match st 0 None cs = (if yy_base ! ?q = 86 then Inl (?q, 1, ?la) else yy_match ?q 1 ?la cs')"
    by (simp add: cs Let_def)
  show "act \<noteq> 0 \<and> 0 < k \<and> k \<le> length cs" if "yy_match st 0 None cs = Inl (st', n, la)" "yy_find_action st' n la = (act, k)"
  proof (cases "yy_base ! ?q = 86")
    case True
    with that q show ?thesis by (auto simp: m yy_find_action_def cs)
  next
    case False
    with that(1) have "yy_match ?q 1 ?la cs' = Inl (st', n, la)" by (simp add: m)
    from yy_match_ok(1) [OF _ _ this] q have "0 < n" "n \<le> length cs" "la_ok n la" by (simp_all add: cs)
    then show ?thesis using yy_find_action_ok [OF _ that(2)] by force
  qed
  show "act \<noteq> 0 \<and> 0 < k \<and> k \<le> length cs" if "yy_match st 0 None cs = Inr (st', la)" "yy_find_action st' (length cs) la = (act, k)"
  proof -
    have "yy_match ?q 1 ?la cs' = Inr (st', la)" using that(1) by (simp add: m split: if_splits)
    from yy_match_ok(2) [OF _ _ this] q have "yy_accept ! st' \<noteq> 0 \<or> la_ok (length cs) la" by (simp add: cs)
    from yy_find_action_ok [OF this that(2)] show ?thesis using assms(2) by simp
  qed
qed

lemma yy_get_next_buffer_chars:
  assumes "yy_get_next_buffer b file = (act, b', file')"
  shows "act = EOB_ACT_END_OF_FILE \<Longrightarrow> yy_ch_buf b = [] \<and> yy_ch_buf b' = []"
    and "act = EOB_ACT_LAST_MATCH \<Longrightarrow> yy_ch_buf b \<noteq> [] \<and> yy_ch_buf b' = yy_ch_buf b \<and> yy_at_bol b' = yy_at_bol b"
    and "act = EOB_ACT_CONTINUE_SCAN \<Longrightarrow> yy_ch_buf b' @ file' = yy_ch_buf b @ file \<and> yy_at_bol b' = yy_at_bol b"
    and "length file' \<le> length file"
  using assms by (auto simp: yy_get_next_buffer_def yy_flush_buffer_def Let_def split: if_splits)

lemma yy_scan_ok:
  assumes "yy_scan b inp = (Some (act, k), b', file')"
  shows "act \<noteq> 0 \<and> 0 < k \<and> k \<le> length (yy_ch_buf b') \<and> length (yy_ch_buf b') + length file' \<le> length (yy_ch_buf b) + length inp"
  using assms
proof (induction b inp rule: yy_scan.induct)
  case (1 b inp)
  let ?m = "yy_match (yy_start_state (yy_at_bol b)) 0 None (yy_ch_buf b)"
  have st: "yy_start_state (yy_at_bol b) \<in> {1, 2}" by (simp add: yy_start_state_def)
  show ?case
  proof (cases ?m)
    case (Inl x)
    obtain st' n la where x: "x = (st', n, la)" by (metis prod_cases3)
    have ne: "yy_ch_buf b \<noteq> []" using Inl by (cases "yy_ch_buf b") auto
    have eq: "yy_find_action st' n la = (act, k)" "b' = b" "file' = inp"
      using 1(2) yy_scan.simps [of b inp] by (simp_all add: Inl x)
    from yy_match_start(1) [OF st ne Inl [unfolded x] eq(1)] show ?thesis by (simp add: eq)
  next
    case (Inr x)
    obtain st' la where x: "x = (st', la)" by fastforce
    obtain a c f where n: "yy_get_next_buffer b inp = (a, c, f)" by (metis prod_cases3)
    have eq: "(case a of EOB_ACT_END_OF_FILE \<Rightarrow> (None, c, f)
           | EOB_ACT_LAST_MATCH \<Rightarrow> (Some (yy_find_action st' (length (yy_ch_buf c)) la), c, f)
           | EOB_ACT_CONTINUE_SCAN \<Rightarrow> yy_scan c f) = (Some (act, k), b', file')"
      using 1(2) yy_scan.simps [of b inp] by (cases a) (auto simp: Inr x n)
    show ?thesis
    proof (cases a)
      case EOB_ACT_CONTINUE_SCAN
      with 1(1) [OF Inr x [symmetric] n [symmetric] EOB_ACT_CONTINUE_SCAN refl] eq yy_get_next_buffer_chars(3) [OF n]
      show ?thesis by simp (metis length_append)
    next
      case EOB_ACT_LAST_MATCH
      from EOB_ACT_LAST_MATCH eq yy_match_start(2) [OF st _ Inr [unfolded x]] yy_get_next_buffer_chars(2,4) [OF n]
      show ?thesis by auto
    next
      case EOB_ACT_END_OF_FILE
      with eq show ?thesis by simp
    qed
  qed
qed

subsection \<open>The tokens of a file\<close>

text \<open>\<open>yylex\<close>: the next token and whether its text was too long, \<open>None\<close> at the end of the file.\<close>

function yylex :: "yy_buffer \<Rightarrow> string \<Rightarrow> (token \<times> bool) option \<times> yy_buffer \<times> string" where
  "yylex b file =
     (case yy_scan b file of
        (None, b, file) \<Rightarrow> (None, b, file)
      | (Some (act, leng), b, file) \<Rightarrow>
          (case yy_action act (take leng (yy_ch_buf b)) of
             Some t \<Rightarrow> (Some t, yy_advance leng b, file)
           | None \<Rightarrow> yylex (yy_advance leng b) file))"
  by pat_completeness auto
termination
  by (relation "measure (\<lambda>(b, file). length (yy_ch_buf b) + length file)")
    (auto simp: yy_advance_def dest!: yy_scan_ok [OF sym])

declare yylex.simps [simp del]

lemma yylex_ok:
  assumes "yylex b inp = (Some t, b', file')"
  shows "length (yy_ch_buf b') + length file' < length (yy_ch_buf b) + length inp"
  using assms
proof (induction b inp rule: yylex.induct)
  case (1 b inp)
  obtain r c f where s: "yy_scan b inp = (r, c, f)" by (metis prod_cases3)
  obtain act k where r: "r = Some (act, k)" using 1(2) yylex.simps [of b inp] s by (cases r) auto
  note ok = yy_scan_ok [OF s [unfolded r]]
  show ?case
  proof (cases "yy_action act (take k (yy_ch_buf c))")
    case None
    with 1(2) yylex.simps [of b inp] s r have "yylex (yy_advance k c) f = (Some t, b', file')" by simp
    with 1(1) [OF s [symmetric] r refl refl None] ok show ?thesis by (auto simp: yy_advance_def)
  next
    case (Some u)
    with 1(2) yylex.simps [of b inp] s r ok show ?thesis by (auto simp: yy_advance_def)
  qed
qed

text \<open>The tokens up to the end of the file, each with the buffer after it, and the buffer at the end.\<close>

function yylex_all :: "yy_buffer \<Rightarrow> string \<Rightarrow> ((token \<times> bool) \<times> yy_buffer) list \<times> yy_buffer" where
  "yylex_all b file =
     (case yylex b file of
        (None, b, file) \<Rightarrow> ([], b)
      | (Some t, b, file) \<Rightarrow> (case yylex_all b file of (ts, e) \<Rightarrow> ((t, b) # ts, e)))"
  by pat_completeness auto
termination
  by (relation "measure (\<lambda>(b, file). length (yy_ch_buf b) + length file)") (auto dest!: yylex_ok [OF sym])

declare yylex_all.simps [simp del]

end
