(* ===== verification/Exports.thy ===== *)
theory Exports
  imports Daemon_Globals Lexer
begin

text \<open>
  The export table and its access control, the C code of \<open>Config/exports.y\<close> after the grammar
  (\<open>Config/y.tab.c\<close> holds the same text as it is compiled): which host may use which export
  with which options, and the globals the last lookup leaves behind.
\<close>

definition OPT_NO_ROOT_SQUASH :: uint32 where "OPT_NO_ROOT_SQUASH = 1"
definition OPT_ALL_SQUASH :: uint32 where "OPT_ALL_SQUASH = 2"
definition OPT_RW :: uint32 where "OPT_RW = 4"
definition OPT_REMOVABLE :: uint32 where "OPT_REMOVABLE = 8"
definition OPT_INSECURE :: uint32 where "OPT_INSECURE = 16"
definition ANON_NOTSPECIAL :: uint32 where "ANON_NOTSPECIAL = 0xffffffff"

lemmas opt_defs = OPT_NO_ROOT_SQUASH_def OPT_ALL_SQUASH_def OPT_RW_def OPT_REMOVABLE_def
  OPT_INSECURE_def

text \<open>
  \<open>exports_opts\<close> is a C \<open>int\<close> that holds option bits or -1; as a word, -1 has every bit set,
  so a test of a bit succeeds on -1, as it does in C.
\<close>

record e_host =
  h_orig :: string
  h_options :: uint32
  h_password :: string
  h_password_hash :: uint32
  h_addr :: uint32
  h_mask :: uint32
  h_anonuid :: uint32
  h_anongid :: uint32

record e_item =
  i_path :: path
  i_orig :: path
  i_hosts :: "e_host list"
  i_fsid :: uint32
  i_last_mtime :: time_t
  i_dir_hash :: uint32

record 'w expo = "'w daemon" +
  export_list :: "e_item list"
  exports_access :: bool
  exports_nfslist :: "(path \<times> string list) list"
  exports_opts :: uint32
  export_path :: "path option"
  export_fsid :: uint32
  export_password_hash :: uint32
  last_anonuid :: uint32
  last_anongid :: uint32
  yy_current_buffer :: yy_buffer

subsection \<open>Hashing\<close>

text \<open>A \<open>char\<close> is signed where this code runs: it is sign-extended before the exclusive or.\<close>

definition schar :: "char \<Rightarrow> uint32" where
  "schar c = signed (of_char c :: byte)"

definition fnv_32_prime :: uint32 where "fnv_32_prime = 0x01000193"

fun fnv1a_32 :: "string \<Rightarrow> uint32 \<Rightarrow> uint32" where
  "fnv1a_32 [] hval = hval"
| "fnv1a_32 (c # cs) hval = fnv1a_32 cs ((hval XOR schar c) * fnv_32_prime)"

definition get_free_fsid :: "path \<Rightarrow> uint32" where
  "get_free_fsid p = fnv1a_32 p 0 OR 0x80000000"

subsection \<open>Looking up a client\<close>

fun find_host :: "uint32 \<Rightarrow> e_host list \<Rightarrow> e_host option" where
  "find_host remote [] = None"
| "find_host remote (h # hs) =
     (if remote AND h_mask h = h_addr h then Some h else find_host remote hs)"

text \<open>
  The loop of \<open>exports_options\<close> over the export list. \<open>pw\<close> and \<open>fsid\<close> are what the caller's
  out-parameters have been assigned, \<open>None\<close> while they have not.
\<close>

fun exports_options_loop ::
  "path \<Rightarrow> uint32 \<Rightarrow> e_item list \<Rightarrow> nat \<Rightarrow> string option \<Rightarrow> uint32 option \<Rightarrow> ('w, 'z) expo_scheme
   \<Rightarrow> string option \<times> uint32 option \<times> ('w, 'z) expo_scheme" where
  "exports_options_loop p remote [] last_len pw fsid s = (pw, fsid, s)"
| "exports_options_loop p remote (it # its) last_len pw fsid s =
     (if last_len < length (i_path it) \<and> strstr p (i_path it) = Some p
      then (case find_host remote (i_hosts it) of
              None \<Rightarrow> exports_options_loop p remote its last_len pw (Some (i_fsid it)) s
            | Some h \<Rightarrow>
                exports_options_loop p remote its (length (i_path it)) (Some (h_password h))
                  (Some (i_fsid it))
                  (s\<lparr>export_password_hash := h_password_hash h,
                     exports_opts := h_options h,
                     export_path := Some (i_path it),
                     export_fsid := i_fsid it,
                     last_anonuid := h_anonuid h,
                     last_anongid := h_anongid h\<rparr>))
      else exports_options_loop p remote its last_len pw fsid s)"

definition exports_options ::
  "path option \<Rightarrow> svc_req \<Rightarrow> ('w, 'z) expo_scheme
   \<Rightarrow> uint32 \<times> string option \<times> uint32 option \<times> ('w, 'z) expo_scheme" where
  "exports_options po req s =
     (let s = s\<lparr>exports_opts := -1, export_path := None, export_fsid := 0,
                last_anonuid := ANON_NOTSPECIAL, last_anongid := ANON_NOTSPECIAL\<rparr>
      in case po of
           None \<Rightarrow> (exports_opts s, None, None, s)
         | Some p \<Rightarrow>
             if strstr p ''/../'' \<noteq> None then (exports_opts s, None, None, s)
             else (case exports_options_loop p (get_remote req) (export_list s) 0 None None
                          (s\<lparr>exports_access := True\<rparr>) of
                     (pw, fsid, s) \<Rightarrow>
                       (let s = s\<lparr>exports_access := False\<rparr> in (exports_opts s, pw, fsid, s))))"

definition export_point :: "path \<Rightarrow> ('w, 'z) expo_scheme \<Rightarrow> bool" where
  "export_point p s \<longleftrightarrow> (\<exists>it\<in>set (export_list s). p = i_path it)"

definition export_point_from_fsid :: "uint32 \<Rightarrow> ('w, 'z) expo_scheme \<Rightarrow> path option" where
  "export_point_from_fsid fsid s =
     map_option i_path (List.find (\<lambda>it. i_fsid it = fsid) (export_list s))"

definition exports_compat ::
  "path option \<Rightarrow> svc_req \<Rightarrow> ('w, 'z) expo_scheme \<Rightarrow> nfsstat3 \<times> ('w, 'z) expo_scheme" where
  "exports_compat po req s =
     (let prev = exports_opts s; prev_anonuid = last_anonuid s; prev_anongid = last_anongid s;
          (r, _, _, s) = exports_options po req s
      in if r = prev \<and> last_anonuid s = prev_anonuid \<and> last_anongid s = prev_anongid
         then (NFS3_OK, s)
         else if exports_opts s = -1 then (NFS3ERR_ACCES, s)
         else (NFS3ERR_XDEV, s))"

definition exports_rw :: "('w, 'z) expo_scheme \<Rightarrow> nfsstat3" where
  "exports_rw s =
     (if exports_opts s \<noteq> -1 \<and> has_bits (exports_opts s) OPT_RW then NFS3_OK else NFS3ERR_ROFS)"

definition exports_anonuid :: "('w, 'z) expo_scheme \<Rightarrow> uint32" where
  "exports_anonuid s = last_anonuid s"

definition exports_anongid :: "('w, 'z) expo_scheme \<Rightarrow> uint32" where
  "exports_anongid s = last_anongid s"

subsection \<open>Normalising an export path\<close>

fun normpath_slashes :: "string \<Rightarrow> string" where
  "normpath_slashes [] = []"
| "normpath_slashes [c] = [c]"
| "normpath_slashes (c # d # cs) =
     (if c = CHR ''/'' \<and> d = CHR ''/'' then normpath_slashes (d # cs)
      else c # normpath_slashes (d # cs))"

definition normpath :: "string \<Rightarrow> string" where
  "normpath p =
     (let n = normpath_slashes p
      in if 1 < length n \<and> last n = CHR ''/'' then butlast n else n)"

subsection \<open>Properties\<close>

lemma find_host_Some:
  "find_host r hs = Some h \<Longrightarrow> h \<in> set hs \<and> r AND h_mask h = h_addr h"
  by (induction hs) (auto split: if_splits)

text \<open>An export the client may use at the given path.\<close>

definition matching :: "path \<Rightarrow> uint32 \<Rightarrow> e_item \<Rightarrow> bool" where
  "matching p r it \<longleftrightarrow> i_path it \<noteq> [] \<and> prefix (i_path it) p \<and> find_host r (i_hosts it) \<noteq> None"

text \<open>
  The specification of the lookup: the earliest of the longest matching exports, with the
  entry of its host list that matched.
\<close>

fun best_export :: "path \<Rightarrow> uint32 \<Rightarrow> e_item list \<Rightarrow> (e_item \<times> e_host) option" where
  "best_export p r [] = None"
| "best_export p r (it # its) =
     (case best_export p r its of
        None \<Rightarrow> (if matching p r it then Some (it, the (find_host r (i_hosts it))) else None)
      | Some (it', h') \<Rightarrow>
          if matching p r it \<and> length (i_path it') \<le> length (i_path it)
          then Some (it, the (find_host r (i_hosts it))) else Some (it', h'))"

lemma best_export_None_iff: "best_export p r its = None \<longleftrightarrow> (\<forall>it\<in>set its. \<not> matching p r it)"
  by (induction its) (auto split: option.splits)

lemma best_export_SomeD:
  "best_export p r its = Some (it, h) \<Longrightarrow>
     it \<in> set its \<and> matching p r it \<and> find_host r (i_hosts it) = Some h \<and>
     (\<forall>it'\<in>set its. matching p r it' \<longrightarrow> length (i_path it') \<le> length (i_path it))"
proof (induction its arbitrary: it h)
  case Nil
  then show ?case by simp
next
  case (Cons x xs)
  show ?case
  proof (cases "best_export p r xs")
    case None
    then have "\<forall>y\<in>set xs. \<not> matching p r y" by (simp add: best_export_None_iff)
    with Cons.prems None show ?thesis by (auto simp: matching_def split: if_splits)
  next
    case (Some b)
    obtain it' h' where b: "b = (it', h')" by (cases b)
    note IH = Cons.IH [of it' h', unfolded Some b, OF refl]
    from Cons.prems Some b IH show ?thesis
      by (auto simp: matching_def split: if_splits dest: order_trans)
  qed
qed

definition use_export :: "e_item \<times> e_host \<Rightarrow> ('w, 'z) expo_scheme \<Rightarrow> ('w, 'z) expo_scheme" where
  "use_export b s =
     (case b of (it, h) \<Rightarrow>
        s\<lparr>export_password_hash := h_password_hash h, exports_opts := h_options h,
          export_path := Some (i_path it), export_fsid := i_fsid it,
          last_anonuid := h_anonuid h, last_anongid := h_anongid h\<rparr>)"

lemma use_export_use_export [simp]: "use_export b (use_export b' s) = use_export b s"
  by (simp add: use_export_def split: prod.splits)

lemma strstr_start [simp]: "strstr p q = Some p \<longleftrightarrow> prefix q p"
  by (rule strstr_eq_start_iff)

text \<open>
  The loop refines the specification: from \<open>last_len\<close> on it takes the best export of the rest
  of the list, if that one is strictly longer.
\<close>

lemma exports_options_loop_spec:
  "\<exists>pw' fsid'. exports_options_loop p r its n pw fsid s =
     (pw', fsid',
      (case best_export p r its of
         None \<Rightarrow> s
       | Some b \<Rightarrow> if n < length (i_path (fst b)) then use_export b s else s))
   \<and> (case best_export p r its of
         None \<Rightarrow> pw' = pw
       | Some b \<Rightarrow> pw' = (if n < length (i_path (fst b)) then Some (h_password (snd b)) else pw))"
proof (induction its arbitrary: n pw fsid s)
  case Nil
  then show ?case by simp
next
  case (Cons it its)
  let ?take = "n < length (i_path it) \<and> prefix (i_path it) p"
  show ?case
  proof (cases ?take)
    case False
    then have "matching p r it \<longrightarrow> length (i_path it) \<le> n"
      by (auto simp: matching_def)
    with False Cons.IH [of n pw fsid s] show ?thesis
      by (auto split: option.splits if_splits)
  next
    case True
    show ?thesis
    proof (cases "find_host r (i_hosts it)")
      case None
      then have "\<not> matching p r it" by (simp add: matching_def)
      with None True Cons.IH [of n pw "Some (i_fsid it)" s] show ?thesis
        by (auto split: option.splits)
    next
      case (Some h)
      then have m: "matching p r it" using True by (auto simp: matching_def)
      let ?s = "use_export (it, h) s"
      have "exports_options_loop p r (it # its) n pw fsid s =
        exports_options_loop p r its (length (i_path it)) (Some (h_password h))
          (Some (i_fsid it)) ?s"
        using True Some by (simp add: use_export_def)
      with Cons.IH [of "length (i_path it)" "Some (h_password h)" "Some (i_fsid it)" ?s] m Some True
      show ?thesis by (auto split: option.splits)
    qed
  qed
qed

text \<open>
  The whole lookup: a path with a parent step, or one that no export covers, is refused;
  otherwise the best export decides.
\<close>

definition reset_export :: "('w, 'z) expo_scheme \<Rightarrow> ('w, 'z) expo_scheme" where
  "reset_export s =
     s\<lparr>exports_opts := -1, export_path := None, export_fsid := 0,
       last_anonuid := ANON_NOTSPECIAL, last_anongid := ANON_NOTSPECIAL\<rparr>"

lemma exports_options_dotdot:
  "sublist ''/../'' p \<Longrightarrow> exports_options (Some p) req s = (-1, None, None, reset_export s)"
  using strstr_None_iff [of p "''/../''"] by (auto simp: exports_options_def Let_def reset_export_def)

lemma exports_options_best:
  assumes "\<not> sublist ''/../'' p"
  obtains fsid where "exports_options (Some p) req s =
    (case best_export p (get_remote req) (export_list s) of
       None \<Rightarrow> (-1, None, fsid, (reset_export s)\<lparr>exports_access := False\<rparr>)
     | Some (it, h) \<Rightarrow>
         (h_options h, Some (h_password h), fsid,
          (use_export (it, h) (reset_export s))\<lparr>exports_access := False\<rparr>))"
proof -
  let ?s = "(reset_export s)\<lparr>exports_access := True\<rparr>"
  have nodd: "strstr p ''/../'' = None" using assms by (simp add: strstr_None_iff)
  obtain pw fsid where loop: "exports_options_loop p (get_remote req) (export_list s) 0 None None ?s =
      (pw, fsid, case best_export p (get_remote req) (export_list s) of
         None \<Rightarrow> ?s | Some b \<Rightarrow> if 0 < length (i_path (fst b)) then use_export b ?s else ?s)"
    and pw: "case best_export p (get_remote req) (export_list s) of
         None \<Rightarrow> pw = None
       | Some b \<Rightarrow> pw = (if 0 < length (i_path (fst b)) then Some (h_password (snd b)) else None)"
    using exports_options_loop_spec [of p "get_remote req" "export_list s" 0 None None ?s] by blast
  have ne: "0 < length (i_path (fst b))" if "best_export p (get_remote req) (export_list s) = Some b" for b
    using best_export_SomeD [of p "get_remote req" "export_list s" "fst b" "snd b"] that
    by (auto simp: matching_def)
  show thesis
  proof (rule that [of fsid], cases "best_export p (get_remote req) (export_list s)")
    case None
    with loop pw nodd show "exports_options (Some p) req s = (case best_export p (get_remote req) (export_list s) of
       None \<Rightarrow> (-1, None, fsid, (reset_export s)\<lparr>exports_access := False\<rparr>)
     | Some (it, h) \<Rightarrow> (h_options h, Some (h_password h), fsid,
          (use_export (it, h) (reset_export s))\<lparr>exports_access := False\<rparr>))"
      by (simp add: exports_options_def Let_def reset_export_def)
  next
    case (Some b)
    with loop pw nodd ne [OF Some]
    show "exports_options (Some p) req s = (case best_export p (get_remote req) (export_list s) of
       None \<Rightarrow> (-1, None, fsid, (reset_export s)\<lparr>exports_access := False\<rparr>)
     | Some (it, h) \<Rightarrow> (h_options h, Some (h_password h), fsid,
          (use_export (it, h) (reset_export s))\<lparr>exports_access := False\<rparr>))"
      by (auto simp: exports_options_def Let_def reset_export_def use_export_def split: prod.splits)
  qed
qed

text \<open>What an accepted lookup leaves behind.\<close>

lemma exports_options_accepted:
  assumes "exports_options (Some p) req s = (r, pw, fsid, s')" and "r \<noteq> -1"
  obtains it h where "best_export p (get_remote req) (export_list s) = Some (it, h)"
    "\<not> sublist ''/../'' p" "pw = Some (h_password h)" "r = h_options h"
    "exports_opts s' = h_options h" "export_password_hash s' = h_password_hash h"
    "export_path s' = Some (i_path it)" "expo.more s' = expo.more s"
proof -
  have nd: "\<not> sublist ''/../'' p"
    using assms exports_options_dotdot [of p req s] by auto
  obtain fsid' where "exports_options (Some p) req s =
    (case best_export p (get_remote req) (export_list s) of
       None \<Rightarrow> (-1, None, fsid', (reset_export s)\<lparr>exports_access := False\<rparr>)
     | Some (it, h) \<Rightarrow> (h_options h, Some (h_password h), fsid',
          (use_export (it, h) (reset_export s))\<lparr>exports_access := False\<rparr>))"
    using exports_options_best [OF nd] by blast
  with assms nd show thesis
    by (cases "best_export p (get_remote req) (export_list s)")
      (auto simp: use_export_def reset_export_def intro: that)
qed

subsection \<open>Properties of the lookup\<close>

text \<open>
  C5: the lookup of a client's export refines its specification: a path with a parent step is
  refused, and otherwise the longest export that covers the path and lists the client decides, the
  earliest of several; with none the lookup is refused and no option of an earlier request stays.
\<close>

theorem exports_options_refines:
  "\<exists>fsid. exports_options (Some p) req s =
     (if sublist ''/../'' p then (-1, None, None, reset_export s)
      else case best_export p (get_remote req) (export_list s) of
             None \<Rightarrow> (-1, None, fsid, (reset_export s)\<lparr>exports_access := False\<rparr>)
           | Some (it, h) \<Rightarrow>
               (h_options h, Some (h_password h), fsid,
                (use_export (it, h) (reset_export s))\<lparr>exports_access := False\<rparr>))"
proof (cases "sublist ''/../'' p")
  case True
  then show ?thesis by (simp add: exports_options_dotdot)
next
  case False
  show ?thesis
    unfolding if_not_P [OF False] by (rule exports_options_best [OF False, of req s]) (rule exI)
qed

text \<open>
  A lookup that selects an export selects one of the table that is a prefix of the path, by a
  host entry whose network contains the client, and no longer export would serve the client; the
  options, the password and the password hash are those of that host entry.
\<close>

lemma exports_options_grants:
  assumes eq: "exports_options (Some p) req s = (opts, pw, fsid, s')" and path: "export_path s' = Some e"
  shows "\<not> sublist ''/../'' p \<and> prefix e p \<and>
    (\<exists>it\<in>set (export_list s). \<exists>h\<in>set (i_hosts it).
       i_path it = e \<and> get_remote req AND h_mask h = h_addr h \<and>
       opts = h_options h \<and> exports_opts s' = opts \<and> pw = Some (h_password h) \<and>
       export_password_hash s' = h_password_hash h \<and>
       (\<forall>it'\<in>set (export_list s). matching p (get_remote req) it' \<longrightarrow> length (i_path it') \<le> length e))"
proof -
  have nd: "\<not> sublist ''/../'' p"
    using eq path exports_options_dotdot [of p req s] by (auto simp: reset_export_def)
  obtain fsid' where e: "exports_options (Some p) req s =
    (case best_export p (get_remote req) (export_list s) of
       None \<Rightarrow> (-1, None, fsid', (reset_export s)\<lparr>exports_access := False\<rparr>)
     | Some (it, h) \<Rightarrow> (h_options h, Some (h_password h), fsid',
          (use_export (it, h) (reset_export s))\<lparr>exports_access := False\<rparr>))"
    using exports_options_best [OF nd] by blast
  with eq path obtain it h where b: "best_export p (get_remote req) (export_list s) = Some (it, h)"
    by (auto simp: reset_export_def split: option.splits)
  note it = best_export_SomeD [OF b]
  then have "h \<in> set (i_hosts it) \<and> get_remote req AND h_mask h = h_addr h"
    by (intro find_host_Some) simp
  with it b e eq path nd show ?thesis
    by (auto simp: use_export_def matching_def)
qed

end
