(* ===== verification/User.thy ===== *)
theory User
  imports Exports
begin

text \<open>
  \<open>user.c\<close>: squashing of user and group ids according to the export options, and the switch of
  the process's effective ids to those of the request. \<open>switch_user\<close> exits the daemon where a
  switch fails; the result \<open>None\<close> is that exit. It also rewrites the request's group list in
  place, so it returns the request.
\<close>

record 'w usr = "'w expo" +
  squash_uid :: uint32
  squash_gid :: uint32
  can_switch :: bool

definition get_squash_ids :: "'w os \<Rightarrow> ('w, 'z) usr_scheme \<Rightarrow> ('w, 'z) usr_scheme" where
  "get_squash_ids os s =
     (if can_switch s
      then (case backend_getpwnam os ''nobody'' s of
              (Some pw, s) \<Rightarrow> s\<lparr>squash_uid := pw_uid pw, squash_gid := pw_gid pw\<rparr>
            | (None, s) \<Rightarrow> s\<lparr>squash_uid := 65534, squash_gid := 65534\<rparr>)
      else s)"

definition mangle :: "uint32 \<Rightarrow> uint32 \<Rightarrow> ('w, 'z) usr_scheme \<Rightarrow> uint32" where
  "mangle i squash s =
     (if \<not> can_switch s \<or> has_bits (exports_opts s) OPT_ALL_SQUASH then squash
      else if has_bits (exports_opts s) OPT_NO_ROOT_SQUASH then i
      else if i = 0 then squash
      else i)"

definition uid_squash :: "('w, 'z) usr_scheme \<Rightarrow> uint32" where
  "uid_squash s =
     (if exports_anonuid s \<noteq> ANON_NOTSPECIAL then exports_anonuid s else squash_uid s)"

definition gid_squash :: "('w, 'z) usr_scheme \<Rightarrow> uint32" where
  "gid_squash s =
     (if exports_anongid s \<noteq> ANON_NOTSPECIAL then exports_anongid s else squash_gid s)"

definition mangle_uid :: "uint32 \<Rightarrow> ('w, 'z) usr_scheme \<Rightarrow> uint32" where
  "mangle_uid i s = mangle i (uid_squash s) s"

definition mangle_gid :: "uint32 \<Rightarrow> ('w, 'z) usr_scheme \<Rightarrow> uint32" where
  "mangle_gid i s = mangle i (gid_squash s) s"

definition get_uid :: "svc_req \<Rightarrow> ('w, 'z) usr_scheme \<Rightarrow> uint32" where
  "get_uid req s =
     (if oa_flavor req = AUTH_UNIX then mangle (aup_uid (rq_clntcred req)) (uid_squash s) s
      else uid_squash s)"

definition get_gid :: "svc_req \<Rightarrow> ('w, 'z) usr_scheme \<Rightarrow> uint32" where
  "get_gid req s =
     (if oa_flavor req = AUTH_UNIX then mangle (aup_gid (rq_clntcred req)) (gid_squash s) s
      else gid_squash s)"

definition is_owner :: "uint32 \<Rightarrow> svc_req \<Rightarrow> ('w, 'z) usr_scheme \<Rightarrow> bool" where
  "is_owner owner req s \<longleftrightarrow> owner = get_uid req s"

definition has_group :: "uint32 \<Rightarrow> svc_req \<Rightarrow> ('w, 'z) usr_scheme \<Rightarrow> bool" where
  "has_group gr req s \<longleftrightarrow>
     oa_flavor req = AUTH_UNIX \<and>
     (mangle (aup_gid (rq_clntcred req)) (squash_gid s) s = gr \<or>
      (\<exists>g\<in>set (aup_gids (rq_clntcred req)). mangle g (squash_gid s) s = gr))"

subsection \<open>Switching the effective ids\<close>

definition to_root_ids :: "('w, 'z) usr_scheme \<Rightarrow> ('w, 'z) usr_scheme" where
  "to_root_ids s = (let (_, s) = backend_setegid 0 s; (_, s) = backend_seteuid 0 s in s)"

definition switch_to_root :: "('w, 'z) usr_scheme \<Rightarrow> ('w, 'z) usr_scheme" where
  "switch_to_root s = (if \<not> can_switch s then s else to_root_ids s)"

definition switch_groups ::
  "svc_req \<Rightarrow> ('w, 'z) usr_scheme \<Rightarrow> int \<times> svc_req \<times> ('w, 'z) usr_scheme" where
  "switch_groups req s =
     (let auth = rq_clntcred req;
          gids = map (\<lambda>g. mangle g (squash_gid s) s) (take 32 (aup_gids auth));
          auth = auth\<lparr>aup_gids := gids @ drop 32 (aup_gids auth)\<rparr>;
          (r, s) = backend_setgroups gids s
      in (r, req\<lparr>rq_clntcred := auth\<rparr>, s))"

definition switch_user ::
  "svc_req \<Rightarrow> ('w, 'z) usr_scheme \<Rightarrow> svc_req option \<times> ('w, 'z) usr_scheme" where
  "switch_user req s =
     (if \<not> can_switch s then (Some req, s)
      else if opt_singleuser s \<or> ruid (cred s) \<noteq> 0
      then (Some req, s\<lparr>squash_uid := ruid (cred s), squash_gid := rgid (cred s),
                        can_switch := False\<rparr>)
      else
        (let s = to_root_ids s;
             (gid, s) = backend_setegid (get_gid req s) s;
             (aid, req, s) = switch_groups req s;
             (uid, s) = backend_seteuid (get_uid req s) s
         in if uid = -1 \<or> gid = -1 \<or> aid = -1 then (None, s) else (Some req, s)))"

subsection \<open>Switching back for reading and writing\<close>

definition read_executable :: "svc_req \<Rightarrow> stat \<Rightarrow> ('w, 'z) usr_scheme \<Rightarrow> ('w, 'z) usr_scheme" where
  "read_executable req buf s =
     (let m = st_mode buf;
          have_exec =
            (if is_owner (st_uid buf) req s then \<not> has_bits m S_IRUSR \<and> has_bits m S_IXUSR
             else if has_group (st_gid buf) req s then \<not> has_bits m S_IRGRP \<and> has_bits m S_IXGRP
             else \<not> has_bits m S_IROTH \<and> has_bits m S_IXOTH)
      in if have_exec then to_root_ids s else s)"

definition read_by_owner :: "svc_req \<Rightarrow> stat \<Rightarrow> ('w, 'z) usr_scheme \<Rightarrow> ('w, 'z) usr_scheme" where
  "read_by_owner req buf s =
     (let m = st_mode buf;
          have_owner = is_owner (st_uid buf) req s;
          have_read = (have_owner \<and> has_bits m S_IRUSR
                       \<or> has_group (st_gid buf) req s \<and> has_bits m S_IRGRP
                       \<or> has_bits m S_IROTH)
      in if have_owner \<and> \<not> have_read then to_root_ids s else s)"

definition write_by_owner :: "svc_req \<Rightarrow> stat \<Rightarrow> ('w, 'z) usr_scheme \<Rightarrow> ('w, 'z) usr_scheme" where
  "write_by_owner req buf s =
     (let m = st_mode buf;
          have_owner = is_owner (st_uid buf) req s;
          have_write = (have_owner \<and> has_bits m S_IWUSR
                        \<or> has_group (st_gid buf) req s \<and> has_bits m S_IWGRP
                        \<or> has_bits m S_IWOTH)
      in if have_owner \<and> \<not> have_write then to_root_ids s else s)"

subsection \<open>Squashing\<close>

lemma mangle_idem [simp]: "mangle (mangle i q s) q s = mangle i q s"
  by (simp add: mangle_def)

lemma mangle_cases: "mangle i q s = q \<or> mangle i q s = i"
  by (simp add: mangle_def)

lemma mangle_cong:
  assumes "can_switch s' = can_switch s" "exports_opts s' = exports_opts s"
  shows "mangle i q s' = mangle i q s"
  using assms by (simp add: mangle_def)

lemma mangle_nonroot:
  assumes "q \<noteq> 0" and "\<not> can_switch s \<or> has_bits (exports_opts s) OPT_ALL_SQUASH
    \<or> \<not> has_bits (exports_opts s) OPT_NO_ROOT_SQUASH"
  shows "mangle i q s \<noteq> 0"
  using assms by (auto simp: mangle_def)

text \<open>None of the switches touches anything but the credentials and the error number.\<close>

definition cred_only :: "('w, 'z) sys_scheme \<Rightarrow> ('w, 'z) sys_scheme \<Rightarrow> bool" where
  "cred_only s s' \<longleftrightarrow> s' = s\<lparr>errno := errno s', cred := cred s'\<rparr>"

lemma cred_only_refl [simp, intro]: "cred_only s s"
  by (simp add: cred_only_def)

lemma cred_only_trans [trans]: "cred_only s s' \<Longrightarrow> cred_only s' s'' \<Longrightarrow> cred_only s s''"
proof -
  assume a: "cred_only s s'" and b: "cred_only s' s''"
  from b have "s'' = s'\<lparr>errno := errno s'', cred := cred s''\<rparr>" by (simp add: cred_only_def)
  moreover from a have "s' = s\<lparr>errno := errno s', cred := cred s'\<rparr>" by (simp add: cred_only_def)
  ultimately have "s'' = s\<lparr>errno := errno s', cred := cred s'\<rparr>\<lparr>errno := errno s'', cred := cred s''\<rparr>"
    by metis
  then show ?thesis by (simp add: cred_only_def)
qed

lemma set_cred_only [sys_frame]: "set_cred c s = (r, s') \<Longrightarrow> cred_only s s'"
  by (auto simp: set_cred_def cred_only_def split: option.splits)

lemma to_root_ids_only [sys_frame]: "cred_only s (to_root_ids s)"
  by (auto simp: to_root_ids_def backend_setegid_def backend_seteuid_def Let_def
      split: prod.splits intro: cred_only_trans dest!: set_cred_only)

lemma cred_onlyE:
  assumes "cred_only s s'"
  obtains e c where "s' = s\<lparr>errno := e, cred := c\<rparr>"
  using assms by (auto simp: cred_only_def)

lemma switch_to_root_only [sys_frame]: "cred_only s (switch_to_root s)"
  by (simp add: switch_to_root_def to_root_ids_only)

lemma read_executable_only [sys_frame]: "cred_only s (read_executable req buf s)"
  by (simp add: read_executable_def Let_def to_root_ids_only)

lemma read_by_owner_only [sys_frame]: "cred_only s (read_by_owner req buf s)"
  by (simp add: read_by_owner_def Let_def to_root_ids_only)

lemma write_by_owner_only [sys_frame]: "cred_only s (write_by_owner req buf s)"
  by (simp add: write_by_owner_def Let_def to_root_ids_only)

subsection \<open>A daemon started by root\<close>

text \<open>The ids of a process that root started and that may have switched its effective ids.\<close>

definition root_daemon :: "('w, 'z) usr_scheme \<Rightarrow> bool" where
  "root_daemon s \<longleftrightarrow>
     ruid (cred s) = 0 \<and> suid (cred s) = 0 \<and> rgid (cred s) = 0 \<and> sgid (cred s) = 0"

lemma to_root_ids_root:
  assumes "root_daemon s"
  shows "to_root_ids s = s\<lparr>cred := (cred s)\<lparr>egid := 0, euid := 0\<rparr>\<rparr>"
  using assms
  by (simp add: root_daemon_def to_root_ids_def backend_setegid_def backend_seteuid_def
      posix_setegid_def posix_seteuid_def set_cred_def Let_def)

lemma switch_groups_root:
  assumes "euid (cred s) = 0"
  shows "switch_groups req s =
     (0, req\<lparr>rq_clntcred := (rq_clntcred req)\<lparr>aup_gids :=
          map (\<lambda>g. mangle g (squash_gid s) s) (take 32 (aup_gids (rq_clntcred req)))
          @ drop 32 (aup_gids (rq_clntcred req))\<rparr>\<rparr>,
      s\<lparr>cred := (cred s)\<lparr>groups :=
          map (\<lambda>g. mangle g (squash_gid s) s) (take 32 (aup_gids (rq_clntcred req)))\<rparr>\<rparr>)"
  using assms
  by (simp add: switch_groups_def backend_setgroups_def posix_setgroups_def set_cred_def Let_def)

lemma mangle_cred [simp]: "mangle i q (s\<lparr>cred := c\<rparr>) = mangle i q s"
  by (simp add: mangle_def)

lemma get_uid_cred [simp]: "get_uid req (s\<lparr>cred := c\<rparr>) = get_uid req s"
  by (simp add: get_uid_def uid_squash_def exports_anonuid_def)

lemma get_gid_cred [simp]: "get_gid req (s\<lparr>cred := c\<rparr>) = get_gid req s"
  by (simp add: get_gid_def gid_squash_def exports_anongid_def)

lemma get_uid_gids [simp]:
  "get_uid (req\<lparr>rq_clntcred := (rq_clntcred req)\<lparr>aup_gids := gs\<rparr>\<rparr>) s = get_uid req s"
  by (simp add: get_uid_def)

text \<open>The switch of a daemon that root started, in one equation.\<close>

lemma switch_user_root:
  assumes root: "root_daemon s" and switch: "can_switch s" "\<not> opt_singleuser s"
  shows "switch_user req s =
    (Some (req\<lparr>rq_clntcred := (rq_clntcred req)\<lparr>aup_gids :=
        map (\<lambda>g. mangle g (squash_gid s) s) (take 32 (aup_gids (rq_clntcred req)))
        @ drop 32 (aup_gids (rq_clntcred req))\<rparr>\<rparr>),
     s\<lparr>cred := (cred s)\<lparr>euid := get_uid req s, egid := get_gid req s,
        groups := map (\<lambda>g. mangle g (squash_gid s) s) (take 32 (aup_gids (rq_clntcred req)))\<rparr>\<rparr>)"
proof -
  have r: "ruid (cred s) = 0" using root by (simp add: root_daemon_def)
  show ?thesis
    using root switch
    by (simp add: switch_user_def to_root_ids_root r backend_setegid_def backend_seteuid_def
        posix_setegid_def posix_seteuid_def set_cred_def Let_def switch_groups_root)
qed

lemma get_ids_nonroot:
  assumes "\<not> has_bits (exports_opts s) OPT_NO_ROOT_SQUASH"
  shows "uid_squash s \<noteq> 0 \<Longrightarrow> get_uid req s \<noteq> 0" "gid_squash s \<noteq> 0 \<Longrightarrow> get_gid req s \<noteq> 0"
  using assms by (simp_all add: get_uid_def get_gid_def mangle_nonroot)

lemma switch_user_exports:
  assumes "switch_user req s = (r, s')"
  shows "exports_opts s' = exports_opts s" "export_path s' = export_path s"
    "export_list s' = export_list s"
  using assms
  by (auto simp: switch_user_def switch_groups_def to_root_ids_def backend_setegid_def backend_seteuid_def
      backend_setgroups_def set_cred_def Let_def split: if_splits option.splits prod.splits)

subsection \<open>Properties of the switch\<close>



end
