(* ===== verification/Fh.thy ===== *)
theory Fh
  imports User
begin

text \<open>
  \<open>fh.c\<close>: the file handles the server hands out. A handle names an object by device, inode and
  generation, carries the hash of the export's password, and an eight bit hash of the inode of
  every component of the path, by which the path can be searched again from the root.

  The handles travel as byte strings; the sources cast the bytes to the packed struct
  \<open>unfs3_fh_t\<close>, which is \<open>fh_cast\<close> here. The uninitialised part of a struct on the stack is the
  argument \<open>junk\<close> where a later read of it is possible.
\<close>

definition FH_MINLEN :: nat where "FH_MINLEN = 21"
definition FH_MAXLEN :: nat where "FH_MAXLEN = NFS3_FHSIZE - FH_MINLEN"

lemma FH_MAXLEN_val [simp]: "FH_MAXLEN = 43"
  by (simp add: FH_MAXLEN_def NFS3_FHSIZE_def FH_MINLEN_def)

text \<open>The field \<open>len\<close> is the length of \<open>fh_inos\<close>; array elements beyond it are never sent.\<close>

record unfs3_fh =
  fh_dev :: uint32
  fh_ino :: uint64
  fh_gen :: uint32
  fh_pwhash :: uint32
  fh_inos :: "byte list"

record 'w fhs = "'w usr" +
  st_cache_valid :: bool
  st_cache :: stat

subsection \<open>Representation\<close>

definition fh_bytes :: "unfs3_fh \<Rightarrow> nfs_fh3" where
  "fh_bytes fh =
     bytes_le 4 (fh_dev fh) @ bytes_le 8 (fh_ino fh) @ bytes_le 4 (fh_gen fh) @
     bytes_le 4 (fh_pwhash fh) @ [of_nat (length (fh_inos fh))] @ fh_inos fh"

definition fh_cast :: "nfs_fh3 \<Rightarrow> unfs3_fh" where
  "fh_cast bs =
     \<lparr>fh_dev = word_le (take 4 bs),
      fh_ino = word_le (take 8 (drop 4 bs)),
      fh_gen = word_le (take 4 (drop 12 bs)),
      fh_pwhash = word_le (take 4 (drop 16 bs)),
      fh_inos = take (unat (bs ! 20)) (drop 21 bs)\<rparr>"

text \<open>
  The length of a handle, with \<open>sizeof(uint32)\<close> as a parameter: the struct has three members
  of that type.
\<close>

definition fh_length_of :: "nat \<Rightarrow> nat \<Rightarrow> nat" where
  "fh_length_of sizeof_uint32 len = len + 1 + sizeof_uint32 + 8 + sizeof_uint32 + sizeof_uint32"

definition fh_length :: "unfs3_fh \<Rightarrow> nat" where
  "fh_length fh = fh_length_of 4 (length (fh_inos fh))"

definition nfh_valid :: "nfs_fh3 \<Rightarrow> bool" where
  "nfh_valid bs \<longleftrightarrow>
     (if length bs < FH_MINLEN then False
      else if length bs \<noteq> fh_length_of 4 (unat (bs ! 20)) then False
      else True)"

definition fh_valid :: "unfs3_fh \<Rightarrow> bool" where
  "fh_valid fh \<longleftrightarrow> fh_dev fh \<noteq> 0 \<or> fh_ino fh \<noteq> 0"

definition invalid_fh :: unfs3_fh where
  "invalid_fh = \<lparr>fh_dev = 0, fh_ino = 0, fh_gen = 0, fh_pwhash = 0, fh_inos = []\<rparr>"

text \<open>The configuration has neither \<open>st_gen\<close> nor the ext2 ioctl: the inode number stands in.\<close>

definition get_gen :: "stat \<Rightarrow> uint32" where
  "get_gen buf = ucast (st_ino buf)"

definition FH_HASH :: "uint64 \<Rightarrow> byte" where
  "FH_HASH n =
     ucast ((n XOR drop_bit 8 n XOR drop_bit 16 n XOR drop_bit 24 n XOR drop_bit 32 n XOR
             drop_bit 40 n XOR drop_bit 48 n XOR drop_bit 56 n) AND 0xFF)"

subsection \<open>Composition\<close>

text \<open>
  The loop over the path: \<open>pre\<close> is the part of \<open>work\<close> up to and including the slash at
  \<open>last\<close>, \<open>rest\<close> what follows it.
\<close>

function fh_comp_loop ::
  "'w os \<Rightarrow> string \<Rightarrow> string \<Rightarrow> byte list \<Rightarrow> ('w, 'z) fhs_scheme
   \<Rightarrow> byte list option \<times> ('w, 'z) fhs_scheme" where
  "fh_comp_loop os pre rest inos s =
     (let comp = takeWhile (\<lambda>c. c \<noteq> CHR ''/'') rest;
          after = dropWhile (\<lambda>c. c \<noteq> CHR ''/'') rest
      in case backend_lstat os (pre @ comp) s of
           (None, s) \<Rightarrow> (None, s)
         | (Some buf, s) \<Rightarrow>
             let inos = inos @ [FH_HASH (st_ino buf)]
             in if after = [] then (Some inos, s)
                else if length inos < FH_MAXLEN
                then fh_comp_loop os (pre @ comp @ ''/'') (tl after) inos s
                else (None, s))"
  by pat_completeness auto
termination
  by (relation "measure (\<lambda>(os, pre, rest, inos, s). length rest)")
    (simp_all add: length_tl_dropWhile_less del: dropWhile_eq_Nil_conv length_tl)

declare fh_comp_loop.simps [simp del]

definition fh_comp_raw ::
  "'w os \<Rightarrow> path \<Rightarrow> svc_req option \<Rightarrow> bool \<Rightarrow> ('w, 'z) fhs_scheme
   \<Rightarrow> unfs3_fh \<times> ('w, 'z) fhs_scheme" where
  "fh_comp_raw os p rqstp need_dir s =
     (let plain = (\<lambda>s.
            case backend_lstat os p s of
              (None, s) \<Rightarrow> (invalid_fh, s)
            | (Some buf, s) \<Rightarrow>
                if need_dir \<and> \<not> S_ISDIR (st_mode buf) then (invalid_fh, s)
                else
                  (let fh = \<lparr>fh_dev = ucast (st_dev buf), fh_ino = st_ino buf,
                             fh_gen = get_gen buf, fh_pwhash = 0, fh_inos = []\<rparr>
                   in if p = ''/'' then (fh, s)
                      else (case fh_comp_loop os ''/'' (tl p) [] s of
                              (None, s) \<Rightarrow> (invalid_fh, s)
                            | (Some inos, s) \<Rightarrow> (fh\<lparr>fh_inos := inos\<rparr>, s))))
      in case rqstp of
           None \<Rightarrow> plain s
         | Some req \<Rightarrow>
             if export_point p s
             then (case exports_options (Some p) req s of
                     (r, _, fsid, s) \<Rightarrow>
                       if r = -1 then (invalid_fh, s)
                       else if has_bits (exports_opts s) OPT_REMOVABLE
                       then (\<lparr>fh_dev = (case fsid of Some f \<Rightarrow> f | None \<Rightarrow> 0), fh_ino = 1,
                              fh_gen = 0, fh_pwhash = 0, fh_inos = []\<rparr>, s)
                       else plain s)
             else plain s)"

definition fh_extend ::
  "'w os \<Rightarrow> nfs_fh3 \<Rightarrow> uint32 \<Rightarrow> uint64 \<Rightarrow> uint32 \<Rightarrow> ('w, 'z) fhs_scheme
   \<Rightarrow> unfs3_fh option \<times> ('w, 'z) fhs_scheme" where
  "fh_extend os nfh dev ino gen s =
     (let finish = (\<lambda>new s.
            if length (fh_inos new) = FH_MAXLEN then (None, s)
            else (Some (new\<lparr>fh_dev := dev, fh_ino := ino, fh_gen := gen,
                            fh_pwhash := export_password_hash s,
                            fh_inos := fh_inos new @ [FH_HASH ino]\<rparr>), s));
          new = fh_cast nfh
      in if fh_inos new = []
         then (case export_point_from_fsid (fh_dev new) s of
                 None \<Rightarrow> finish new s
               | Some p \<Rightarrow>
                   (case fh_comp_raw os p None False s of
                      (new, s) \<Rightarrow> if \<not> fh_valid new then (None, s) else finish new s))
         else finish new s)"

definition fh_extend_post ::
  "'w os \<Rightarrow> nfs_fh3 \<Rightarrow> uint32 \<Rightarrow> uint64 \<Rightarrow> uint32 \<Rightarrow> ('w, 'z) fhs_scheme
   \<Rightarrow> nfs_fh3 option \<times> ('w, 'z) fhs_scheme" where
  "fh_extend_post os fh dev ino gen s =
     (case fh_extend os fh dev ino gen s of (new, s) \<Rightarrow> (map_option fh_bytes new, s))"

definition fh_extend_type ::
  "'w os \<Rightarrow> nfs_fh3 \<Rightarrow> path \<Rightarrow> uint32 \<Rightarrow> ('w, 'z) fhs_scheme
   \<Rightarrow> nfs_fh3 option \<times> ('w, 'z) fhs_scheme" where
  "fh_extend_type os fh p type s =
     (case backend_lstat os p s of
        (None, s) \<Rightarrow> (None, s\<lparr>st_cache_valid := False\<rparr>)
      | (Some buf, s) \<Rightarrow>
          if st_mode buf AND type \<noteq> type then (None, s\<lparr>st_cache_valid := False\<rparr>)
          else fh_extend_post os fh (ucast (st_dev buf)) (st_ino buf) (get_gen buf)
                 (s\<lparr>st_cache_valid := True, st_cache := buf\<rparr>))"

subsection \<open>Resolution\<close>

text \<open>
  \<open>fh_rec\<close> descends along the hashes that are left; \<open>fh_rec_loop\<close> is its loop over the
  directory stream, with \<open>buf\<close> the stat buffer as the previous round left it.
\<close>

function (sequential) fh_rec ::
  "'w os \<Rightarrow> stat \<Rightarrow> unfs3_fh \<Rightarrow> byte list \<Rightarrow> string \<Rightarrow> ('w, 'z) fhs_scheme
   \<Rightarrow> path option \<times> ('w, 'z) fhs_scheme"
and fh_rec_loop ::
  "'w os \<Rightarrow> stat \<Rightarrow> unfs3_fh \<Rightarrow> byte \<Rightarrow> byte list \<Rightarrow> string \<Rightarrow> string list \<Rightarrow> stat
   \<Rightarrow> ('w, 'z) fhs_scheme \<Rightarrow> path option \<times> ('w, 'z) fhs_scheme" where
  "fh_rec os junk fh [] lead s = (None, s)"
| "fh_rec os junk fh (h # hs) lead s =
     (case backend_opendir os lead s of
        (None, s) \<Rightarrow> (None, s)
      | (Some ents, s) \<Rightarrow> fh_rec_loop os junk fh h hs lead ents junk s)"
| "fh_rec_loop os junk fh h hs lead [] buf s = (None, s)"
| "fh_rec_loop os junk fh h hs lead (n # ents) buf s =
     (if length lead + length n + 1 < NFS_MAXPATHLEN
      then (let obj = lead @ ''/'' @ n; (r, s) = backend_lstat os obj s;
                buf = (case r of None \<Rightarrow> buf\<lparr>st_dev := 0, st_ino := 0\<rparr> | Some b \<Rightarrow> b)
            in if st_dev buf = ucast (fh_dev fh) \<and> st_ino buf = fh_ino fh
               then (Some (tl lead @ ''/'' @ n), s\<lparr>st_cache_valid := True, st_cache := buf\<rparr>)
               else if n \<noteq> ''..'' \<and> n \<noteq> ''.'' \<and> FH_HASH (st_ino buf) = h
               then (case fh_rec os junk fh hs obj s of
                       (Some p, s) \<Rightarrow> (Some p, s)
                     | (None, s) \<Rightarrow> fh_rec_loop os junk fh h hs lead ents buf s)
               else fh_rec_loop os junk fh h hs lead ents buf s)
      else fh_rec_loop os junk fh h hs lead ents buf s)"
  by pat_completeness auto
termination
  by (relation "measures [\<lambda>x. case x of Inl (os, junk, fh, hs, lead, s) \<Rightarrow> length hs
                             | Inr (os, junk, fh, h, hs, lead, ents, buf, s) \<Rightarrow> Suc (length hs),
                           \<lambda>x. case x of Inl _ \<Rightarrow> 1 | Inr _ \<Rightarrow> 0,
                           \<lambda>x. case x of Inl _ \<Rightarrow> 0
                             | Inr (os, junk, fh, h, hs, lead, ents, buf, s) \<Rightarrow> length ents]") auto

definition fh_decomp_raw ::
  "'w os \<Rightarrow> stat \<Rightarrow> unfs3_fh \<Rightarrow> ('w, 'z) fhs_scheme \<Rightarrow> path option \<times> ('w, 'z) fhs_scheme" where
  "fh_decomp_raw os junk fh s =
     (if fh_inos fh = [] then (Some ''/'', s) else fh_rec os junk fh (fh_inos fh) ''/'' s)"

subsection \<open>Handles as byte strings\<close>

lemma length_fh_bytes: "length (fh_bytes fh) = fh_length fh"
  by (simp add: fh_bytes_def fh_length_def fh_length_of_def)

lemma fh_bytes_len_byte: "fh_bytes fh ! 20 = of_nat (length (fh_inos fh))"
  by (simp add: fh_bytes_def nth_append)

lemma fh_cast_fh_bytes:
  assumes "length (fh_inos fh) \<le> FH_MAXLEN"
  shows "fh_cast (fh_bytes fh) = fh"
proof -
  have "unat (of_nat (length (fh_inos fh)) :: byte) = length (fh_inos fh)"
    using assms by (simp add: unat_of_nat)
  then show ?thesis
    unfolding fh_cast_def fh_bytes_len_byte by (simp add: fh_bytes_def)
qed

lemma nfh_valid_fh_bytes:
  assumes "length (fh_inos fh) \<le> FH_MAXLEN"
  shows "nfh_valid (fh_bytes fh)"
proof -
  have "unat (of_nat (length (fh_inos fh)) :: byte) = length (fh_inos fh)"
    using assms by (simp add: unat_of_nat)
  then show ?thesis
    by (simp add: nfh_valid_def length_fh_bytes fh_bytes_len_byte fh_length_def fh_length_of_def
        FH_MINLEN_def)
qed

lemma fh_bytes_fh_cast:
  assumes "nfh_valid bs"
  shows "fh_bytes (fh_cast bs) = bs"
proof -
  from assms have len: "length bs = unat (bs ! 20) + 21"
    by (auto simp: nfh_valid_def fh_length_of_def split: if_splits)
  have w: "bytes_le 4 (word_le (take 4 bs) :: uint32) = take 4 bs"
    "bytes_le 8 (word_le (take 8 (drop 4 bs)) :: uint64) = take 8 (drop 4 bs)"
    "bytes_le 4 (word_le (take 4 (drop 12 bs)) :: uint32) = take 4 (drop 12 bs)"
    "bytes_le 4 (word_le (take 4 (drop 16 bs)) :: uint32) = take 4 (drop 16 bs)"
    using len by (auto intro!: bytes_le_inverse)
  have inos: "take (unat (bs ! 20)) (drop 21 bs) = drop 21 bs" using len by simp
  have d20: "drop 20 bs = bs ! 20 # drop 21 bs"
    using Cons_nth_drop_Suc [of 20 bs] len by simp
  have split: "drop 16 bs = take 4 (drop 16 bs) @ drop 20 bs"
    "drop 12 bs = take 4 (drop 12 bs) @ drop 16 bs"
    "drop 4 bs = take 8 (drop 4 bs) @ drop 12 bs" "bs = take 4 bs @ drop 4 bs"
    using append_take_drop_id [of 4 "drop 16 bs"] append_take_drop_id [of 4 "drop 12 bs"]
      append_take_drop_id [of 8 "drop 4 bs"] append_take_drop_id [of 4 bs]
    by (simp_all del: append_take_drop_id)
  have byte: "of_nat (length (drop 21 bs)) = bs ! 20" using len by simp
  have "take 4 bs @ take 8 (drop 4 bs) @ take 4 (drop 12 bs) @ take 4 (drop 16 bs) @
      (bs ! 20 # drop 21 bs) = bs"
    using split d20 by metis
  then show ?thesis
    unfolding fh_bytes_def fh_cast_def using w inos byte by simp
qed

subsection \<open>What the handle functions leave alone\<close>

text \<open>
  \<open>stat_only s s'\<close>: the states agree but for the world, the error number and the stat cache.
\<close>

definition stat_only :: "('w, 'z) fhs_scheme \<Rightarrow> ('w, 'z) fhs_scheme \<Rightarrow> bool" where
  "stat_only s s' \<longleftrightarrow>
     s' = s\<lparr>world := world s', errno := errno s', st_cache_valid := st_cache_valid s',
            st_cache := st_cache s'\<rparr>"

lemma stat_onlyI:
  "s' = s\<lparr>world := w, errno := e, st_cache_valid := v, st_cache := c\<rparr> \<Longrightarrow> stat_only s s'"
  by (simp add: stat_only_def)

lemma stat_onlyE:
  assumes "stat_only s s'"
  obtains w e v c where "s' = s\<lparr>world := w, errno := e, st_cache_valid := v, st_cache := c\<rparr>"
  using assms by (auto simp: stat_only_def)

lemma stat_only_refl [simp, intro]: "stat_only s s"
  by (simp add: stat_only_def)

lemma stat_only_trans [trans]: "stat_only s s' \<Longrightarrow> stat_only s' s'' \<Longrightarrow> stat_only s s''"
  by (erule stat_onlyE, erule stat_onlyE, rule stat_onlyI) simp

lemma sys_only_stat_only: "sys_only s s' \<Longrightarrow> stat_only s s'"
  by (erule sys_onlyE, rule stat_onlyI [where v = "st_cache_valid s" and c = "st_cache s"]) simp

lemma stat_only_st_cache [simp]: "stat_only s (s\<lparr>st_cache_valid := v, st_cache := c\<rparr>)"
  by (simp add: stat_only_def)

lemma stat_only_st_cache_valid [simp]: "stat_only s (s\<lparr>st_cache_valid := v\<rparr>)"
  by (simp add: stat_only_def)

lemma backend_lstat_stat_only: "backend_lstat os p s = (r, s') \<Longrightarrow> stat_only s s'"
  by (rule sys_only_stat_only, rule backend_only)

lemma backend_opendir_stat_only: "backend_opendir os p s = (r, s') \<Longrightarrow> stat_only s s'"
  by (rule sys_only_stat_only, rule backend_only)

lemma fh_rec_stat_only:
  "stat_only s (snd (fh_rec os junk fh hs lead s))"
  "stat_only s (snd (fh_rec_loop os junk fh h hs lead ents buf s))"
proof (induction os junk fh hs lead s and os junk fh h hs lead ents buf s
    rule: fh_rec_fh_rec_loop.induct)
  case (2 os junk fh h hs lead s)
  then show ?case
    by (auto split: prod.splits option.splits dest: backend_opendir_stat_only
        intro: stat_only_trans)
next
  case (4 os junk fh h hs lead n ents buf s)
  show ?case
  proof (cases "length lead + length n + 1 < NFS_MAXPATHLEN")
    case False
    with "4.IH"(4) show ?thesis by simp
  next
    case True
    obtain r s1 where ls: "backend_lstat os (lead @ ''/'' @ n) s = (r, s1)" by fastforce
    let ?b = "case r of None \<Rightarrow> buf\<lparr>st_dev := 0, st_ino := 0\<rparr> | Some b \<Rightarrow> b"
    have s1: "stat_only s s1" using ls by (rule backend_lstat_stat_only)
    have "stat_only s1 (snd (fh_rec_loop os junk fh h hs lead ents ?b s1))"
      if "\<not> (st_dev ?b = ucast (fh_dev fh) \<and> st_ino ?b = fh_ino fh)"
        "\<not> (n \<noteq> ''..'' \<and> n \<noteq> ''.'' \<and> FH_HASH (st_ino ?b) = h)"
      using "4.IH"(3) [OF True refl ls [symmetric] refl refl that] .
    moreover have "stat_only s1 (snd (case fh_rec os junk fh hs (lead @ ''/'' @ n) s1 of
        (None, s) \<Rightarrow> fh_rec_loop os junk fh h hs lead ents ?b s | (Some p, s) \<Rightarrow> (Some p, s)))"
      if "\<not> (st_dev ?b = ucast (fh_dev fh) \<and> st_ino ?b = fh_ino fh)"
        "n \<noteq> ''..'' \<and> n \<noteq> ''.'' \<and> FH_HASH (st_ino ?b) = h"
      using "4.IH"(1) [OF True refl ls [symmetric] refl refl that]
        "4.IH"(2) [OF True refl ls [symmetric] refl refl that]
      by (auto split: prod.splits option.splits intro: stat_only_trans)
    ultimately show ?thesis
      using True ls s1 by (auto simp: Let_def intro: stat_only_trans)
  qed
qed auto

subsection \<open>Resolution is sound\<close>

definition same_object :: "unfs3_fh \<Rightarrow> stat \<Rightarrow> bool" where
  "same_object fh b \<longleftrightarrow> st_dev b = ucast (fh_dev fh) \<and> st_ino b = fh_ino fh"

text \<open>
  What a successful search leaves behind: the stat cache holds the attributes of an object with
  the handle's device and inode, and whatever is known of every \<open>lstat\<close> is known of the path
  found and these attributes.
\<close>

definition found :: "unfs3_fh \<Rightarrow> (path \<Rightarrow> stat \<Rightarrow> bool) \<Rightarrow> path \<Rightarrow> ('w, 'z) fhs_scheme \<Rightarrow> bool" where
  "found fh Q p s \<longleftrightarrow>
     st_cache_valid s \<and> same_object fh (st_cache s) \<and>
     (fh_valid fh \<longrightarrow> Q (CHR ''/'' # p) (st_cache s))"

lemma same_object_zeroed:
  "same_object fh (b\<lparr>st_dev := 0, st_ino := 0\<rparr>) \<Longrightarrow> \<not> fh_valid fh"
proof
  assume same: "same_object fh (b\<lparr>st_dev := 0, st_ino := 0\<rparr>)" and "fh_valid fh"
  then have z: "(ucast (fh_dev fh) :: uint64) = 0" and i: "fh_ino fh = 0"
    by (auto simp: same_object_def)
  have "ucast (ucast (fh_dev fh) :: uint64) = fh_dev fh"
    by (rule bit_word_eqI) (simp add: bit_simps)
  with z have "fh_dev fh = 0" by simp
  with i \<open>fh_valid fh\<close> show False by (auto simp: fh_valid_def)
qed

lemma fh_rec_sound:
  "(\<And>obj (t :: ('w, 'z) fhs_scheme) b t'. backend_lstat os obj t = (Some b, t') \<Longrightarrow> Q obj b) \<Longrightarrow>
   lead \<noteq> [] \<Longrightarrow> hd lead = CHR ''/'' \<Longrightarrow>
   fh_rec os junk fh hs lead (s :: ('w, 'z) fhs_scheme) = (Some p, s') \<Longrightarrow> found fh Q p s'"
  "(\<And>obj (t :: ('w, 'z) fhs_scheme) b t'. backend_lstat os obj t = (Some b, t') \<Longrightarrow> Q obj b) \<Longrightarrow>
   lead \<noteq> [] \<Longrightarrow> hd lead = CHR ''/'' \<Longrightarrow>
   fh_rec_loop os junk fh h hs lead ents buf (s :: ('w, 'z) fhs_scheme) = (Some p, s') \<Longrightarrow>
   found fh Q p s'"
proof (induction os junk fh hs lead s and os junk fh h hs lead ents buf s
    arbitrary: p s' and p s' rule: fh_rec_fh_rec_loop.induct)
  case (1 os junk fh lead s)
  then show ?case by simp
next
  case (2 os junk fh h hs lead s)
  then show ?case by (auto split: prod.splits option.splits)
next
  case (3 os junk fh h hs lead buf s)
  then show ?case by simp
next
  case (4 os junk fh h hs lead n ents buf s)
  note Q = "4.prems"(1) and lead = "4.prems"(2,3) and eq = "4.prems"(4)
  show ?case
  proof (cases "length lead + length n + 1 < NFS_MAXPATHLEN")
    case False
    with "4.IH"(4) [OF False Q lead] eq show ?thesis by simp
  next
    case True
    let ?obj = "lead @ ''/'' @ n"
    obtain r s1 where ls: "backend_lstat os ?obj s = (r, s1)" by fastforce
    let ?b = "case r of None \<Rightarrow> buf\<lparr>st_dev := 0, st_ino := 0\<rparr> | Some b \<Rightarrow> b"
    have obj: "CHR ''/'' # tl lead @ ''/'' @ n = ?obj" using lead by (cases lead) auto
    note IH = "4.IH"(1-3) [OF True refl ls [symmetric] refl refl]
    show ?thesis
    proof (cases "same_object fh ?b")
      case same: True
      with eq True ls have p: "p = tl lead @ ''/'' @ n"
        and s': "s' = s1\<lparr>st_cache_valid := True, st_cache := ?b\<rparr>"
        by (auto simp: Let_def same_object_def)
      have "fh_valid fh \<longrightarrow> Q ?obj ?b"
        using same ls by (auto split: option.splits dest: same_object_zeroed intro: Q)
      moreover have "CHR ''/'' # p = ?obj" unfolding p by (rule obj)
      ultimately show ?thesis unfolding found_def using same s' by simp
    next
      case False
      then have differ: "\<not> (st_dev ?b = ucast (fh_dev fh) \<and> st_ino ?b = fh_ino fh)"
        by (simp add: same_object_def)
      show ?thesis
      proof (cases "n \<noteq> ''..'' \<and> n \<noteq> ''.'' \<and> FH_HASH (st_ino ?b) = h")
        case descend: True
        have ne: "?obj \<noteq> []" "hd ?obj = CHR ''/''" using lead by (cases lead; auto)+
        from eq True ls differ descend show ?thesis
          by (auto simp: Let_def split: prod.splits option.splits
              intro: IH(1) [OF differ descend Q ne]
                IH(2) [OF differ descend _ refl Q lead])
      next
        case skip: False
        from eq True ls differ skip
        have "fh_rec_loop os junk fh h hs lead ents ?b s1 = (Some p, s')"
          by (auto simp: Let_def)
        then show ?thesis using IH(3) [OF differ skip] Q lead by blast
      qed
    qed
  qed
qed

subsection \<open>How long a composed handle is\<close>

lemma fh_comp_loop_length:
  "fh_comp_loop os pre rest inos s = (Some r, s') \<Longrightarrow> length inos < FH_MAXLEN \<Longrightarrow>
   length r = Suc (length inos + count_list rest CHR ''/'') \<and> length r \<le> FH_MAXLEN"
proof (induction os pre rest inos s arbitrary: r s' rule: fh_comp_loop.induct)
  case (1 os pre rest inos s)
  let ?comp = "takeWhile (\<lambda>c. c \<noteq> CHR ''/'') rest"
    and ?after = "dropWhile (\<lambda>c. c \<noteq> CHR ''/'') rest"
  have "count_list rest CHR ''/'' = count_list (?comp @ ?after) CHR ''/''" by simp
  also have "\<dots> = count_list ?after CHR ''/''"
    by (simp only: count_list_append) (auto simp: count_list_0_iff dest: set_takeWhileD)
  finally have count: "count_list rest CHR ''/'' = count_list ?after CHR ''/''" .
  obtain b s1 where ls: "backend_lstat os (pre @ ?comp) s = (Some b, s1)"
    using "1.prems"(1)
    by (auto simp: fh_comp_loop.simps [of os pre rest] Let_def split: prod.splits option.splits)
  let ?inos = "inos @ [FH_HASH (st_ino b)]"
  show ?case
  proof (cases "?after = []")
    case True
    with "1.prems" ls have "r = ?inos"
      by (simp add: fh_comp_loop.simps [of os pre rest] del: dropWhile_eq_Nil_conv)
    moreover have "count_list rest CHR ''/'' = 0" using count True by simp
    ultimately show ?thesis using "1.prems"(2) by simp
  next
    case False
    have slash: "?after = CHR ''/'' # tl ?after"
      using False hd_dropWhile [OF False] by (cases ?after) auto
    have len: "length ?inos < FH_MAXLEN"
      using "1.prems"(1) False ls
      by (auto simp: fh_comp_loop.simps [of os pre rest] Let_def simp del: dropWhile_eq_Nil_conv
          split: if_splits)
    with "1.prems"(1) False ls
    have "fh_comp_loop os (pre @ ?comp @ ''/'') (tl ?after) ?inos s1 = (Some r, s')"
      by (simp add: fh_comp_loop.simps [of os pre rest] Let_def del: dropWhile_eq_Nil_conv)
    with "1.IH" [OF refl refl ls [symmetric] refl refl False len _ len]
    have "length r = Suc (length ?inos + count_list (tl ?after) CHR ''/'') \<and> length r \<le> FH_MAXLEN"
      by blast
    moreover have "count_list ?after CHR ''/'' = Suc (count_list (tl ?after) CHR ''/'')"
      by (subst slash) simp
    ultimately show ?thesis using count by simp
  qed
qed

lemma fh_comp_raw_bound:
  assumes "fh_comp_raw os p rq nd s = (fh, s')"
  shows "length (fh_inos fh) \<le> FH_MAXLEN"
  using assms
  by (auto simp: fh_comp_raw_def invalid_fh_def Let_def split: if_splits option.splits prod.splits
      dest!: fh_comp_loop_length)

lemma fh_cast_inos_bound: "nfh_valid nfh \<Longrightarrow> length (fh_inos (fh_cast nfh)) = length nfh - FH_MINLEN"
  by (auto simp: nfh_valid_def fh_cast_def fh_length_of_def FH_MINLEN_def split: if_splits)

lemma fh_extend_bound:
  assumes "fh_extend os nfh dev ino gen s = (Some fh, s')" and "nfh_valid nfh" and "length nfh \<le> NFS3_FHSIZE"
  shows "length (fh_inos fh) \<le> FH_MAXLEN"
proof -
  have len: "length (fh_inos (fh_cast nfh)) \<le> FH_MAXLEN"
    using assms(2,3) by (simp add: fh_cast_inos_bound FH_MINLEN_def NFS3_FHSIZE_def)
  show ?thesis
  proof (cases "fh_inos (fh_cast nfh) = [] \<and> export_point_from_fsid (fh_dev (fh_cast nfh)) s \<noteq> None")
    case True
    then obtain p where "export_point_from_fsid (fh_dev (fh_cast nfh)) s = Some p" by blast
    moreover obtain new s1 where c: "fh_comp_raw os p None False s = (new, s1)" by fastforce
    ultimately show ?thesis
      using assms(1) True fh_comp_raw_bound [OF c]
      by (auto simp: fh_extend_def Let_def split: if_splits)
  next
    case False
    then show ?thesis
      using assms(1) len by (auto simp: fh_extend_def Let_def split: if_splits option.splits)
  qed
qed

subsection \<open>Resolution is complete\<close>

text \<open>
  A file system at rest: \<open>lstat\<close> and \<open>opendir\<close> answer from fixed tables and change nothing.
  Leading double slashes name the same object as single ones, as on the systems the server
  runs on; \<open>fh_rec\<close> starts its search at \<open>//\<close>.
\<close>

definition static_fs ::
  "'w os \<Rightarrow> (path \<Rightarrow> errno + stat) \<Rightarrow> (path \<Rightarrow> errno + string list) \<Rightarrow> bool" where
  "static_fs os st ds \<longleftrightarrow>
     (\<forall>p c w. os_lstat os p c w = (st p, w)) \<and> (\<forall>p c w. os_opendir os p c w = (ds p, w))"

definition double_slash :: "(path \<Rightarrow> errno + stat) \<Rightarrow> bool" where
  "double_slash st \<longleftrightarrow> (\<forall>p. st (''//'' @ p) = st (''/'' @ p))"

lemma static_lstat:
  "static_fs os st ds \<Longrightarrow> st p = Inr b \<Longrightarrow> backend_lstat os p s = (Some b, s)"
  by (simp add: static_fs_def backend_lstat_def sys_call_def)

lemma static_opendir:
  "static_fs os st ds \<Longrightarrow> ds p = Inr es \<Longrightarrow> backend_opendir os p s = (Some es, s)"
  by (simp add: static_fs_def backend_opendir_def sys_call_def)

text \<open>The components \<open>cs\<close> lead from the directory \<open>lead\<close> to the object of the handle.\<close>

fun walk ::
  "(path \<Rightarrow> errno + stat) \<Rightarrow> (path \<Rightarrow> errno + string list) \<Rightarrow> unfs3_fh \<Rightarrow> path \<Rightarrow> string list \<Rightarrow> bool" where
  "walk st ds fh lead [] = False"
| "walk st ds fh lead (c # cs) =
     (c \<noteq> [] \<and> CHR ''/'' \<notin> set c \<and> c \<noteq> ''.'' \<and> c \<noteq> ''..'' \<and> length lead + length c + 1 < NFS_MAXPATHLEN \<and>
      (case ds lead of Inl _ \<Rightarrow> False | Inr es \<Rightarrow> c \<in> set es) \<and>
      (case st (lead @ ''/'' @ c) of Inl _ \<Rightarrow> False | Inr b \<Rightarrow> cs = [] \<longrightarrow> same_object fh b) \<and>
      (cs = [] \<or> walk st ds fh (lead @ ''/'' @ c) cs))"

fun path_hashes :: "(path \<Rightarrow> errno + stat) \<Rightarrow> path \<Rightarrow> string list \<Rightarrow> byte list" where
  "path_hashes st lead [] = []"
| "path_hashes st lead (c # cs) =
     (case st (lead @ ''/'' @ c) of Inl _ \<Rightarrow> 0 | Inr b \<Rightarrow> FH_HASH (st_ino b))
     # path_hashes st (lead @ ''/'' @ c) cs"

definition mkpath :: "string list \<Rightarrow> path" where
  "mkpath cs = concat (map (\<lambda>c. ''/'' @ c) cs)"

lemma mkpath_simps [simp]: "mkpath [] = []" "mkpath (c # cs) = ''/'' @ c @ mkpath cs"
  by (simp_all add: mkpath_def)

lemma fh_rec_loop_complete:
  assumes static: "static_fs os st ds"
    and n: "n \<noteq> ''.''" "n \<noteq> ''..''" "length lead + length n + 1 < NFS_MAXPATHLEN"
    and b: "st (lead @ ''/'' @ n) = Inr b" "FH_HASH (st_ino b) = h"
    and below: "same_object fh b \<or> (\<forall>s :: ('w, 'z) fhs_scheme.
      \<exists>q s'. fh_rec os junk fh hs (lead @ ''/'' @ n) s = (Some q, s'))"
  shows "n \<in> set ents \<Longrightarrow>
    \<exists>q s'. fh_rec_loop os junk fh h hs lead ents buf (s :: ('w, 'z) fhs_scheme) = (Some q, s')"
proof (induction ents arbitrary: buf s)
  case Nil
  then show ?case by simp
next
  case (Cons m ents)
  obtain r s1 where ls: "backend_lstat os (lead @ ''/'' @ m) s = (r, s1)" by fastforce
  show ?case
  proof (cases "m = n")
    case True
    have hit: "backend_lstat os (lead @ ''/'' @ n) s = (Some b, s)"
      using static b(1) by (rule static_lstat)
    from below show ?thesis
    proof
      assume "same_object fh b"
      with True hit n(3) show ?thesis by (simp add: same_object_def)
    next
      assume "\<forall>s :: ('w, 'z) fhs_scheme. \<exists>q s'. fh_rec os junk fh hs (lead @ ''/'' @ n) s = (Some q, s')"
      then obtain q s' where "fh_rec os junk fh hs (lead @ ''/'' @ n) s = (Some q, s')" by blast
      with True hit n b(2) show ?thesis by simp
    qed
  next
    case False
    with Cons.prems have "n \<in> set ents" by simp
    with Cons.IH ls show ?thesis
      by (auto simp: Let_def split: prod.splits option.splits)
  qed
qed

lemma fh_rec_complete:
  assumes "static_fs os st ds"
  shows "walk st ds fh lead cs \<Longrightarrow>
    \<exists>q s'. fh_rec os junk fh (path_hashes st lead cs) lead (s :: ('w, 'z) fhs_scheme) = (Some q, s')"
proof (induction cs arbitrary: lead s)
  case Nil
  then show ?case by simp
next
  case (Cons c cs)
  let ?obj = "lead @ ''/'' @ c"
  from Cons.prems obtain es b where es: "ds lead = Inr es" "c \<in> set es" and b: "st ?obj = Inr b"
    by (auto split: sum.splits)
  have below: "same_object fh b \<or>
    (\<forall>s :: ('w, 'z) fhs_scheme.
      \<exists>q s'. fh_rec os junk fh (path_hashes st ?obj cs) ?obj s = (Some q, s'))"
    using Cons b by (cases "cs = []") auto
  have "\<exists>q s'. fh_rec_loop os junk fh (FH_HASH (st_ino b)) (path_hashes st ?obj cs) lead es junk s
      = (Some q, s')"
    using Cons.prems b es
    by (intro fh_rec_loop_complete [OF assms _ _ _ b refl below]) auto
  with b static_opendir [OF assms es(1), of s] show ?case by simp
qed

lemma fh_comp_loop_complete:
  assumes "static_fs os st ds" and "double_slash st"
  shows "walk st ds fh (CHR ''/'' # l) (c # cs) \<Longrightarrow> l = [] \<or> hd l = CHR ''/'' \<Longrightarrow>
    length inos + length (c # cs) \<le> FH_MAXLEN \<Longrightarrow>
    fh_comp_loop os (l @ ''/'') (c @ mkpath cs) inos s =
      (Some (inos @ path_hashes st (CHR ''/'' # l) (c # cs)), s)"
proof (induction cs arbitrary: l c inos)
  case Nil
  from Nil.prems obtain b where b: "st (CHR ''/'' # l @ ''/'' @ c) = Inr b" by (auto split: sum.splits)
  have "st (l @ ''/'' @ c) = Inr b"
    using b assms(2) Nil.prems(2) by (cases l) (auto simp: double_slash_def)
  with assms(1) have "backend_lstat os (l @ ''/'' @ c) s = (Some b, s)" by (rule static_lstat)
  moreover have "CHR ''/'' \<notin> set c" using Nil.prems(1) by auto
  ultimately show ?case using b by (subst fh_comp_loop.simps) (simp add: Let_def)
next
  case (Cons d ds')
  from Cons.prems obtain b where b: "st (CHR ''/'' # l @ ''/'' @ c) = Inr b" by (auto split: sum.splits)
  have "st (l @ ''/'' @ c) = Inr b"
    using b assms(2) Cons.prems(2) by (cases l) (auto simp: double_slash_def)
  with assms(1) have ls: "backend_lstat os (l @ ''/'' @ c) s = (Some b, s)" by (rule static_lstat)
  let ?rest = "c @ mkpath (d # ds')"
  have "takeWhile (\<lambda>x. x \<noteq> CHR ''/'') ?rest = c"
    "dropWhile (\<lambda>x. x \<noteq> CHR ''/'') ?rest = mkpath (d # ds')"
    using Cons.prems(1) by (auto simp: takeWhile_append dropWhile_append)
  then have "fh_comp_loop os (l @ ''/'') ?rest inos s =
    fh_comp_loop os ((l @ ''/'' @ c) @ ''/'') (d @ mkpath ds') (inos @ [FH_HASH (st_ino b)]) s"
    using ls Cons.prems(3) by (subst fh_comp_loop.simps) (simp add: Let_def)
  also have "\<dots> = (Some ((inos @ [FH_HASH (st_ino b)]) @
      path_hashes st (CHR ''/'' # l @ ''/'' @ c) (d # ds')), s)"
  proof (rule Cons.IH)
    show "walk st ds fh (CHR ''/'' # l @ ''/'' @ c) (d # ds')" using Cons.prems(1) by auto
    show "l @ ''/'' @ c = [] \<or> hd (l @ ''/'' @ c) = CHR ''/''" using Cons.prems(2) by (cases l) auto
    show "length (inos @ [FH_HASH (st_ino b)]) + length (d # ds') \<le> FH_MAXLEN"
      using Cons.prems(3) by simp
  qed
  finally show ?case using b by simp
qed

lemma walk_cong:
  "fh_dev fh' = fh_dev fh \<Longrightarrow> fh_ino fh' = fh_ino fh \<Longrightarrow> walk st ds fh' lead cs = walk st ds fh lead cs"
  by (induction cs arbitrary: lead) (auto simp: same_object_def split: sum.splits)

definition fh_of_stat :: "stat \<Rightarrow> byte list \<Rightarrow> unfs3_fh" where
  "fh_of_stat b inos =
     \<lparr>fh_dev = ucast (st_dev b), fh_ino = st_ino b, fh_gen = get_gen b, fh_pwhash = 0, fh_inos = inos\<rparr>"

lemma length_path_hashes [simp]: "length (path_hashes st lead cs) = length cs"
  by (induction cs arbitrary: lead) auto

lemma path_hashes_snoc:
  "path_hashes st lead (cs @ [c]) = path_hashes st lead cs @
     [case st (lead @ mkpath (cs @ [c])) of Inl _ \<Rightarrow> 0 | Inr b \<Rightarrow> FH_HASH (st_ino b)]"
  by (induction cs arbitrary: lead) (auto simp: mkpath_def)

lemma fh_comp_raw_static:
  assumes "static_fs os st ds" "double_slash st" "walk st ds fh ''/'' cs" "length cs \<le> FH_MAXLEN"
    and b: "st (mkpath cs) = Inr b"
  shows "fh_comp_raw os (mkpath cs) None False s = (fh_of_stat b (path_hashes st ''/'' cs), s)"
proof -
  from assms(3) obtain c cs' where cs: "cs = c # cs'" and c: "c \<noteq> []" by (cases cs) auto
  have "fh_comp_loop os ''/'' (c @ mkpath cs') [] s = (Some (path_hashes st ''/'' cs), s)"
    using fh_comp_loop_complete [OF assms(1,2), of fh "[]" c cs' "[]" s] assms(3,4) cs by simp
  moreover have "mkpath cs \<noteq> ''/''" "tl (mkpath cs) = c @ mkpath cs'" using c cs by auto
  ultimately show ?thesis
    using static_lstat [OF assms(1) b, of s]
    by (simp add: fh_comp_raw_def Let_def fh_of_stat_def)
qed

lemma ucast_up_down:
  assumes "(d :: uint64) < 2 ^ 32"
  shows "ucast (ucast d :: uint32) = d"
proof -
  have "take_bit 32 d = d" using less_mask_eq [OF assms] by (simp add: take_bit_eq_mask)
  moreover have "ucast (ucast d :: uint32) = take_bit 32 d"
    by (rule bit_word_eqI) (auto simp: bit_simps)
  ultimately show ?thesis by simp
qed

subsection \<open>Properties of the handles\<close>


text \<open>
  Conversely, every byte string that passes the validity check is the encoding of the handle
  it is read as: no two valid byte strings are confused, and nothing of them is lost.
\<close>

lemma fh_bytes_roundtrip:
  assumes "nfh_valid bs"
  shows "fh_bytes (fh_cast bs) = bs"
  using assms by (rule fh_bytes_fh_cast)

text \<open>
  C3: composing a handle for a path and searching for it finds the object again. On a file system
  at rest, for a path of at most \<open>FH_MAXLEN\<close> components each listed in its directory, \<open>fh_comp_raw\<close>
  builds a valid handle, and \<open>fh_decomp_raw\<close> returns a path at which the object with the same
  device and inode is, and leaves its attributes in the stat cache. (The path may be another
  name of the object.)
\<close>

theorem fh_compose_resolve:
  fixes s :: "('w, 'z) fhs_scheme"
  assumes static: "static_fs os st ds" and slash: "double_slash st"
    and b: "st (mkpath cs) = Inr b" "st_dev b < 2 ^ 32" "st_ino b \<noteq> 0"
    and cs: "length cs \<le> FH_MAXLEN" "walk st ds (fh_of_stat b []) ''/'' cs"
  shows "\<exists>fh q s'. fh_comp_raw os (mkpath cs) None False s = (fh, s) \<and> fh_valid fh \<and>
    fh_decomp_raw os junk fh s = (Some q, s') \<and> st (CHR ''/'' # q) = Inr (st_cache s') \<and>
    st_dev (st_cache s') = st_dev b \<and> st_ino (st_cache s') = st_ino b"
proof -
  let ?fh = "fh_of_stat b (path_hashes st ''/'' cs)"
  have comp: "fh_comp_raw os (mkpath cs) None False s = (?fh, s)"
    by (rule fh_comp_raw_static [OF static slash cs(2,1) b(1)])
  have valid: "fh_valid ?fh" using b(3) by (simp add: fh_valid_def fh_of_stat_def)
  have w: "walk st ds ?fh ''/'' cs" using cs(2) walk_cong by (metis fh_of_stat_def unfs3_fh.select_convs(1,2))
  have ne: "fh_inos ?fh = path_hashes st ''/'' cs" "path_hashes st ''/'' cs \<noteq> []"
    using cs(2) by (cases cs; simp add: fh_of_stat_def)+
  obtain q s' where rec: "fh_rec os junk ?fh (path_hashes st ''/'' cs) ''/'' s = (Some q, s')"
    using fh_rec_complete [OF static w, of junk s] by blast
  let ?Q = "\<lambda>obj b. st obj = Inr b"
  have Q: "?Q obj b'" if "backend_lstat os obj t = (Some b', t')" for obj b' and t t' :: "('w, 'z) fhs_scheme"
    using that static
    by (auto simp: static_fs_def backend_lstat_def sys_call_def split: sum.splits)
  have "found ?fh ?Q q s'"
    using rec by (intro fh_rec_sound(1) [where Q = ?Q]) (auto intro: Q)
  then show ?thesis
    using comp valid rec ne ucast_up_down [OF b(2)]
    by (auto simp: found_def same_object_def fh_decomp_raw_def fh_of_stat_def)
qed

text \<open>
  C28: the handle LOOKUP derives from the directory's handle is the one composed from the whole
  path, up to the password hash, which \<open>fh_extend\<close> fills in.
\<close>

theorem fh_extend_agrees:
  assumes static: "static_fs os st ds" and slash: "double_slash st"
    and d: "st (mkpath cs) = Inr d" "walk st ds (fh_of_stat d []) ''/'' cs"
    and b: "st (mkpath (cs @ [n])) = Inr b" "walk st ds (fh_of_stat b []) ''/'' (cs @ [n])"
    and len: "length cs < FH_MAXLEN"
    and dir: "fh_comp_raw os (mkpath cs) None False s = (dir, s1)"
  shows "\<exists>fh. fh_extend os (fh_bytes dir) (ucast (st_dev b)) (st_ino b) (get_gen b) s = (Some fh, s) \<and>
    fh_pwhash fh = export_password_hash s \<and>
    fh_comp_raw os (mkpath (cs @ [n])) None False s = (fh\<lparr>fh_pwhash := 0\<rparr>, s)"
proof -
  have dir': "dir = fh_of_stat d (path_hashes st ''/'' cs)"
    using fh_comp_raw_static [OF static slash d(2) _ d(1), of s] dir len by simp
  then have cast: "fh_cast (fh_bytes dir) = dir"
    using len by (intro fh_cast_fh_bytes) (simp add: fh_of_stat_def)
  have ne: "fh_inos dir \<noteq> []" using dir' d(2) by (cases cs) (auto simp: fh_of_stat_def)
  have "mkpath (cs @ [n]) \<noteq> []" "hd (mkpath (cs @ [n])) = CHR ''/''" by (cases cs; simp)+
  then obtain r where r: "mkpath (cs @ [n]) = CHR ''/'' # r" by (metis list.collapse)
  have "st (''/'' @ mkpath (cs @ [n])) = Inr b"
    using slash b(1) r by (simp add: double_slash_def)
  then have hashes: "path_hashes st ''/'' (cs @ [n]) = path_hashes st ''/'' cs @ [FH_HASH (st_ino b)]"
    by (simp add: path_hashes_snoc)
  let ?fh = "dir\<lparr>fh_dev := ucast (st_dev b), fh_ino := st_ino b, fh_gen := get_gen b,
    fh_pwhash := export_password_hash s, fh_inos := fh_inos dir @ [FH_HASH (st_ino b)]\<rparr>"
  have "fh_extend os (fh_bytes dir) (ucast (st_dev b)) (st_ino b) (get_gen b) s = (Some ?fh, s)"
    using cast ne len by (simp add: fh_extend_def Let_def dir' fh_of_stat_def)
  moreover have "fh_comp_raw os (mkpath (cs @ [n])) None False s = (?fh\<lparr>fh_pwhash := 0\<rparr>, s)"
    using fh_comp_raw_static [OF static slash b(2) _ b(1), of s] len hashes
    by (simp add: dir' fh_of_stat_def)
  ultimately show ?thesis by (intro exI [of _ ?fh]) simp
qed

end
