(* ===== verification/Locate.thy ===== *)
theory Locate
  imports Fh
begin

text \<open>
  \<open>locate.c\<close>: the search of a whole file system for an object, the last resort of handle
  resolution. The recursion ends because every step makes the path longer and paths are
  bounded by \<open>NFS_MAXPATHLEN\<close>.
\<close>

function (sequential) locate_pfx ::
  "'w os \<Rightarrow> path \<Rightarrow> uint32 \<Rightarrow> uint64 \<Rightarrow> ('w, 'z) fhs_scheme \<Rightarrow> path option \<times> ('w, 'z) fhs_scheme"
and locate_loop ::
  "'w os \<Rightarrow> path \<Rightarrow> uint32 \<Rightarrow> uint64 \<Rightarrow> string list \<Rightarrow> ('w, 'z) fhs_scheme
   \<Rightarrow> path option \<times> ('w, 'z) fhs_scheme" where
  "locate_pfx os pfx dev ino s =
     (case backend_opendir os pfx s of
        (None, s) \<Rightarrow> (None, s)
      | (Some ents, s) \<Rightarrow> locate_loop os pfx dev ino ents s)"
| "locate_loop os pfx dev ino [] s = (None, s)"
| "locate_loop os pfx dev ino (n # ents) s =
     (if NFS_MAXPATHLEN \<le> length pfx + length n + 2 then locate_loop os pfx dev ino ents s
      else
        (let p = pfx @ ''/'' @ n
         in case backend_lstat os p s of
              (None, s) \<Rightarrow> locate_loop os pfx dev ino ents s
            | (Some buf, s) \<Rightarrow>
                if st_dev buf = ucast dev \<and> st_ino buf = ino
                then (Some p, s\<lparr>st_cache := buf, st_cache_valid := True\<rparr>)
                else if st_dev buf = ucast dev \<and> S_ISDIR (st_mode buf) \<and> n \<noteq> ''.'' \<and> n \<noteq> ''..''
                then (case locate_pfx os p dev ino s of
                        (Some r, s) \<Rightarrow> (Some r, s)
                      | (None, s) \<Rightarrow> locate_loop os pfx dev ino ents s)
                else locate_loop os pfx dev ino ents s))"
  by pat_completeness auto
termination
  by (relation "measures [\<lambda>x. case x of Inl (os, pfx, dev, ino, s) \<Rightarrow> NFS_MAXPATHLEN - length pfx
                             | Inr (os, pfx, dev, ino, ents, s) \<Rightarrow> NFS_MAXPATHLEN - length pfx,
                           \<lambda>x. case x of Inl _ \<Rightarrow> 1 | Inr _ \<Rightarrow> 0,
                           \<lambda>x. case x of Inl _ \<Rightarrow> 0
                             | Inr (os, pfx, dev, ino, ents, s) \<Rightarrow> length ents]") auto

declare locate_pfx.simps [simp del]

text \<open>The loop over the mount table: the first mount point on the device.\<close>

fun find_mntent ::
  "'w os \<Rightarrow> uint32 \<Rightarrow> path list \<Rightarrow> ('w, 'z) fhs_scheme \<Rightarrow> path option \<times> ('w, 'z) fhs_scheme" where
  "find_mntent os dev [] s = (None, s)"
| "find_mntent os dev (d # ds) s =
     (case backend_lstat os d s of
        (None, s) \<Rightarrow> find_mntent os dev ds s
      | (Some buf, s) \<Rightarrow> if st_dev buf = ucast dev then (Some d, s) else find_mntent os dev ds s)"

definition locate_file ::
  "'w os \<Rightarrow> uint32 \<Rightarrow> uint64 \<Rightarrow> ('w, 'z) fhs_scheme \<Rightarrow> path option \<times> ('w, 'z) fhs_scheme" where
  "locate_file os dev ino s =
     (if \<not> opt_brute_force s then (None, s)
      else (case sys_call (os_mtab os) s of
              (None, s) \<Rightarrow> (None, s)
            | (Some mtab, s) \<Rightarrow>
                (case find_mntent os dev mtab s of
                   (None, s) \<Rightarrow> (None, s)
                 | (Some d, s) \<Rightarrow> locate_pfx os d dev ino s)))"

subsection \<open>What the search leaves alone\<close>

lemma sys_call_stat_only: "sys_call f s = (r, s') \<Longrightarrow> stat_only s s'"
  by (rule sys_only_stat_only, rule sys_call_only)

lemma stat_only_st_cache' [simp]: "stat_only s (s\<lparr>st_cache := c, st_cache_valid := v\<rparr>)"
  by (simp add: stat_only_def)

lemma locate_stat_only:
  "stat_only s (snd (locate_pfx os pfx dev ino s))"
  "stat_only s (snd (locate_loop os pfx dev ino ents s))"
proof (induction os pfx dev ino s and os pfx dev ino ents s rule: locate_pfx_locate_loop.induct)
  case (1 os pfx dev ino s)
  then show ?case
    by (auto simp: locate_pfx.simps [of os pfx] split: prod.splits option.splits
        dest: backend_opendir_stat_only intro: stat_only_trans)
next
  case (2 os pfx dev ino s)
  then show ?case by simp
next
  case (3 os pfx dev ino n ents s)
  show ?case
  proof (cases "NFS_MAXPATHLEN \<le> length pfx + length n + 2")
    case True
    with "3.IH"(1) show ?thesis by simp
  next
    case False
    note IH = "3.IH"(2-5) [OF False refl]
    obtain r s1 where ls: "backend_lstat os (pfx @ ''/'' @ n) s = (r, s1)" by fastforce
    have s1: "stat_only s s1" using ls by (rule backend_lstat_stat_only)
    show ?thesis
    proof (cases r)
      case None
      with False ls IH(1) [OF ls [symmetric]] s1 show ?thesis by (auto intro: stat_only_trans)
    next
      case (Some b)
      let ?hit = "st_dev b = ucast dev \<and> st_ino b = ino"
        and ?dir = "st_dev b = ucast dev \<and> S_ISDIR (st_mode b) \<and> n \<noteq> ''.'' \<and> n \<noteq> ''..''"
      have "stat_only s1 (snd (case locate_pfx os (pfx @ ''/'' @ n) dev ino s1 of
          (Some r, s) \<Rightarrow> (Some r, s) | (None, s) \<Rightarrow> locate_loop os pfx dev ino ents s))"
        if "\<not> ?hit" "?dir"
        using IH(2) [OF ls [symmetric] Some that] IH(3) [OF ls [symmetric] Some that]
        by (auto split: prod.splits option.splits intro: stat_only_trans)
      moreover have "stat_only s1 (snd (locate_loop os pfx dev ino ents s1))"
        if "\<not> ?hit" "\<not> ?dir"
        using IH(4) [OF ls [symmetric] Some that] .
      ultimately show ?thesis
        using False ls s1 Some by (auto simp: Let_def intro: stat_only_trans)
    qed
  qed
qed

lemma find_mntent_only: "find_mntent os dev ds s = (r, s') \<Longrightarrow> sys_only s s'"
  by (induction ds arbitrary: s)
    (auto split: prod.splits option.splits if_splits dest!: backend_only intro: sys_only_trans)

lemma find_mntent_stat_only: "find_mntent os dev ds s = (r, s') \<Longrightarrow> stat_only s s'"
  by (rule sys_only_stat_only, rule find_mntent_only)

lemma locate_pfx_stat_only: "locate_pfx os pfx dev ino s = (r, s') \<Longrightarrow> stat_only s s'"
  using locate_stat_only(1) [of s os pfx dev ino] by simp

lemma locate_file_stat_only: "locate_file os dev ino s = (r, s') \<Longrightarrow> stat_only s s'"
  by (auto simp: locate_file_def split: prod.splits option.splits if_splits
      dest!: sys_call_stat_only find_mntent_stat_only locate_pfx_stat_only
      intro: stat_only_trans)

subsection \<open>The search is sound\<close>

definition located ::
  "uint32 \<Rightarrow> uint64 \<Rightarrow> (path \<Rightarrow> stat \<Rightarrow> bool) \<Rightarrow> path \<Rightarrow> ('w, 'z) fhs_scheme \<Rightarrow> bool" where
  "located dev ino Q p s \<longleftrightarrow>
     st_cache_valid s \<and> st_dev (st_cache s) = ucast dev \<and> st_ino (st_cache s) = ino \<and>
     Q p (st_cache s)"

lemma locate_sound:
  "(\<And>obj (t :: ('w, 'z) fhs_scheme) b t'. backend_lstat os obj t = (Some b, t') \<Longrightarrow> Q obj b) \<Longrightarrow>
   locate_pfx os pfx dev ino (s :: ('w, 'z) fhs_scheme) = (Some p, s') \<Longrightarrow> located dev ino Q p s'"
  "(\<And>obj (t :: ('w, 'z) fhs_scheme) b t'. backend_lstat os obj t = (Some b, t') \<Longrightarrow> Q obj b) \<Longrightarrow>
   locate_loop os pfx dev ino ents (s :: ('w, 'z) fhs_scheme) = (Some p, s') \<Longrightarrow>
   located dev ino Q p s'"
proof (induction os pfx dev ino s and os pfx dev ino ents s
    arbitrary: p s' and p s' rule: locate_pfx_locate_loop.induct)
  case (1 os pfx dev ino s)
  then show ?case
    by (auto simp: locate_pfx.simps [of os pfx] split: prod.splits option.splits)
next
  case (2 os pfx dev ino s)
  then show ?case by simp
next
  case (3 os pfx dev ino n ents s)
  note Q = "3.prems"(1) and eq = "3.prems"(2)
  show ?case
  proof (cases "NFS_MAXPATHLEN \<le> length pfx + length n + 2")
    case True
    with "3.IH"(1) [OF True Q] eq show ?thesis by simp
  next
    case False
    note IH = "3.IH"(2-5) [OF False refl]
    obtain r s1 where ls: "backend_lstat os (pfx @ ''/'' @ n) s = (r, s1)" by fastforce
    show ?thesis
    proof (cases r)
      case None
      with False ls eq have "locate_loop os pfx dev ino ents s1 = (Some p, s')"
        by (simp add: Let_def)
      then show ?thesis using IH(1) [OF ls [symmetric] None] Q by blast
    next
      case (Some b)
      let ?hit = "st_dev b = ucast dev \<and> st_ino b = ino"
        and ?dir = "st_dev b = ucast dev \<and> S_ISDIR (st_mode b) \<and> n \<noteq> ''.'' \<and> n \<noteq> ''..''"
      consider (hit) "?hit" | (dir) "\<not> ?hit" "?dir" | (skip) "\<not> ?hit" "\<not> ?dir" by blast
      then show ?thesis
      proof cases
        case hit
        with False ls Some eq Q show ?thesis by (auto simp: Let_def located_def)
      next
        case dir
        with False ls Some eq show ?thesis
          by (auto simp: Let_def split: prod.splits option.splits
              intro: IH(2) [OF ls [symmetric] Some dir Q]
                IH(3) [OF ls [symmetric] Some dir _ refl Q])
      next
        case skip
        with False ls Some eq have "locate_loop os pfx dev ino ents s1 = (Some p, s')"
          by (auto simp: Let_def)
        then show ?thesis using IH(4) [OF ls [symmetric] Some skip] Q by blast
      qed
    qed
  qed
qed

subsection \<open>The search is complete\<close>

text \<open>A path below \<open>lead\<close> that stays on the device and ends at the object.\<close>

fun tree_walk ::
  "(path \<Rightarrow> errno + stat) \<Rightarrow> (path \<Rightarrow> errno + string list) \<Rightarrow> uint32 \<Rightarrow> uint64 \<Rightarrow> path \<Rightarrow> string list
   \<Rightarrow> bool" where
  "tree_walk st ds dev ino lead [] = False"
| "tree_walk st ds dev ino lead (c # cs) =
     (c \<noteq> ''.'' \<and> c \<noteq> ''..'' \<and> length lead + length c + 2 < NFS_MAXPATHLEN \<and>
      (case ds lead of Inl _ \<Rightarrow> False | Inr es \<Rightarrow> c \<in> set es) \<and>
      (case st (lead @ ''/'' @ c) of
         Inl _ \<Rightarrow> False
       | Inr b \<Rightarrow> st_dev b = ucast dev \<and>
           (if cs = [] then st_ino b = ino
            else S_ISDIR (st_mode b) \<and> tree_walk st ds dev ino (lead @ ''/'' @ c) cs)))"

lemma locate_loop_complete:
  assumes static: "static_fs os st ds"
    and n: "n \<noteq> ''.''" "n \<noteq> ''..''" "length lead + length n + 2 < NFS_MAXPATHLEN"
    and b: "st (lead @ ''/'' @ n) = Inr b" "st_dev b = ucast dev"
    and below: "st_ino b = ino \<or> S_ISDIR (st_mode b) \<and> (\<forall>s :: ('w, 'z) fhs_scheme.
      \<exists>q s'. locate_pfx os (lead @ ''/'' @ n) dev ino s = (Some q, s'))"
  shows "n \<in> set ents \<Longrightarrow>
    \<exists>q s'. locate_loop os lead dev ino ents (s :: ('w, 'z) fhs_scheme) = (Some q, s')"
proof (induction ents arbitrary: s)
  case Nil
  then show ?case by simp
next
  case (Cons m ents)
  show ?case
  proof (cases "m = n")
    case True
    have hit: "backend_lstat os (lead @ ''/'' @ n) s = (Some b, s)"
      using static b(1) by (rule static_lstat)
    show ?thesis
    proof (cases "st_ino b = ino")
      case True
      with \<open>m = n\<close> hit n(3) b(2) show ?thesis by simp
    next
      case False
      with below obtain q s' where "S_ISDIR (st_mode b)"
        and "locate_pfx os (lead @ ''/'' @ n) dev ino s = (Some q, s')" by blast
      with True hit n b(2) show ?thesis by (simp add: Let_def)
    qed
  next
    case False
    with Cons.prems have "n \<in> set ents" by simp
    with Cons.IH show ?thesis
      by (auto simp: Let_def split: prod.splits option.splits)
  qed
qed

lemma locate_pfx_complete:
  assumes "static_fs os st ds"
  shows "tree_walk st ds dev ino lead cs \<Longrightarrow>
    \<exists>q s'. locate_pfx os lead dev ino (s :: ('w, 'z) fhs_scheme) = (Some q, s')"
proof (induction cs arbitrary: lead s)
  case Nil
  then show ?case by simp
next
  case (Cons c cs)
  let ?obj = "lead @ ''/'' @ c"
  from Cons.prems obtain es b where es: "ds lead = Inr es" "c \<in> set es" and b: "st ?obj = Inr b"
    "st_dev b = ucast dev"
    by (auto split: sum.splits)
  have below: "st_ino b = ino \<or> S_ISDIR (st_mode b) \<and>
    (\<forall>s :: ('w, 'z) fhs_scheme. \<exists>q s'. locate_pfx os ?obj dev ino s = (Some q, s'))"
    using Cons b by (cases "cs = []") auto
  have "\<exists>q s'. locate_loop os lead dev ino es s = (Some q, s')"
    using Cons.prems b es
    by (intro locate_loop_complete [OF assms _ _ _ b below]) auto
  with static_opendir [OF assms es(1), of s] show ?case by (simp add: locate_pfx.simps [of os lead])
qed

subsection \<open>Properties of the search\<close>


end
