(* ===== verification/Fh_Cache.thy ===== *)
theory Fh_Cache
  imports Locate
begin

text \<open>
  \<open>fh_cache.c\<close>: the cache of resolved handles, an array of \<open>CACHE_ENTRIES\<close> slots that is filled
  from the front and then reused by least recent use, and the two functions the handlers call,
  \<open>fh_decomp\<close> and \<open>fh_comp\<close>. A result of -1 of \<open>fh_cache_index\<close> is \<open>None\<close>. The statistics
  counters are unbounded integers.
\<close>

definition CACHE_ENTRIES :: nat where "CACHE_ENTRIES = 4096"

lemma CACHE_ENTRIES_val [simp]: "CACHE_ENTRIES = 4096"
  by (rule CACHE_ENTRIES_def)

record unfs3_cache =
  c_dev :: uint32
  c_ino :: uint64
  c_path :: path
  c_use :: uint32

definition zero_cache :: unfs3_cache where
  "zero_cache = \<lparr>c_dev = 0, c_ino = 0, c_path = [], c_use = 0\<rparr>"

record 'w fhc = "'w fhs" +
  fh_cache :: "unfs3_cache list"
  fh_cache_max :: nat
  fh_cache_use :: int
  fh_cache_hit :: int
  fh_cache_time :: uint32
  fh_last_entry :: int

definition fh_cache_next :: "('w, 'z) fhc_scheme \<Rightarrow> uint32 \<times> ('w, 'z) fhc_scheme" where
  "fh_cache_next s =
     (let s = s\<lparr>fh_cache_time := fh_cache_time s + 1\<rparr> in (fh_cache_time s, s))"

definition fh_cache_init :: "('w, 'z) fhc_scheme \<Rightarrow> ('w, 'z) fhc_scheme" where
  "fh_cache_init s = s\<lparr>fh_cache := replicate CACHE_ENTRIES zero_cache\<rparr>"

text \<open>The loop of \<open>fh_cache_lru\<close> over the slots from \<open>i\<close> on, and what follows it.\<close>

fun fh_cache_lru_loop :: "unfs3_cache list \<Rightarrow> nat \<Rightarrow> int \<Rightarrow> uint32 \<Rightarrow> nat \<Rightarrow> nat" where
  "fh_cache_lru_loop [] i last_entry best best_idx =
     (if best_idx = 0 \<and> last_entry = 0 then 1 else best_idx)"
| "fh_cache_lru_loop (e # es) i last_entry best best_idx =
     (if int i = last_entry then fh_cache_lru_loop es (i + 1) last_entry best best_idx
      else if c_use e = 0 then i
      else if c_use e < best then fh_cache_lru_loop es (i + 1) last_entry (c_use e) i
      else fh_cache_lru_loop es (i + 1) last_entry best best_idx)"

definition fh_cache_lru :: "('w, 'z) fhc_scheme \<Rightarrow> nat \<times> ('w, 'z) fhc_scheme" where
  "fh_cache_lru s =
     (if fh_cache_max s < CACHE_ENTRIES - 1
      then (fh_cache_max s, s\<lparr>fh_cache_max := fh_cache_max s + 1\<rparr>)
      else (fh_cache_lru_loop (fh_cache s) 0 (fh_last_entry s) (-1) 0, s))"

definition fh_cache_inval :: "nat \<Rightarrow> ('w, 'z) fhc_scheme \<Rightarrow> ('w, 'z) fhc_scheme" where
  "fh_cache_inval idx s =
     s\<lparr>fh_cache := (fh_cache s)[idx := (fh_cache s ! idx)\<lparr>c_dev := 0, c_ino := 0, c_use := 0,
                                                          c_path := []\<rparr>]\<rparr>"

definition fh_cache_index :: "uint32 \<Rightarrow> uint64 \<Rightarrow> ('w, 'z) fhc_scheme \<Rightarrow> nat option" where
  "fh_cache_index dev ino s =
     find_idx (\<lambda>e. c_dev e = dev \<and> c_ino e = ino) (take (fh_cache_max s + 1) (fh_cache s))"

definition fh_cache_add ::
  "uint32 \<Rightarrow> uint64 \<Rightarrow> path \<Rightarrow> ('w, 'z) fhc_scheme \<Rightarrow> path \<times> ('w, 'z) fhc_scheme" where
  "fh_cache_add dev ino p s =
     (let (idx, s) = (case fh_cache_index dev ino s of
                        None \<Rightarrow> fh_cache_lru s
                      | Some idx \<Rightarrow> (idx, s));
          s = s\<lparr>fh_cache := (fh_cache s)[idx := (fh_cache s ! idx)\<lparr>c_dev := dev, c_ino := ino\<rparr>]\<rparr>;
          (t, s) = fh_cache_next s;
          s = s\<lparr>fh_cache := (fh_cache s)[idx := (fh_cache s ! idx)\<lparr>c_use := t\<rparr>]\<rparr>;
          s = s\<lparr>fh_cache := (fh_cache s)[idx := (fh_cache s ! idx)\<lparr>c_path := p\<rparr>]\<rparr>
      in (c_path (fh_cache s ! idx), s))"

definition fh_cache_lookup ::
  "'w os \<Rightarrow> uint32 \<Rightarrow> uint64 \<Rightarrow> ('w, 'z) fhc_scheme \<Rightarrow> path option \<times> ('w, 'z) fhc_scheme" where
  "fh_cache_lookup os dev ino s =
     (case fh_cache_index dev ino s of
        None \<Rightarrow> (None, s)
      | Some i \<Rightarrow>
          (case backend_lstat os (c_path (fh_cache s ! i)) s of
             (None, s) \<Rightarrow> (None, fh_cache_inval i s)
           | (Some buf, s) \<Rightarrow>
               if st_dev buf = ucast dev \<and> st_ino buf = ino
               then (let (t, s) = fh_cache_next s;
                         s = s\<lparr>fh_cache := (fh_cache s)[i := (fh_cache s ! i)\<lparr>c_use := t\<rparr>],
                               st_cache_valid := True, st_cache := buf, fh_last_entry := int i\<rparr>
                     in (Some (c_path (fh_cache s ! i)), s))
               else (None, fh_cache_inval i s)))"

text \<open>The values an export point gets where the file system reports zeroes.\<close>

definition sane_stat :: "uint32 \<Rightarrow> stat \<Rightarrow> stat" where
  "sane_stat dev b =
     (let b = (if st_nlink b = 0 then b\<lparr>st_nlink := 1\<rparr> else b);
          b = (if st_size b = 0 then b\<lparr>st_size := 4096\<rparr> else b);
          b = (if st_blksize b = 0 then b\<lparr>st_blksize := 512\<rparr> else b);
          b = (if st_blocks b = 0 then b\<lparr>st_blocks := 8\<rparr> else b)
      in b\<lparr>st_dev := ucast dev, st_ino := 1\<rparr>)"

definition fh_decomp ::
  "'w os \<Rightarrow> stat \<Rightarrow> nfs_fh3 \<Rightarrow> ('w, 'z) fhc_scheme \<Rightarrow> path option \<times> ('w, 'z) fhc_scheme" where
  "fh_decomp os junk fh s =
     (let obj = fh_cast fh;
          resolve = (\<lambda>s.
            let (r, s) = fh_cache_lookup os (fh_dev obj) (fh_ino obj) s;
                s = s\<lparr>fh_cache_use := fh_cache_use s + 1\<rparr>
            in case r of
                 Some p \<Rightarrow> (Some p, s\<lparr>fh_cache_hit := fh_cache_hit s + 1\<rparr>)
               | None \<Rightarrow>
                   (let (r, s) = fh_decomp_raw os junk obj s;
                        (r, s) = (case r of
                                    Some p \<Rightarrow> (Some p, s)
                                  | None \<Rightarrow> locate_file os (fh_dev obj) (fh_ino obj) s)
                    in (case r of
                          Some p \<Rightarrow> (let (p, s) = fh_cache_add (fh_dev obj) (fh_ino obj) p s
                                     in (Some p, s))
                        | None \<Rightarrow> (None, s\<lparr>st_cache_valid := False\<rparr>))))
      in if \<not> nfh_valid fh then (None, s\<lparr>st_cache_valid := False\<rparr>)
         else (case export_point_from_fsid (fh_dev obj) s of
                 None \<Rightarrow> resolve s
               | Some result \<Rightarrow>
                   if fh_ino obj = 1
                   then (Some result, s\<lparr>st_cache_valid := True,
                                        st_cache := sane_stat (fh_dev obj) (st_cache s)\<rparr>)
                   else resolve s))"

definition fh_comp ::
  "'w os \<Rightarrow> path \<Rightarrow> svc_req option \<Rightarrow> bool \<Rightarrow> ('w, 'z) fhc_scheme
   \<Rightarrow> unfs3_fh \<times> ('w, 'z) fhc_scheme" where
  "fh_comp os p rqstp need_dir s =
     (let (res, s) = fh_comp_raw os p rqstp need_dir s;
          s = (if fh_valid res then snd (fh_cache_add (fh_dev res) (fh_ino res) p s) else s)
      in (res\<lparr>fh_pwhash := export_password_hash s\<rparr>, s))"

definition fh_comp_ptr ::
  "'w os \<Rightarrow> path \<Rightarrow> svc_req option \<Rightarrow> bool \<Rightarrow> ('w, 'z) fhc_scheme
   \<Rightarrow> unfs3_fh option \<times> ('w, 'z) fhc_scheme" where
  "fh_comp_ptr os p rqstp need_dir s =
     (let (res, s) = fh_comp os p rqstp need_dir s
      in if fh_valid res then (Some res, s) else (None, s))"

subsection \<open>The invariant\<close>

definition c_key :: "unfs3_cache \<Rightarrow> uint32 \<times> uint64" where
  "c_key e = (c_dev e, c_ino e)"

text \<open>
  The slots handed out are a prefix of the array; while it is not full the slots behind are
  empty, and no object has two slots.
\<close>

definition fhc_inv :: "('w, 'z) fhc_scheme \<Rightarrow> bool" where
  "fhc_inv s \<longleftrightarrow>
     length (fh_cache s) = CACHE_ENTRIES \<and> fh_cache_max s < CACHE_ENTRIES \<and>
     (fh_cache_max s < CACHE_ENTRIES - 1 \<longrightarrow>
        (\<forall>i<CACHE_ENTRIES. fh_cache_max s \<le> i \<longrightarrow> c_key (fh_cache s ! i) = (0, 0))) \<and>
     (\<forall>i<CACHE_ENTRIES. \<forall>j<CACHE_ENTRIES.
        c_key (fh_cache s ! i) = c_key (fh_cache s ! j) \<longrightarrow> c_key (fh_cache s ! i) \<noteq> (0, 0)
        \<longrightarrow> i = j)"

lemma fhc_invD:
  assumes "fhc_inv s"
  shows "length (fh_cache s) = CACHE_ENTRIES" and "fh_cache_max s < CACHE_ENTRIES"
    and "fh_cache_max s < CACHE_ENTRIES - 1 \<Longrightarrow> j < CACHE_ENTRIES \<Longrightarrow> fh_cache_max s \<le> j \<Longrightarrow>
      c_key (fh_cache s ! j) = (0, 0)"
    and "j < CACHE_ENTRIES \<Longrightarrow> k < CACHE_ENTRIES \<Longrightarrow> c_key (fh_cache s ! j) = c_key (fh_cache s ! k) \<Longrightarrow>
      c_key (fh_cache s ! j) \<noteq> (0, 0) \<Longrightarrow> j = k"
  using assms unfolding fhc_inv_def by metis+

text \<open>The map the cache implements, on the objects a handle can name.\<close>

definition fhc_abs :: "('w, 'z) fhc_scheme \<Rightarrow> uint32 \<times> uint64 \<Rightarrow> path option" where
  "fhc_abs s k =
     (if k = (0, 0) then None
      else map_option (\<lambda>i. c_path (fh_cache s ! i)) (fh_cache_index (fst k) (snd k) s))"

lemma fh_cache_index_iff:
  assumes "fhc_inv s" and "(dev, ino) \<noteq> (0, 0)"
  shows "fh_cache_index dev ino s = Some i \<longleftrightarrow> i < CACHE_ENTRIES \<and> c_key (fh_cache s ! i) = (dev, ino)"
proof -
  note len = fhc_invD(1) [OF assms(1)] and empty = fhc_invD(3) [OF assms(1)]
    and uniq = fhc_invD(4) [OF assms(1)]
  have key: "(c_dev e = dev \<and> c_ino e = ino) = (c_key e = (dev, ino))" for e
    by (simp add: c_key_def)
  show ?thesis
  proof
    assume "fh_cache_index dev ino s = Some i"
    then show "i < CACHE_ENTRIES \<and> c_key (fh_cache s ! i) = (dev, ino)"
      using len by (auto simp: fh_cache_index_def find_idx_Some_iff key)
  next
    assume i: "i < CACHE_ENTRIES \<and> c_key (fh_cache s ! i) = (dev, ino)"
    have "i < fh_cache_max s + 1"
    proof (rule ccontr)
      assume "\<not> i < fh_cache_max s + 1"
      then have "fh_cache_max s < CACHE_ENTRIES - 1" "fh_cache_max s \<le> i" using i by auto
      with empty [of i] i assms(2) show False by auto
    qed
    moreover have "\<not> c_key (fh_cache s ! j) = (dev, ino)" if "j < i" for j
      using uniq [of j i] i that assms(2) by auto
    ultimately show "fh_cache_index dev ino s = Some i"
      using i len by (auto simp: fh_cache_index_def find_idx_Some_iff key)
  qed
qed

lemma fhc_abs_Some_iff:
  assumes "fhc_inv s"
  shows "fhc_abs s k = Some p \<longleftrightarrow>
    k \<noteq> (0, 0) \<and> (\<exists>i<CACHE_ENTRIES. c_key (fh_cache s ! i) = k \<and> c_path (fh_cache s ! i) = p)"
proof (cases "k = (0, 0)")
  case True
  then show ?thesis by (simp add: fhc_abs_def)
next
  case False
  obtain dev ino where k: "k = (dev, ino)" by fastforce
  show ?thesis
    using False fh_cache_index_iff [OF assms, of dev ino] unfolding k by (auto simp: fhc_abs_def)
qed

subsection \<open>Which slot is reused\<close>

text \<open>
  Over the whole array: the slot chosen is not the one last returned, and none of the others
  was used less recently, by the counter as it stands.
\<close>

definition lru_choice :: "unfs3_cache list \<Rightarrow> int \<Rightarrow> nat \<Rightarrow> bool" where
  "lru_choice c l r \<longleftrightarrow>
     r < length c \<and> int r \<noteq> l \<and> (\<forall>j<length c. int j \<noteq> l \<longrightarrow> c_use (c ! r) \<le> c_use (c ! j))"

lemma fh_cache_lru_loop_choice:
  assumes "1 < length c"
  shows "es = drop i c \<Longrightarrow> i \<le> length c \<Longrightarrow>
    (bi < i \<and> int bi \<noteq> l \<and> best = c_use (c ! bi) \<or> bi = 0 \<and> best = -1) \<Longrightarrow>
    (\<forall>j<i. int j \<noteq> l \<longrightarrow> best \<le> c_use (c ! j)) \<Longrightarrow>
    lru_choice c l (fh_cache_lru_loop es i l best bi)"
proof (induction es arbitrary: i best bi)
  case Nil
  then have i: "i = length c" by simp
  have top: "w \<le> (-1 :: uint32)" for w by (rule word_order.extremum)
  from Nil.prems(3) show ?case
  proof
    assume "bi < i \<and> int bi \<noteq> l \<and> best = c_use (c ! bi)"
    with Nil.prems(4) i show ?thesis by (auto simp: lru_choice_def)
  next
    assume b: "bi = 0 \<and> best = -1"
    with Nil.prems(4) i have all: "\<forall>j<length c. int j \<noteq> l \<longrightarrow> c_use (c ! j) = -1"
      using top by (metis word_order.extremum_unique)
    show ?thesis using b all assms by (auto simp: lru_choice_def top)
  qed
next
  case (Cons e es)
  have i: "i < length c" and e: "e = c ! i" and es: "es = drop (Suc i) c"
    using Cons.prems(1) by (metis drop_all linorder_not_le list.discI,
      metis nth_via_drop, metis drop_Suc list.sel(3) tl_drop)
  note IH = Cons.IH [OF es]
  have top: "w \<le> (-1 :: uint32)" for w by (rule word_order.extremum)
  consider (l) "int i = l" | (free) "int i \<noteq> l" "c_use e = 0"
    | (less) "int i \<noteq> l" "c_use e \<noteq> 0" "c_use e < best" | (more) "int i \<noteq> l" "c_use e \<noteq> 0" "best \<le> c_use e"
    by fastforce
  then show ?case
  proof cases
    case l
    have "lru_choice c l (fh_cache_lru_loop es (Suc i) l best bi)"
      using Cons.prems(2-) i l by (intro IH) (auto simp: less_Suc_eq)
    with l show ?thesis by simp
  next
    case free
    with i e show ?thesis by (simp add: lru_choice_def)
  next
    case less
    with Cons.prems(2-) i e show ?thesis by (auto intro!: IH simp: less_Suc_eq)
  next
    case more
    with Cons.prems(2-) i e show ?thesis by (auto intro!: IH simp: less_Suc_eq)
  qed
qed

lemma fh_cache_lru_full:
  assumes "fhc_inv s" and "fh_cache_max s = CACHE_ENTRIES - 1"
  shows "snd (fh_cache_lru s) = s"
    and "lru_choice (fh_cache s) (fh_last_entry s) (fst (fh_cache_lru s))"
  using assms fh_cache_lru_loop_choice [of "fh_cache s" "fh_cache s" 0 0 "fh_last_entry s" "-1"]
  by (simp_all add: fh_cache_lru_def fhc_inv_def)

subsection \<open>Adding an entry\<close>

definition fhc_slot :: "uint32 \<Rightarrow> uint64 \<Rightarrow> ('w, 'z) fhc_scheme \<Rightarrow> nat" where
  "fhc_slot dev ino s =
     (case fh_cache_index dev ino s of None \<Rightarrow> fst (fh_cache_lru s) | Some i \<Rightarrow> i)"

definition fhc_max' :: "uint32 \<Rightarrow> uint64 \<Rightarrow> ('w, 'z) fhc_scheme \<Rightarrow> nat" where
  "fhc_max' dev ino s =
     (if fh_cache_index dev ino s = None \<and> fh_cache_max s < CACHE_ENTRIES - 1
      then fh_cache_max s + 1 else fh_cache_max s)"

lemma fhc_slot_bound:
  assumes "fhc_inv s"
  shows "fhc_slot dev ino s < CACHE_ENTRIES"
proof (cases "fh_cache_index dev ino s")
  case None
  have "fst (fh_cache_lru s) < CACHE_ENTRIES"
  proof (cases "fh_cache_max s < CACHE_ENTRIES - 1")
    case True
    then show ?thesis by (simp add: fh_cache_lru_def)
  next
    case False
    with assms have "fh_cache_max s = CACHE_ENTRIES - 1" by (simp add: fhc_inv_def)
    from fh_cache_lru_full(2) [OF assms this] show ?thesis
      using assms by (simp add: lru_choice_def fhc_inv_def)
  qed
  with None show ?thesis by (simp add: fhc_slot_def)
next
  case (Some i)
  with assms show ?thesis
    by (auto simp: fhc_slot_def fh_cache_index_def fhc_inv_def dest!: find_idx_SomeD(1))
qed

lemma unfs3_cache_overwrite:
  "(e :: unfs3_cache)\<lparr>c_dev := d, c_ino := i, c_use := u, c_path := p\<rparr> =
     \<lparr>c_dev = d, c_ino = i, c_path = p, c_use = u\<rparr>"
  by (cases e) simp

lemma fh_cache_add_eq:
  assumes "fhc_inv s"
  shows "fh_cache_add dev ino p s =
    (p, s\<lparr>fh_cache_max := fhc_max' dev ino s, fh_cache_time := fh_cache_time s + 1,
          fh_cache := (fh_cache s)[fhc_slot dev ino s :=
            \<lparr>c_dev = dev, c_ino = ino, c_path = p, c_use = fh_cache_time s + 1\<rparr>]\<rparr>)"
proof -
  have len: "fhc_slot dev ino s < length (fh_cache s)"
    using fhc_slot_bound [OF assms] assms by (simp add: fhc_inv_def)
  have "(case fh_cache_index dev ino s of None \<Rightarrow> fh_cache_lru s | Some idx \<Rightarrow> (idx, s)) =
    (fhc_slot dev ino s, s\<lparr>fh_cache_max := fhc_max' dev ino s\<rparr>)"
    by (auto simp: fhc_slot_def fhc_max'_def fh_cache_lru_def split: option.splits)
  with len show ?thesis
    by (simp add: fh_cache_add_def fh_cache_next_def Let_def unfs3_cache_overwrite)
qed

lemma fhc_slot_key:
  assumes "fhc_inv s" and "c_key (fh_cache s ! j) = (dev, ino)" and "j < CACHE_ENTRIES"
    and "(dev, ino) \<noteq> (0, 0)"
  shows "fhc_slot dev ino s = j"
  using fh_cache_index_iff [OF assms(1,4), of j] assms by (simp add: fhc_slot_def)

lemma fhc_slot_le_max:
  assumes "fhc_inv s" and "fhc_max' dev ino s < CACHE_ENTRIES - 1" and "(dev, ino) \<noteq> (0, 0)"
  shows "fhc_slot dev ino s < fhc_max' dev ino s"
proof (cases "fh_cache_index dev ino s")
  case None
  with assms(2) show ?thesis
    by (auto simp: fhc_slot_def fhc_max'_def fh_cache_lru_def split: if_splits)
next
  case (Some i)
  then have "i < CACHE_ENTRIES" "c_key (fh_cache s ! i) = (dev, ino)"
    using fh_cache_index_iff [OF assms(1,3)] by auto
  with assms Some show ?thesis
    by (auto simp: fhc_slot_def fhc_max'_def fhc_inv_def intro: ccontr)
qed

lemma fh_cache_add_inv:
  assumes inv: "fhc_inv s"
  shows "fhc_inv (snd (fh_cache_add dev ino p s))"
proof -
  let ?i = "fhc_slot dev ino s" and ?m = "fhc_max' dev ino s"
  let ?e = "\<lparr>c_dev = dev, c_ino = ino, c_path = p, c_use = fh_cache_time s + 1\<rparr>"
  let ?c = "(fh_cache s)[?i := ?e]"
  have i: "?i < CACHE_ENTRIES" by (rule fhc_slot_bound [OF inv])
  have len: "length (fh_cache s) = CACHE_ENTRIES" using inv by (simp add: fhc_inv_def)
  have nth: "?c ! j = (if j = ?i then ?e else fh_cache s ! j)" if "j < CACHE_ENTRIES" for j
    using that i len by (simp add: nth_list_update)
  have m: "?m < CACHE_ENTRIES" "fh_cache_max s \<le> ?m" using inv by (auto simp: fhc_max'_def fhc_inv_def)
  have "c_key (?c ! j) = (0, 0)" if "?m < CACHE_ENTRIES - 1" "j < CACHE_ENTRIES" "?m \<le> j" for j
  proof (cases "j = ?i")
    case True
    with fhc_slot_le_max [OF inv that(1)] that(3) have "(dev, ino) = (0, 0)" by fastforce
    with True nth [OF that(2)] show ?thesis by (simp add: c_key_def)
  next
    case False
    then show ?thesis using inv that m(2) nth [OF that(2)] by (simp add: fhc_inv_def)
  qed
  moreover have "j = k" if jk: "j < CACHE_ENTRIES" "k < CACHE_ENTRIES"
    "c_key (?c ! j) = c_key (?c ! k)" "c_key (?c ! j) \<noteq> (0, 0)" for j k
  proof -
    have *: "l = ?i" if "l < CACHE_ENTRIES" "c_key (fh_cache s ! l) = (dev, ino)"
      "(dev, ino) \<noteq> (0, 0)" for l
      using fhc_slot_key [OF inv that(2,1,3)] by simp
    have e: "c_key ?e = (dev, ino)" by (simp add: c_key_def)
    have "j = k" if "j \<noteq> ?i" "k \<noteq> ?i"
      using fhc_invD(4) [OF inv jk(1,2)] jk(3,4) that by (simp add: nth [OF jk(1)] nth [OF jk(2)])
    moreover have "k = ?i" if "j = ?i"
      using jk(3,4) that * [OF jk(2)] e
      by (cases "k = ?i") (auto simp: nth [OF i] nth [OF jk(2)])
    moreover have "j = ?i" if "k = ?i"
      using jk(3,4) that * [OF jk(1)] e
      by (cases "j = ?i") (auto simp: nth [OF i] nth [OF jk(1)])
    ultimately show ?thesis by blast
  qed
  ultimately show ?thesis
    using len m(1) unfolding fhc_inv_def fh_cache_add_eq [OF inv] by simp
qed

text \<open>What the cache holds afterwards: the new path, and all that was there but for the slot's key.\<close>

lemma fh_cache_add_abs:
  assumes inv: "fhc_inv s" and k: "(dev, ino) \<noteq> (0, 0)"
  shows "fhc_abs (snd (fh_cache_add dev ino p s)) =
    (fhc_abs s)(c_key (fh_cache s ! fhc_slot dev ino s) := None, (dev, ino) \<mapsto> p)"
proof
  fix x
  let ?i = "fhc_slot dev ino s" and ?s = "snd (fh_cache_add dev ino p s)"
  let ?e = "\<lparr>c_dev = dev, c_ino = ino, c_path = p, c_use = fh_cache_time s + 1\<rparr>"
  have i: "?i < CACHE_ENTRIES" by (rule fhc_slot_bound [OF inv])
  have c: "fh_cache ?s = (fh_cache s)[?i := ?e]" by (simp add: fh_cache_add_eq [OF inv])
  have nth: "fh_cache ?s ! j = (if j = ?i then ?e else fh_cache s ! j)" if "j < CACHE_ENTRIES" for j
    using that i fhc_invD(1) [OF inv] c by (simp add: nth_list_update)
  have inv': "fhc_inv ?s" by (rule fh_cache_add_inv [OF inv])
  have e: "c_key ?e = (dev, ino)" "c_path ?e = p" by (simp_all add: c_key_def)
  show "fhc_abs ?s x = ((fhc_abs s)(c_key (fh_cache s ! ?i) := None, (dev, ino) \<mapsto> p)) x"
  proof (cases "x = (dev, ino)")
    case True
    have "fhc_abs ?s x = Some p"
      unfolding fhc_abs_Some_iff [OF inv'] True using k i e nth [OF i] by auto
    with True show ?thesis by simp
  next
    case False
    have "fhc_abs ?s x = Some q \<longleftrightarrow> x \<noteq> c_key (fh_cache s ! ?i) \<and> fhc_abs s x = Some q" for q
      unfolding fhc_abs_Some_iff [OF inv'] fhc_abs_Some_iff [OF inv]
    proof (intro iffI conjI; elim conjE exE)
      fix j
      assume j: "x \<noteq> (0, 0)" "j < CACHE_ENTRIES" "c_key (fh_cache ?s ! j) = x" "c_path (fh_cache ?s ! j) = q"
      from j False e have ji: "j \<noteq> ?i" by (auto simp: nth)
      with j fhc_invD(4) [OF inv j(2) i] show "x \<noteq> c_key (fh_cache s ! ?i)" by (auto simp: nth)
      show "x \<noteq> (0, 0)" by fact
      from j ji show "\<exists>i<CACHE_ENTRIES. c_key (fh_cache s ! i) = x \<and> c_path (fh_cache s ! i) = q"
        by (auto simp: nth)
    next
      fix j
      assume j: "x \<noteq> c_key (fh_cache s ! ?i)" "x \<noteq> (0, 0)" "j < CACHE_ENTRIES"
        "c_key (fh_cache s ! j) = x" "c_path (fh_cache s ! j) = q"
      show "x \<noteq> (0, 0)" by fact
      from j have "j \<noteq> ?i" by auto
      with nth [OF j(3)] have "fh_cache ?s ! j = fh_cache s ! j" by presburger
      then have "c_key (fh_cache ?s ! j) = x \<and> c_path (fh_cache ?s ! j) = q"
        using j(4,5) by (simp only:)
      with j(3) show "\<exists>i<CACHE_ENTRIES. c_key (fh_cache ?s ! i) = x \<and> c_path (fh_cache ?s ! i) = q"
        by blast
    qed
    then have "fhc_abs ?s x = (if x \<noteq> c_key (fh_cache s ! ?i) then fhc_abs s x else None)"
      by (rule option_restrictI)
    with False show ?thesis by simp
  qed
qed

subsection \<open>The contract of a cache that may forget\<close>

text \<open>
  What the clients of the cache rely on: an entry just added is there, and adding an entry
  never makes up another one. It follows that after any sequence of additions the cache agrees
  with the last path added for each object it still knows.
\<close>

locale lossy_cache =
  fixes inv :: "'s \<Rightarrow> bool" and abs :: "'s \<Rightarrow> 'k \<Rightarrow> 'v option"
    and add :: "'k \<Rightarrow> 'v \<Rightarrow> 's \<Rightarrow> 's" and ok :: "'k \<Rightarrow> bool"
  assumes add_inv: "inv s \<Longrightarrow> ok k \<Longrightarrow> inv (add k v s)"
    and add_same: "inv s \<Longrightarrow> ok k \<Longrightarrow> abs (add k v s) k = Some v"
    and add_other: "inv s \<Longrightarrow> ok k \<Longrightarrow> k' \<noteq> k \<Longrightarrow>
      abs (add k v s) k' = abs s k' \<or> abs (add k v s) k' = None"
begin

definition adds :: "('k \<times> 'v) list \<Rightarrow> 's \<Rightarrow> 's" where
  "adds ops s = fold (\<lambda>(k, v). add k v) ops s"

lemma adds_inv: "inv s \<Longrightarrow> \<forall>(k, v)\<in>set ops. ok k \<Longrightarrow> inv (adds ops s)"
  by (induction ops arbitrary: s) (auto simp: adds_def add_inv)

lemma add_le: "inv s \<Longrightarrow> ok k \<Longrightarrow> abs (add k v s) \<subseteq>\<^sub>m (abs s)(k \<mapsto> v)"
  using add_same [of s k v] add_other [of s k _ v] by (fastforce simp: map_le_def)

lemma adds_le:
  "inv s \<Longrightarrow> \<forall>(k, v)\<in>set ops. ok k \<Longrightarrow> abs (adds ops s) \<subseteq>\<^sub>m abs s ++ map_of (rev ops)"
proof (induction ops arbitrary: s)
  case Nil
  then show ?case by (simp add: adds_def)
next
  case (Cons x ops)
  obtain k v where x: "x = (k, v)" by fastforce
  with Cons.prems have ok: "ok k" and inv: "inv (add k v s)" by (auto simp: add_inv)
  have "abs (adds ops (add k v s)) \<subseteq>\<^sub>m abs (add k v s) ++ map_of (rev ops)"
    using Cons inv by auto
  also have "\<dots> \<subseteq>\<^sub>m (abs s)(k \<mapsto> v) ++ map_of (rev ops)"
    using add_le [OF Cons.prems(1) ok, of v] by (auto simp: map_le_def map_add_def dom_def split: option.splits if_splits)
  also have "(abs s)(k \<mapsto> v) ++ map_of (rev ops) = abs s ++ map_of (rev (x # ops))"
    by (simp add: x map_add_assoc [symmetric])
  finally show ?case by (simp add: adds_def x)
qed

end

interpretation fh_map: lossy_cache fhc_inv fhc_abs
  "\<lambda>k p s. snd (fh_cache_add (fst k) (snd k) p s)" "\<lambda>k. k \<noteq> (0, 0)"
proof
  fix s :: "('a, 'b) fhc_scheme" and k k' :: "uint32 \<times> uint64" and v :: path
  assume inv: "fhc_inv s"
  show "fhc_inv (snd (fh_cache_add (fst k) (snd k) v s))" by (rule fh_cache_add_inv [OF inv])
  assume "k \<noteq> (0, 0)"
  then have k: "(fst k, snd k) \<noteq> (0, 0)" by simp
  note abs = fh_cache_add_abs [OF inv k, of v]
  show "fhc_abs (snd (fh_cache_add (fst k) (snd k) v s)) k = Some v"
    unfolding abs by simp
  assume "k' \<noteq> k"
  then show "fhc_abs (snd (fh_cache_add (fst k) (snd k) v s)) k' = fhc_abs s k' \<or>
    fhc_abs (snd (fh_cache_add (fst k) (snd k) v s)) k' = None"
    unfolding abs by auto
qed

subsection \<open>Looking up an entry\<close>

text \<open>An entry may be cleared, or keep its object and change its other fields.\<close>

lemma fhc_inv_update:
  assumes "fhc_inv s" and "c_key e = c_key (fh_cache s ! i) \<or> c_key e = (0, 0)"
  shows "fhc_inv (s\<lparr>fh_cache := (fh_cache s)[i := e]\<rparr>)"
proof -
  let ?c = "(fh_cache s)[i := e]"
  have key: "c_key (?c ! j) = c_key (fh_cache s ! j) \<or> c_key (?c ! j) = (0, 0)" for j
  proof (cases "i < length (fh_cache s) \<and> i = j")
    case True
    then show ?thesis using assms(2) by auto
  next
    case False
    then show ?thesis by (metis list_update_beyond nth_list_update_neq not_le)
  qed
  have "c_key (?c ! j) = (0, 0)" if "fh_cache_max s < CACHE_ENTRIES - 1" "j < CACHE_ENTRIES" "fh_cache_max s \<le> j" for j
    using key [of j] fhc_invD(3) [OF assms(1) that] by auto
  moreover have "j = k" if "j < CACHE_ENTRIES" "k < CACHE_ENTRIES" "c_key (?c ! j) = c_key (?c ! k)"
    "c_key (?c ! j) \<noteq> (0, 0)" for j k
    using key [of j] key [of k] fhc_invD(4) [OF assms(1) that(1,2)] that(3,4) by auto
  ultimately show ?thesis
    using fhc_invD(1,2) [OF assms(1)] unfolding fhc_inv_def by simp
qed

lemma fhc_cong:
  assumes "fh_cache s' = fh_cache s" and "fh_cache_max s' = fh_cache_max s"
  shows "fhc_inv s' = fhc_inv s" "fhc_abs s' = fhc_abs s" "fh_cache_index dev ino s' = fh_cache_index dev ino s"
  using assms unfolding fhc_inv_def fhc_abs_def [abs_def] fh_cache_index_def by (simp_all cong: if_cong)

lemma fh_cache_inval_inv: "fhc_inv s \<Longrightarrow> fhc_inv (fh_cache_inval i s)"
  unfolding fh_cache_inval_def by (rule fhc_inv_update) (simp_all add: c_key_def)

lemma sys_only_fhc:
  assumes "sys_only s (s' :: ('w, 'z) fhc_scheme)"
  shows "fh_cache s' = fh_cache s" "fh_cache_max s' = fh_cache_max s"
    "fh_cache_time s' = fh_cache_time s" "fh_last_entry s' = fh_last_entry s"
  using assms by (auto elim!: sys_onlyE)

lemma fh_cache_lookup_cases:
  assumes "fhc_inv s" and "fh_cache_lookup os dev ino s = (r, s')"
  obtains (absent) "fh_cache_index dev ino s = None" "r = None" "s' = s"
  | (stale) i s1 where "fh_cache_index dev ino s = Some i" "sys_only s s1" "r = None"
      "s' = fh_cache_inval i s1"
  | (hit) i s1 buf where "fh_cache_index dev ino s = Some i"
      "backend_lstat os (c_path (fh_cache s ! i)) s = (Some buf, s1)"
      "st_dev buf = ucast dev" "st_ino buf = ino" "r = Some (c_path (fh_cache s ! i))"
      "s' = s1\<lparr>fh_cache_time := fh_cache_time s + 1,
              fh_cache := (fh_cache s)[i := (fh_cache s ! i)\<lparr>c_use := fh_cache_time s + 1\<rparr>],
              st_cache_valid := True, st_cache := buf, fh_last_entry := int i\<rparr>"
proof (cases "fh_cache_index dev ino s")
  case None
  with assms(2) show thesis by (intro that(1)) (simp_all add: fh_cache_lookup_def)
next
  case (Some i)
  have i: "i < length (fh_cache s)"
    using Some fhc_invD(1) [OF assms(1)]
    by (auto simp: fh_cache_index_def dest: find_idx_SomeD(1))
  obtain b s1 where ls: "backend_lstat os (c_path (fh_cache s ! i)) s = (b, s1)" by fastforce
  then have only: "sys_only s s1" by (rule backend_only)
  note f = sys_only_fhc [OF only]
  show thesis
  proof (cases "\<exists>buf. b = Some buf \<and> st_dev buf = ucast dev \<and> st_ino buf = ino")
    case True
    then obtain buf where buf: "b = Some buf" "st_dev buf = ucast dev" "st_ino buf = ino" by blast
    with assms(2) Some ls i show thesis
      by (intro that(3) [of i buf s1])
        (auto simp: fh_cache_lookup_def fh_cache_next_def Let_def f)
  next
    case False
    with assms(2) Some ls only show thesis
      by (intro that(2) [of i s1])
        (auto simp: fh_cache_lookup_def split: option.splits if_splits)
  qed
qed

lemma fh_cache_lookup_inv:
  assumes inv: "fhc_inv s" and "fh_cache_lookup os dev ino s = (r, s')"
  shows "fhc_inv s'"
  using assms
proof (cases rule: fh_cache_lookup_cases)
  case absent
  with inv show ?thesis by simp
next
  case (stale i s1)
  have "fhc_inv s1" using inv fhc_cong(1) [OF sys_only_fhc(1,2) [OF stale(2)]] by simp
  with stale(4) show ?thesis by (simp add: fh_cache_inval_inv)
next
  case (hit i s1 buf)
  have only: "sys_only s s1" using hit(2) by (rule backend_only)
  let ?e = "(fh_cache s ! i)\<lparr>c_use := fh_cache_time s + 1\<rparr>"
  have "fhc_inv (s\<lparr>fh_cache := (fh_cache s)[i := ?e]\<rparr>)"
    by (rule fhc_inv_update [OF inv]) (simp add: c_key_def)
  moreover have "fhc_inv s' = fhc_inv (s\<lparr>fh_cache := (fh_cache s)[i := ?e]\<rparr>)"
    by (rule fhc_cong) (simp_all add: hit(6) sys_only_fhc [OF only])
  ultimately show ?thesis by simp
qed

text \<open>
  A hit comes with a fresh confirmation from the file system, and from the entry for the object.
\<close>

lemma fh_cache_lookup_hit:
  assumes inv: "fhc_inv s" and "fh_cache_lookup os dev ino s = (Some p, s')"
  obtains i buf t where "fh_cache_index dev ino s = Some i" "p = c_path (fh_cache s ! i)"
    "backend_lstat os p s = (Some buf, t)" "st_dev buf = ucast dev" "st_ino buf = ino"
    "st_cache_valid s'" "st_cache s' = buf" "fh_last_entry s' = int i"
    "c_path (fh_cache s' ! i) = p" "i < CACHE_ENTRIES"
  using assms
proof (cases rule: fh_cache_lookup_cases)
  case (hit i s1 buf)
  have "i < CACHE_ENTRIES"
    using hit(1) fhc_invD(1) [OF inv] by (auto simp: fh_cache_index_def dest: find_idx_SomeD(1))
  with hit fhc_invD(1) [OF inv] show thesis by (intro that [of i buf s1]) simp_all
qed simp_all

subsection \<open>The entry last returned is not overwritten\<close>

lemma fhc_slot_ne_last:
  assumes inv: "fhc_inv s" and i: "i < CACHE_ENTRIES" "int i = fh_last_entry s"
    and key: "c_key (fh_cache s ! i) \<noteq> (0, 0)" "c_key (fh_cache s ! i) \<noteq> (dev, ino)"
  shows "fhc_slot dev ino s \<noteq> i"
proof (cases "fh_cache_index dev ino s")
  case None
  show ?thesis
  proof (cases "fh_cache_max s < CACHE_ENTRIES - 1")
    case True
    with fhc_invD(3) [OF inv True i(1)] key(1) None show ?thesis
      by (auto simp: fhc_slot_def fh_cache_lru_def)
  next
    case False
    with fhc_invD(2) [OF inv] have "fh_cache_max s = CACHE_ENTRIES - 1" by simp
    from fh_cache_lru_full(2) [OF inv this] i(2) None show ?thesis
      by (auto simp: fhc_slot_def lru_choice_def)
  qed
next
  case (Some j)
  then have "c_key (fh_cache s ! j) = (dev, ino)"
    using find_idx_SomeD(1,2) [OF Some [unfolded fh_cache_index_def]] by (simp add: c_key_def)
  with Some key(2) show ?thesis by (auto simp: fhc_slot_def)
qed

lemma fh_cache_add_keeps:
  assumes "fhc_inv s" "i < CACHE_ENTRIES" "int i = fh_last_entry s"
    "c_key (fh_cache s ! i) \<noteq> (0, 0)" "c_key (fh_cache s ! i) \<noteq> (dev, ino)"
  shows "fh_cache (snd (fh_cache_add dev ino p s)) ! i = fh_cache s ! i"
  using fhc_slot_ne_last [OF assms] by (simp add: fh_cache_add_eq [OF assms(1)])

subsection \<open>What the handle functions leave of the cache\<close>

lemma exports_options_loop_more:
  "exports_options_loop p r its n pw fsid s = (pw', fsid', s') \<Longrightarrow> expo.more s' = expo.more s"
  by (induction its arbitrary: n pw fsid s) (auto split: option.splits if_splits)

lemma exports_options_more: "exports_options po req s = (o', pw, fsid, s') \<Longrightarrow> expo.more s' = expo.more s"
  by (auto simp: exports_options_def Let_def split: option.splits if_splits prod.splits
      dest!: exports_options_loop_more)

lemma fhs_more_expo:
  "expo.more s' = expo.more s \<Longrightarrow> fhs.more s' = fhs.more (s :: ('w, 'z) fhs_scheme)"
  by (cases s; cases s') simp

lemma fhs_more_stat_only: "stat_only s s' \<Longrightarrow> fhs.more s' = fhs.more s"
  by (auto elim!: stat_onlyE)

lemma fhs_more_fhc:
  assumes "fhs.more s' = fhs.more (s :: ('w, 'z) fhc_scheme)"
  shows "fh_cache s' = fh_cache s" "fh_cache_max s' = fh_cache_max s"
    "fh_cache_time s' = fh_cache_time s" "fh_last_entry s' = fh_last_entry s"
  using assms by (cases s; cases s'; simp)+

lemma fhs_more_inv: "fhs.more s' = fhs.more s \<Longrightarrow> fhc_inv s' = fhc_inv s"
  by (rule fhc_cong(1)) (rule fhs_more_fhc, assumption)+

lemma fh_comp_loop_stat_only: "fh_comp_loop os pre rest inos s = (r, s') \<Longrightarrow> stat_only s s'"
proof (induction os pre rest inos s arbitrary: r s' rule: fh_comp_loop.induct)
  case (1 os pre rest inos s)
  let ?comp = "takeWhile (\<lambda>c. c \<noteq> CHR ''/'') rest"
  obtain b s1 where ls: "backend_lstat os (pre @ ?comp) s = (b, s1)" by fastforce
  then have s1: "stat_only s s1" by (rule backend_lstat_stat_only)
  show ?case
  proof (cases b)
    case None
    with "1.prems" ls s1 show ?thesis by (simp add: fh_comp_loop.simps [of os pre rest] Let_def)
  next
    case (Some buf)
    let ?after = "dropWhile (\<lambda>c. c \<noteq> CHR ''/'') rest" and ?inos = "inos @ [FH_HASH (st_ino buf)]"
    show ?thesis
    proof (cases "?after \<noteq> [] \<and> length ?inos < FH_MAXLEN")
      case True
      then have a: "?after \<noteq> []" and l: "length ?inos < FH_MAXLEN" by blast+
      with "1.prems" ls Some
      have "fh_comp_loop os (pre @ ?comp @ ''/'') (tl ?after) ?inos s1 = (r, s')"
        by (simp add: fh_comp_loop.simps [of os pre rest] Let_def del: dropWhile_eq_Nil_conv)
      with "1.IH" [OF refl refl ls [symmetric] Some refl a l] show ?thesis
        by (blast intro: stat_only_trans [OF s1])
    next
      case False
      with "1.prems" ls Some s1 show ?thesis
        by (auto simp: fh_comp_loop.simps [of os pre rest] Let_def simp del: dropWhile_eq_Nil_conv
            split: if_splits)
    qed
  qed
qed

lemma fh_comp_raw_more:
  "fh_comp_raw os p rq nd s = (fh, s') \<Longrightarrow> fhs.more s' = fhs.more s"
proof -
  assume eq: "fh_comp_raw os p rq nd s = (fh, s')"
  have opt: "fhs.more t' = fhs.more t" if "exports_options po req t = (a, b, c, t')"
    for po req a b c and t t' :: "('a, 'b) fhs_scheme"
    using exports_options_more [OF that] by (rule fhs_more_expo)
  have ls: "fhs.more t' = fhs.more t" if "backend_lstat os q t = (r, t')"
    for q r and t t' :: "('a, 'b) fhs_scheme"
    using backend_lstat_stat_only [OF that] by (rule fhs_more_stat_only)
  have lp: "fhs.more t' = fhs.more t" if "fh_comp_loop os ''/'' q [] t = (r, t')"
    for q r and t t' :: "('a, 'b) fhs_scheme"
    using fh_comp_loop_stat_only [OF that] by (rule fhs_more_stat_only)
  show ?thesis
    using eq unfolding fh_comp_raw_def Let_def
    by (auto split: option.splits if_splits prod.splits dest!: opt ls lp)
qed

lemma fh_decomp_raw_stat_only: "fh_decomp_raw os junk fh s = (r, s') \<Longrightarrow> stat_only s s'"
  using fh_rec_stat_only(1) [of s os junk fh "fh_inos fh" "''/''"]
  by (auto simp: fh_decomp_raw_def split: if_splits)

lemma fh_decomp_inv:
  assumes inv: "fhc_inv s" and eq: "fh_decomp os junk fh s = (r, s')"
  shows "fhc_inv s'"
proof -
  note frame = fhs_more_inv [OF fhs_more_stat_only]
  have raw: "fhc_inv t' = fhc_inv t" if "fh_decomp_raw os junk h t = (q, t')"
    for h q and t t' :: "('a, 'b) fhc_scheme"
    using fh_decomp_raw_stat_only [OF that] by (rule frame)
  have loc: "fhc_inv t' = fhc_inv t" if "locate_file os d i t = (q, t')"
    for d i q and t t' :: "('a, 'b) fhc_scheme"
    using locate_file_stat_only [OF that] by (rule frame)
  have add: "fhc_inv t'" if "fh_cache_add d i q t = (q', t')" "fhc_inv t"
    for d i q q' and t t' :: "('a, 'b) fhc_scheme"
    using fh_cache_add_inv [OF that(2), of d i q] that(1) by simp
  have upd: "fhc_inv (t\<lparr>fh_cache_use := n\<rparr>) = fhc_inv t" "fhc_inv (t\<lparr>fh_cache_hit := n\<rparr>) = fhc_inv t"
    "fhc_inv (t\<lparr>st_cache_valid := v\<rparr>) = fhc_inv t" "fhc_inv (t\<lparr>st_cache_valid := v, st_cache := c\<rparr>) = fhc_inv t"
    for t :: "('a, 'b) fhc_scheme" and n v c
    by (rule fhc_cong; simp)+
  show ?thesis
    using eq inv unfolding fh_decomp_def Let_def
    by (auto split: option.splits if_splits prod.splits simp: upd
        dest!: fh_cache_lookup_inv [OF inv] raw loc add)
qed

lemma fh_comp_inv:
  assumes inv: "fhc_inv s" and eq: "fh_comp os p rq nd s = (fh, s')"
  shows "fhc_inv s'"
proof -
  obtain res s1 where raw: "fh_comp_raw os p rq nd s = (res, s1)" by fastforce
  have "fhc_inv s1" using inv fhs_more_inv [OF fh_comp_raw_more [OF raw]] by simp
  with eq raw fh_cache_add_inv [of s1] show ?thesis
    by (auto simp: fh_comp_def Let_def split: if_splits)
qed

subsection \<open>Resolution through the cache is sound\<close>

lemma fh_cache_add_frame:
  assumes "fhc_inv s" and "fh_cache_add dev ino p s = (q, s')"
  shows "q = p" "st_cache_valid s' = st_cache_valid s" "st_cache s' = st_cache s"
  using assms by (auto simp: fh_cache_add_eq)

text \<open>
  A handle resolves to an export point it names, to the root directory where it carries no path,
  or to a path at which \<open>lstat\<close> found the handle's device and inode.
\<close>

lemma fh_decomp_sound:
  assumes inv: "fhc_inv (s :: ('w, 'z) fhc_scheme)" and eq: "fh_decomp os junk fh s = (Some p, s')"
    and Q: "\<And>obj (t :: ('w, 'z) fhc_scheme) b t'. backend_lstat os obj t = (Some b, t') \<Longrightarrow> Q obj b"
  defines "obj \<equiv> fh_cast fh"
  shows "nfh_valid fh \<and>
    (export_point_from_fsid (fh_dev obj) s = Some p \<and> fh_ino obj = 1 \<or>
     fh_inos obj = [] \<and> p = ''/'' \<or>
     st_cache_valid s' \<and> same_object obj (st_cache s') \<and>
       (fh_valid obj \<longrightarrow> Q p (st_cache s') \<or> Q (CHR ''/'' # p) (st_cache s')))"
proof -
  let ?case = "nfh_valid fh \<and>
    (export_point_from_fsid (fh_dev obj) s = Some p \<and> fh_ino obj = 1 \<or>
     fh_inos obj = [] \<and> p = ''/'' \<or>
     st_cache_valid s' \<and> same_object obj (st_cache s') \<and>
       (fh_valid obj \<longrightarrow> Q p (st_cache s') \<or> Q (CHR ''/'' # p) (st_cache s')))"
  from eq have valid: "nfh_valid fh" by (auto simp: fh_decomp_def Let_def split: if_splits)
  obtain r1 s1 where lk: "fh_cache_lookup os (fh_dev obj) (fh_ino obj) s = (r1, s1)" by fastforce
  have inv1: "fhc_inv s1" by (rule fh_cache_lookup_inv [OF inv lk])
  let ?s1 = "s1\<lparr>fh_cache_use := fh_cache_use s1 + 1\<rparr>"
  obtain r2 s2 where rw: "fh_decomp_raw os junk obj ?s1 = (r2, s2)" by fastforce
  obtain r3 s3 where lc: "locate_file os (fh_dev obj) (fh_ino obj) s2 = (r3, s3)" by fastforce
  have inv2: "fhc_inv s2"
    using inv1 fhs_more_inv [OF fhs_more_stat_only [OF fh_decomp_raw_stat_only [OF rw]]]
      fhc_cong(1) [of ?s1 s1] by simp
  then have inv3: "fhc_inv s3"
    using fhs_more_inv [OF fhs_more_stat_only [OF locate_file_stat_only [OF lc]]] by simp
  consider (ex) "export_point_from_fsid (fh_dev obj) s = Some p" "fh_ino obj = 1"
    | (hit) "r1 = Some p" "s' = ?s1\<lparr>fh_cache_hit := fh_cache_hit ?s1 + 1\<rparr>"
    | (raw) "r1 = None" "r2 = Some p" "fh_cache_add (fh_dev obj) (fh_ino obj) p s2 = (p, s')"
    | (loc) "r1 = None" "r2 = None" "r3 = Some p" "fh_cache_add (fh_dev obj) (fh_ino obj) p s3 = (p, s')"
    using eq valid
    by (auto simp: fh_decomp_def Let_def obj_def [symmetric] lk rw lc
        fh_cache_add_eq [OF inv2] fh_cache_add_eq [OF inv3] split: if_splits option.splits)
  then show ?case
  proof cases
    case ex
    with valid show ?thesis by blast
  next
    case hit
    with lk have "fh_cache_lookup os (fh_dev obj) (fh_ino obj) s = (Some p, s1)" by simp
    then obtain buf t where ls: "backend_lstat os p s = (Some buf, t)" "st_dev buf = ucast (fh_dev obj)"
      "st_ino buf = fh_ino obj" "st_cache_valid s1" "st_cache s1 = buf"
      by (rule fh_cache_lookup_hit [OF inv])
    with Q [OF ls(1)] hit(2) valid show ?thesis by (simp add: same_object_def)
  next
    case raw
    with fh_cache_add_frame [OF inv2 raw(3)] have same: "st_cache_valid s' = st_cache_valid s2"
      "st_cache s' = st_cache s2" by auto
    show ?thesis
    proof (cases "fh_inos obj = []")
      case True
      with rw raw(2) valid show ?thesis
        by (auto simp: fh_decomp_raw_def)
    next
      case False
      with rw raw(2)
      have "fh_rec os junk obj (fh_inos obj) ''/'' ?s1 = (Some p, s2)" by (simp add: fh_decomp_raw_def)
      then have "found obj Q p s2" by (intro fh_rec_sound(1) [where Q = Q]) (auto intro: Q)
      with same valid show ?thesis by (auto simp: found_def)
    qed
  next
    case loc
    with fh_cache_add_frame [OF inv3 loc(4)] have same: "st_cache_valid s' = st_cache_valid s3"
      "st_cache s' = st_cache s3" by auto
    have "located (fh_dev obj) (fh_ino obj) Q p s3"
      using lc loc(3)
      by (auto simp: locate_file_def split: if_splits option.splits prod.splits
          intro!: locate_sound(1) [where Q = Q] Q)
    with same valid show ?thesis by (auto simp: located_def same_object_def)
  qed
qed

subsection \<open>What the handle cache leaves alone\<close>

text \<open>\<open>fhc_only s s'\<close>: only the world, the error number, the stat cache and the fields of this
  component differ.\<close>

definition fhc_only :: "('w, 'z) fhc_scheme \<Rightarrow> ('w, 'z) fhc_scheme \<Rightarrow> bool" where
  "fhc_only s s' \<longleftrightarrow>
     s' = s\<lparr>world := world s', errno := errno s', st_cache_valid := st_cache_valid s',
            st_cache := st_cache s', fh_cache := fh_cache s', fh_cache_max := fh_cache_max s',
            fh_cache_use := fh_cache_use s', fh_cache_hit := fh_cache_hit s',
            fh_cache_time := fh_cache_time s', fh_last_entry := fh_last_entry s'\<rparr>"

lemma fhc_onlyI:
  "s' = s\<lparr>world := w, errno := e, st_cache_valid := v, st_cache := c, fh_cache := fc,
          fh_cache_max := m, fh_cache_use := u, fh_cache_hit := h, fh_cache_time := t,
          fh_last_entry := l\<rparr> \<Longrightarrow> fhc_only s s'"
  by (simp add: fhc_only_def)

lemma fhc_onlyE:
  assumes "fhc_only s s'"
  obtains w e v c fc m u h t l where
    "s' = s\<lparr>world := w, errno := e, st_cache_valid := v, st_cache := c, fh_cache := fc,
            fh_cache_max := m, fh_cache_use := u, fh_cache_hit := h, fh_cache_time := t,
            fh_last_entry := l\<rparr>"
  using assms by (auto simp: fhc_only_def)

lemma fhc_only_refl [simp, intro]: "fhc_only s s"
  by (simp add: fhc_only_def)

lemma fhc_only_trans [trans]: "fhc_only s s' \<Longrightarrow> fhc_only s' s'' \<Longrightarrow> fhc_only s s''"
  by (erule fhc_onlyE, erule fhc_onlyE, rule fhc_onlyI) simp

lemma stat_only_fhc_only: "stat_only s s' \<Longrightarrow> fhc_only s s'"
  by (erule stat_onlyE) (simp add: fhc_only_def)

lemma fh_cache_add_only: "fh_cache_add dev ino p s = (q, s') \<Longrightarrow> fhc_only s s'"
  by (auto simp: fh_cache_add_def fh_cache_lru_def fh_cache_next_def Let_def fhc_only_def
      split: option.splits if_splits)

lemma fh_cache_lookup_only: "fh_cache_lookup os dev ino s = (r, s') \<Longrightarrow> fhc_only s s'"
  by (auto simp: fh_cache_lookup_def fh_cache_inval_def fh_cache_next_def Let_def
      split: option.splits if_splits prod.splits dest!: backend_lstat_stat_only stat_only_fhc_only
      elim!: fhc_only_trans) (simp_all add: fhc_only_def)

lemma fh_decomp_only:
  assumes "fh_decomp os junk fh s = (r, s')"
  shows "fhc_only s s'"
proof -
  have upd: "fhc_only t (t'\<lparr>fh_cache_use := n\<rparr>)" "fhc_only t (t'\<lparr>fh_cache_hit := n\<rparr>)"
    "fhc_only t (t'\<lparr>st_cache_valid := v\<rparr>)" "fhc_only t (t'\<lparr>st_cache_valid := v, st_cache := c\<rparr>)"
    if "fhc_only t t'" for t t' :: "('a, 'b) fhc_scheme" and n v c
    using that by (elim fhc_onlyE, simp add: fhc_only_def)+
  let ?d = "fh_dev (fh_cast fh)" and ?i = "fh_ino (fh_cast fh)"
  obtain r1 s1 where lk: "fh_cache_lookup os ?d ?i s = (r1, s1)" by fastforce
  let ?s1 = "s1\<lparr>fh_cache_use := fh_cache_use s1 + 1\<rparr>"
  obtain r2 s2 where rw: "fh_decomp_raw os junk (fh_cast fh) ?s1 = (r2, s2)" by fastforce
  obtain r3 s3 where lc: "locate_file os ?d ?i s2 = (r3, s3)" by fastforce
  have o1: "fhc_only s ?s1" using fh_cache_lookup_only [OF lk] by (rule upd)
  have o2: "fhc_only s s2"
    using o1 stat_only_fhc_only [OF fh_decomp_raw_stat_only [OF rw]] by (rule fhc_only_trans)
  have o3: "fhc_only s s3"
    using o2 stat_only_fhc_only [OF locate_file_stat_only [OF lc]] by (rule fhc_only_trans)
  have add: "fhc_only s t'" if "fh_cache_add ?d ?i q t = (q', t')" "fhc_only s t" for q q' t t'
    using fh_cache_add_only [OF that(1)] that(2) by (blast intro: fhc_only_trans)
  show ?thesis
    using assms upd [OF fhc_only_refl] upd [OF o1] upd [OF o2] upd [OF o3] o2 o3
    by (auto simp: fh_decomp_def Let_def lk rw lc split: option.splits if_splits prod.splits
        dest!: add)
qed

subsection \<open>Properties of the handle cache\<close>

text \<open>
  C26: the cache invariant (4096 slots, filled from the front, no object twice) holds after
  initialisation and is kept by every function that changes the cache: adding, looking up,
  resolving and composing.
\<close>

theorem fh_cache_invariant:
  assumes "fhc_inv s"
  shows "fhc_inv (snd (fh_cache_add dev ino p s)) \<and> fhc_inv (snd (fh_cache_lookup os dev ino s)) \<and>
    fhc_inv (snd (fh_decomp os junk fh s)) \<and> fhc_inv (snd (fh_comp os p rq nd s)) \<and>
    fhc_inv (snd (fh_comp_ptr os p rq nd s)) \<and>
    fhc_inv ((fh_cache_init t)\<lparr>fh_cache_max := 0\<rparr>)"
proof -
  have "fhc_inv (snd (fh_comp_ptr os p rq nd s))"
    using fh_comp_inv [OF assms] by (auto simp: fh_comp_ptr_def Let_def split: prod.splits)
  moreover have "fhc_inv ((fh_cache_init t)\<lparr>fh_cache_max := 0\<rparr>)"
    by (auto simp: fhc_inv_def fh_cache_init_def zero_cache_def c_key_def)
  ultimately show ?thesis
    using fh_cache_add_inv [OF assms] fh_cache_lookup_inv [OF assms] fh_decomp_inv [OF assms]
      fh_comp_inv [OF assms]
    by (metis prod.collapse)
qed

text \<open>
  C13: the cache implements a map from objects to paths that may forget. Adding an entry is exactly
  the update of the map, preceded by forgetting the object whose slot is reused.
\<close>

theorem fh_cache_add_refines:
  assumes "fhc_inv s" and "(dev, ino) \<noteq> (0, 0)"
  shows "fhc_abs (snd (fh_cache_add dev ino p s)) =
    (fhc_abs s)(c_key (fh_cache s ! fhc_slot dev ino s) := None, (dev, ino) \<mapsto> p)"
  using assms by (rule fh_cache_add_abs)

text \<open>
  C27: after any sequence of additions, whatever the cache still knows of an object is the path
  added last for it, or what it knew before.
\<close>

theorem fh_cache_history:
  assumes "fhc_inv s" and "\<forall>(k, p)\<in>set ops. k \<noteq> (0, 0)"
  shows "fhc_abs (fold (\<lambda>(k, p) s. snd (fh_cache_add (fst k) (snd k) p s)) ops s) \<subseteq>\<^sub>m
    fhc_abs s ++ map_of (rev ops)"
  using fh_map.adds_le [OF assms] by (simp add: fh_map.adds_def)

text \<open>
  When the cache is full, the slot reused is never the one returned last, and is one that was
  used least recently of all others by the counter as it stands.
\<close>

lemma fh_cache_reuses_lru:
  assumes "fhc_inv s" and "fh_cache_max s = CACHE_ENTRIES - 1"
  shows "fst (fh_cache_lru s) < CACHE_ENTRIES \<and> int (fst (fh_cache_lru s)) \<noteq> fh_last_entry s \<and>
    (\<forall>j<CACHE_ENTRIES. int j \<noteq> fh_last_entry s \<longrightarrow>
       c_use (fh_cache s ! fst (fh_cache_lru s)) \<le> c_use (fh_cache s ! j))"
  using fh_cache_lru_full(2) [OF assms] fhc_invD(1) [OF assms(1)] by (simp add: lru_choice_def)

text \<open>
  The path a cache hit returned stays in place while another object is added: the handlers
  keep a pointer to it.
\<close>

lemma fh_cache_hit_stays:
  assumes inv: "fhc_inv s" and hit: "fh_cache_lookup os dev ino s = (Some p, s1)"
    and k: "(dev, ino) \<noteq> (0, 0)" "(dev', ino') \<noteq> (dev, ino)"
  shows "c_path (fh_cache (snd (fh_cache_add dev' ino' q s1)) ! nat (fh_last_entry s1)) = p"
proof -
  from inv hit obtain i where i: "fh_cache_index dev ino s = Some i" "fh_last_entry s1 = int i"
    "c_path (fh_cache s1 ! i) = p" "i < CACHE_ENTRIES"
    by (rule fh_cache_lookup_hit)
  have inv1: "fhc_inv s1" by (rule fh_cache_lookup_inv [OF inv hit])
  have "c_key (fh_cache s1 ! i) = (dev, ino)"
    using inv hit
  proof (cases rule: fh_cache_lookup_cases)
    case (hit j t buf)
    have "c_key (fh_cache s ! i) = (dev, ino)"
      using i(1) fh_cache_index_iff [OF inv k(1)] by simp
    with hit(1,6) i(1,4) fhc_invD(1) [OF inv] show ?thesis by (simp add: c_key_def)
  qed simp_all
  with k i(2,4) have "fh_cache (snd (fh_cache_add dev' ino' q s1)) ! i = fh_cache s1 ! i"
    by (intro fh_cache_add_keeps [OF inv1]) auto
  with i(2,3) show ?thesis by simp
qed

text \<open>
  C14: resolution is sound. A byte string resolves only if it passes the validity check, and then to
  an export point it names, to the root directory if it carries no path, or to a path at which
  \<open>lstat\<close> reported the handle's device and inode at some moment, its attributes now being in the
  stat cache.
\<close>

theorem fh_decomp_resolves:
  fixes s :: "('w, 'z) fhc_scheme"
  assumes inv: "fhc_inv s" and eq: "fh_decomp os junk fh s = (Some p, s')"
    and valid: "fh_valid (fh_cast fh)"
  shows "nfh_valid fh \<and>
    (export_point_from_fsid (fh_dev (fh_cast fh)) s = Some p \<and> fh_ino (fh_cast fh) = 1 \<or>
     fh_inos (fh_cast fh) = [] \<and> p = ''/'' \<or>
     st_cache_valid s' \<and> same_object (fh_cast fh) (st_cache s') \<and>
       (\<exists>p'\<in>{p, CHR ''/'' # p}. \<exists>t t' :: ('w, 'z) fhc_scheme.
          backend_lstat os p' t = (Some (st_cache s'), t')))"
  using fh_decomp_sound [OF inv eq,
      where Q = "\<lambda>p b. \<exists>t t' :: ('w, 'z) fhc_scheme. backend_lstat os p t = (Some b, t')"] valid
  by blast

end
