(* ===== verification/Fd_Cache.thy ===== *)
theory Fd_Cache
  imports Fh_Cache
begin

text \<open>
  \<open>fd_cache.c\<close>: the cache of open file descriptors. An entry is unused (\<open>use\<close> is 0), an open
  descriptor, or a failed sync or close that no client has been told of yet (\<open>use\<close> is not 0 and
  \<open>fd\<close> is -1). Log messages have no effect on the state and are left out; the time of the
  last warning is kept because the code reads it.
\<close>

definition FD_ENTRIES :: nat where "FD_ENTRIES = 256"
definition INACTIVE_TIMEOUT :: time_t where "INACTIVE_TIMEOUT = 2"
definition PENDING_ERROR_TIMEOUT :: time_t where "PENDING_ERROR_TIMEOUT = 7200"

datatype fd_kind = UNFS3_FD_READ | UNFS3_FD_WRITE

record fd_entry =
  e_fd :: int
  e_kind :: fd_kind
  e_use :: time_t
  e_dev :: uint32
  e_ino :: uint64
  e_gen :: uint32

record 'w fdc = "'w fhc" +
  fd_cache :: "fd_entry list"
  fd_cache_readers :: int
  fd_cache_writers :: int
  last_warning :: time_t

definition fd_upd :: "nat \<Rightarrow> (fd_entry \<Rightarrow> fd_entry) \<Rightarrow> ('w, 'z) fdc_scheme \<Rightarrow> ('w, 'z) fdc_scheme" where
  "fd_upd i f s = s\<lparr>fd_cache := (fd_cache s)[i := f (fd_cache s ! i)]\<rparr>"

definition fd_cache_init :: "('w, 'z) fdc_scheme \<Rightarrow> ('w, 'z) fdc_scheme" where
  "fd_cache_init s =
     s\<lparr>fd_cache := replicate FD_ENTRIES \<lparr>e_fd = -1, e_kind = UNFS3_FD_READ, e_use = 0, e_dev = 0,
                                       e_ino = 0, e_gen = 0\<rparr>\<rparr>"

definition fd_cache_unused :: "'w os \<Rightarrow> ('w, 'z) fdc_scheme \<Rightarrow> nat option \<times> ('w, 'z) fdc_scheme" where
  "fd_cache_unused os s =
     (case find_idx (\<lambda>e. e_use e = 0) (fd_cache s) of
        Some i \<Rightarrow> (Some i, s)
      | None \<Rightarrow>
          (let (t, s) = c_time os s
           in if last_warning s + 10 < t
              then (let (t, s) = c_time os s in (None, s\<lparr>last_warning := t\<rparr>))
              else (None, s)))"

definition fd_cache_del ::
  "'w os \<Rightarrow> nat \<Rightarrow> bool \<Rightarrow> ('w, 'z) fdc_scheme \<Rightarrow> int \<times> ('w, 'z) fdc_scheme" where
  "fd_cache_del os idx keep_on_error s =
     (let e = fd_cache s ! idx;
          (res1, s) =
            (if e_fd e \<noteq> -1
             then (let (res1, s) =
                         (if e_kind e = UNFS3_FD_WRITE
                          then backend_fsync os (e_fd e)
                                 (s\<lparr>fd_cache_writers := fd_cache_writers s - 1\<rparr>)
                          else (0, s\<lparr>fd_cache_readers := fd_cache_readers s - 1\<rparr>));
                       (res2, s) = backend_close os (e_fd e) s;
                       s = fd_upd idx (\<lambda>e. e\<lparr>e_fd := -1\<rparr>) s
                   in (if res1 = -1 \<or> res2 = -1 then -1 else res1, s))
             else (-1, s\<lparr>errno := EIO\<rparr>));
          s = (if res1 = -1 \<and> \<not> keep_on_error then regenerate_write_verifier os s else s);
          s = (if res1 \<noteq> -1 \<or> \<not> keep_on_error
               then fd_upd idx (\<lambda>e. e\<lparr>e_fd := -1, e_use := 0, e_dev := 0, e_ino := 0, e_gen := 0\<rparr>) s
               else s)
      in (res1, s))"

definition fd_cache_add ::
  "'w os \<Rightarrow> int \<Rightarrow> unfs3_fh \<Rightarrow> fd_kind \<Rightarrow> ('w, 'z) fdc_scheme \<Rightarrow> ('w, 'z) fdc_scheme" where
  "fd_cache_add os fd ufh kind s =
     (case fd_cache_unused os s of
        (None, s) \<Rightarrow> s
      | (Some idx, s) \<Rightarrow>
          (let s = (if kind = UNFS3_FD_READ then s\<lparr>fd_cache_readers := fd_cache_readers s + 1\<rparr>
                    else s\<lparr>fd_cache_writers := fd_cache_writers s + 1\<rparr>);
               (t, s) = c_time os s
           in fd_upd idx (\<lambda>_. \<lparr>e_fd = fd, e_kind = kind, e_use = t, e_dev = fh_dev ufh,
                              e_ino = fh_ino ufh, e_gen = fh_gen ufh\<rparr>) s))"

definition idx_by_fd :: "int \<Rightarrow> fd_kind \<Rightarrow> ('w, 'z) fdc_scheme \<Rightarrow> nat option" where
  "idx_by_fd fd kind s = find_idx (\<lambda>e. e_fd e = fd \<and> e_kind e = kind) (fd_cache s)"

definition idx_by_fh :: "unfs3_fh \<Rightarrow> fd_kind \<Rightarrow> ('w, 'z) fdc_scheme \<Rightarrow> nat option" where
  "idx_by_fh ufh kind s =
     find_idx (\<lambda>e. e_kind e = kind \<and> e_dev e = fh_dev ufh \<and> e_ino e = fh_ino ufh \<and>
                   e_gen e = fh_gen ufh) (fd_cache s)"

definition fd_open ::
  "'w os \<Rightarrow> path \<Rightarrow> nfs_fh3 \<Rightarrow> fd_kind \<Rightarrow> bool \<Rightarrow> ('w, 'z) fdc_scheme \<Rightarrow> int \<times> ('w, 'z) fdc_scheme" where
  "fd_open os p nfh kind allow_caching s =
     (let fh = fh_cast nfh
      in case idx_by_fh fh kind s of
           Some idx \<Rightarrow>
             if e_fd (fd_cache s ! idx) = -1
             then (let (_, s) = fd_cache_del os idx False s in (-1, s))
             else (e_fd (fd_cache s ! idx), s)
         | None \<Rightarrow>
             (let (fd, s) = (if kind = UNFS3_FD_READ then backend_open os p O_RDONLY s
                             else backend_open os p O_WRONLY s)
              in if fd = -1 then (-1, s)
                 else
                   (let (res, s) = backend_fstat os fd s
                    in if (case res of
                             None \<Rightarrow> True
                           | Some buf \<Rightarrow> ucast (fh_dev fh) \<noteq> st_dev buf \<or> fh_ino fh \<noteq> st_ino buf
                                        \<or> fh_gen fh \<noteq> get_gen buf)
                       then (let (_, s) = backend_close os fd s in (-1, s\<lparr>errno := ELOOP\<rparr>))
                       else (fd, if allow_caching then fd_cache_add os fd fh kind s else s))))"

definition fd_close ::
  "'w os \<Rightarrow> int \<Rightarrow> fd_kind \<Rightarrow> bool \<Rightarrow> ('w, 'z) fdc_scheme \<Rightarrow> int \<times> ('w, 'z) fdc_scheme" where
  "fd_close os fd kind really_close s =
     (case idx_by_fd fd kind s of
        Some idx \<Rightarrow>
          (let (t, s) = c_time os s;
               s = fd_upd idx (\<lambda>e. e\<lparr>e_use := t\<rparr>) s
           in if really_close then fd_cache_del os idx False s else (0, s))
      | None \<Rightarrow>
          (let (res1, s) = (if kind = UNFS3_FD_WRITE then backend_fsync os fd s else (0, s));
               (res2, s) = backend_close os fd s
           in (if res1 \<noteq> 0 then res1 else res2, s)))"

definition fd_sync :: "'w os \<Rightarrow> nfs_fh3 \<Rightarrow> ('w, 'z) fdc_scheme \<Rightarrow> int \<times> ('w, 'z) fdc_scheme" where
  "fd_sync os nfh s =
     (case idx_by_fh (fh_cast nfh) UNFS3_FD_WRITE s of
        Some idx \<Rightarrow> fd_cache_del os idx False s
      | None \<Rightarrow> (0, s))"

definition fd_cache_purge :: "'w os \<Rightarrow> ('w, 'z) fdc_scheme \<Rightarrow> ('w, 'z) fdc_scheme" where
  "fd_cache_purge os s =
     fold (\<lambda>i s. if e_use (fd_cache s ! i) \<noteq> 0 then snd (fd_cache_del os i True s) else s)
       [0..<FD_ENTRIES] s"

text \<open>One round of the first loop: close what is idle, then look at what is pending.\<close>

definition close_inactive_step ::
  "'w os \<Rightarrow> time_t \<Rightarrow> nat \<Rightarrow> bool \<times> bool \<times> ('w, 'z) fdc_scheme \<Rightarrow> bool \<times> bool \<times> ('w, 'z) fdc_scheme" where
  "close_inactive_step os now i x =
     (case x of (found_error, active_error, s) \<Rightarrow>
        (let e = fd_cache s ! i;
             s = (if e_use e \<noteq> 0 \<and> e_fd e \<noteq> -1 \<and> e_use e + INACTIVE_TIMEOUT < now
                  then snd (fd_cache_del os i True s) else s);
             e = fd_cache s ! i
         in if e_use e \<noteq> 0 \<and> e_fd e = -1
            then (True, active_error \<or> now < e_use e + PENDING_ERROR_TIMEOUT, s)
            else (found_error, active_error, s)))"

definition fd_cache_close_inactive :: "'w os \<Rightarrow> ('w, 'z) fdc_scheme \<Rightarrow> ('w, 'z) fdc_scheme" where
  "fd_cache_close_inactive os s =
     (let (now, s) = c_time os s;
          (found_error, active_error, s) =
            fold (close_inactive_step os now) [0..<FD_ENTRIES] (False, False, s)
      in if found_error \<and> \<not> active_error
         then regenerate_write_verifier os
                (fold (\<lambda>i s. if e_use (fd_cache s ! i) \<noteq> 0 \<and> e_fd (fd_cache s ! i) = -1
                             then snd (fd_cache_del os i False s) else s)
                   [0..<FD_ENTRIES] s)
         else s)"

subsection \<open>What the descriptor cache leaves alone\<close>

text \<open>
  \<open>fd_only s s'\<close>: only the world, the error number, the write verifier and the fields of this
  component differ.
\<close>

definition fd_only :: "('w, 'z) fdc_scheme \<Rightarrow> ('w, 'z) fdc_scheme \<Rightarrow> bool" where
  "fd_only s s' \<longleftrightarrow>
     s' = s\<lparr>world := world s', errno := errno s', wverf := wverf s', fd_cache := fd_cache s',
            fd_cache_readers := fd_cache_readers s', fd_cache_writers := fd_cache_writers s',
            last_warning := last_warning s'\<rparr>"

lemma fd_onlyI:
  "s' = s\<lparr>world := w, errno := e, wverf := v, fd_cache := c, fd_cache_readers := r,
          fd_cache_writers := x, last_warning := l\<rparr> \<Longrightarrow> fd_only s s'"
  by (simp add: fd_only_def)

lemma fd_onlyE:
  assumes "fd_only s s'"
  obtains w e v c r x l where
    "s' = s\<lparr>world := w, errno := e, wverf := v, fd_cache := c, fd_cache_readers := r,
            fd_cache_writers := x, last_warning := l\<rparr>"
  using assms by (auto simp: fd_only_def)

lemma fd_only_refl [simp, intro]: "fd_only s s"
  by (simp add: fd_only_def)

lemma fd_only_trans [trans]: "fd_only s s' \<Longrightarrow> fd_only s' s'' \<Longrightarrow> fd_only s s''"
  by (erule fd_onlyE, erule fd_onlyE, rule fd_onlyI) simp

lemma sys_only_fd_only: "sys_only s s' \<Longrightarrow> fd_only s s'"
  by (erule sys_onlyE) (simp add: fd_only_def)

lemma fd_only_updates [simp]:
  "fd_only s (s\<lparr>errno := e\<rparr>)" "fd_only s (fd_upd i f s)" "fd_only s (s\<lparr>last_warning := l\<rparr>)"
  "fd_only s (s\<lparr>fd_cache_readers := r\<rparr>)" "fd_only s (s\<lparr>fd_cache_writers := r\<rparr>)"
  "fd_only s (regenerate_write_verifier os s)"
      apply (simp_all add: fd_only_def fd_upd_def)
  by (rule regenerate_write_verifier_frame [of os s]) simp

lemma fd_only_steps [intro]:
  "fd_only s t \<Longrightarrow> fd_only s (fd_upd i f t)" "fd_only s t \<Longrightarrow> fd_only s (t\<lparr>errno := e\<rparr>)"
  "fd_only s t \<Longrightarrow> fd_only s (regenerate_write_verifier os t)"
  "fd_only s t \<Longrightarrow> fd_only s (t\<lparr>last_warning := l\<rparr>)"
  "fd_only s t \<Longrightarrow> fd_only s (t\<lparr>fd_cache_readers := n\<rparr>)"
  "fd_only s t \<Longrightarrow> fd_only s (t\<lparr>fd_cache_writers := n\<rparr>)"
  "fd_only s t \<Longrightarrow> sys_only t t' \<Longrightarrow> fd_only s t'"
  by (erule fd_only_trans, simp)+ (erule fd_only_trans, rule sys_only_fd_only)

lemma sys_only_fdc:
  assumes "sys_only s (s' :: ('w, 'z) fdc_scheme)"
  shows "fd_cache s' = fd_cache s" "fd_cache_readers s' = fd_cache_readers s"
    "fd_cache_writers s' = fd_cache_writers s" "wverf s' = wverf s"
  using assms by (auto elim!: sys_onlyE)

lemma regenerate_fdc [simp]:
  "fd_cache (regenerate_write_verifier os s) = fd_cache s"
  "fd_cache_readers (regenerate_write_verifier os s) = fd_cache_readers s"
  "fd_cache_writers (regenerate_write_verifier os s) = fd_cache_writers s"
  "errno (regenerate_write_verifier os s) = errno s"
  by (rule regenerate_write_verifier_frame [of os s]; simp)+

lemma fd_upd_fields [simp]:
  "fd_cache (fd_upd i f s) = (fd_cache s)[i := f (fd_cache s ! i)]"
  "fd_cache_readers (fd_upd i f s) = fd_cache_readers s"
  "fd_cache_writers (fd_upd i f s) = fd_cache_writers s"
  "wverf (fd_upd i f s) = wverf s" "errno (fd_upd i f s) = errno s"
  by (simp_all add: fd_upd_def)

subsection \<open>Deleting an entry\<close>

definition fd_clear :: "fd_entry \<Rightarrow> fd_entry" where
  "fd_clear e = e\<lparr>e_fd := -1, e_use := 0, e_dev := 0, e_ino := 0, e_gen := 0\<rparr>"

definition is_open :: "fd_kind \<Rightarrow> fd_entry \<Rightarrow> bool" where
  "is_open k e \<longleftrightarrow> e_fd e \<noteq> -1 \<and> e_kind e = k"

lemma fd_noop: "e_fd e = -1 \<Longrightarrow> e\<lparr>e_fd := -1\<rparr> = (e :: fd_entry)"
  by (cases e) simp

text \<open>
  Deletion in one statement: what the entry becomes, what happens to the counters, to the
  write verifier and to the error number.
\<close>

lemma fd_cache_del_spec:
  assumes eq: "fd_cache_del os i keep s = (r, s')" and i: "i < length (fd_cache s)"
  defines "e \<equiv> fd_cache s ! i"
  shows "r = 0 \<or> r = -1" and "e_fd e = -1 \<Longrightarrow> r = -1 \<and> errno s' = EIO"
    and "fd_cache s' = (fd_cache s)[i := if r = -1 \<and> keep then e\<lparr>e_fd := -1\<rparr> else fd_clear e]"
    and "fd_cache_readers s' = fd_cache_readers s - (if is_open UNFS3_FD_READ e then 1 else 0)"
    and "fd_cache_writers s' = fd_cache_writers s - (if is_open UNFS3_FD_WRITE e then 1 else 0)"
    and "r = 0 \<or> keep \<Longrightarrow> wverf s' = wverf s"
    and "fd_only s s'"
proof -
  let ?a = "\<lambda>s. if e_kind e = UNFS3_FD_WRITE
    then backend_fsync os (e_fd e) (s\<lparr>fd_cache_writers := fd_cache_writers s - 1\<rparr>)
    else (0, s\<lparr>fd_cache_readers := fd_cache_readers s - 1\<rparr>)"
  obtain r1 s1 where a: "?a s = (r1, s1)" by fastforce
  obtain r2 s2 where b: "backend_close os (e_fd e) s1 = (r2, s2)" by fastforce
  have only2: "sys_only s1 s2" using b by (rule backend_only)
  have r1: "r1 = 0 \<or> r1 = -1" using a by (auto simp: backend_fsync_def split: if_splits dest: sys_int_result)
  have r2: "r2 = 0 \<or> r2 = -1" using b by (auto simp: backend_close_def dest: sys_int_result)
  let ?t = "if e_kind e = UNFS3_FD_WRITE then s\<lparr>fd_cache_writers := fd_cache_writers s - 1\<rparr>
    else s\<lparr>fd_cache_readers := fd_cache_readers s - 1\<rparr>"
  have t: "sys_only ?t s1" using a by (auto split: if_splits dest: backend_only)
  have s1: "fd_cache s1 = fd_cache s" "wverf s1 = wverf s"
    "fd_cache_readers s1 = fd_cache_readers s - (if e_kind e = UNFS3_FD_READ then 1 else 0)"
    "fd_cache_writers s1 = fd_cache_writers s - (if e_kind e = UNFS3_FD_WRITE then 1 else 0)"
    using sys_only_fdc [OF t] by (cases "e_kind e"; simp)+
  have "fd_only s ?t" by simp
  then have only1: "fd_only s s1" using sys_only_fd_only [OF t] by (rule fd_only_trans)
  note s2 = sys_only_fdc [OF only2]
  have del: "(r, s') =
    (let (r, t) = (if e_fd e \<noteq> -1 then (if r1 = -1 \<or> r2 = -1 then -1 else r1, fd_upd i (\<lambda>e. e\<lparr>e_fd := -1\<rparr>) s2)
                   else (-1, s\<lparr>errno := EIO\<rparr>));
         t = (if r = -1 \<and> \<not> keep then regenerate_write_verifier os t else t)
     in (r, if r \<noteq> -1 \<or> \<not> keep then fd_upd i fd_clear t else t))"
    using eq a b unfolding fd_cache_del_def fd_clear_def e_def [symmetric]
    by (auto simp: Let_def fd_clear_def [abs_def])
  show "r = 0 \<or> r = -1" using del r1 by (auto simp: Let_def split: if_splits)
  show "r = -1 \<and> errno s' = EIO" if "e_fd e = -1"
    using del that by (auto simp: Let_def)
  have e_noop: "e_fd e = -1 \<Longrightarrow> (fd_cache s)[i := e\<lparr>e_fd := -1\<rparr>] = fd_cache s"
    by (subst fd_noop) (simp_all add: e_def)
  have clear: "fd_clear (e\<lparr>e_fd := -1\<rparr>) = fd_clear e" by (simp add: fd_clear_def)
  show "fd_cache s' = (fd_cache s)[i := if r = -1 \<and> keep then e\<lparr>e_fd := -1\<rparr> else fd_clear e]"
    using del i s1 s2 e_noop clear
    by (cases "e_fd e = -1") (auto simp: Let_def e_def [symmetric] split: if_splits)
  show "fd_cache_readers s' = fd_cache_readers s - (if is_open UNFS3_FD_READ e then 1 else 0)"
    using del s1 s2 by (auto simp: Let_def is_open_def split: if_splits)
  show "fd_cache_writers s' = fd_cache_writers s - (if is_open UNFS3_FD_WRITE e then 1 else 0)"
    using del s1 s2 by (auto simp: Let_def is_open_def split: if_splits)
  show "wverf s' = wverf s" if "r = 0 \<or> keep"
    using del s1 s2 that by (auto simp: Let_def split: if_splits)
  have "fd_only s s2" using only1 sys_only_fd_only [OF only2] by (rule fd_only_trans)
  then show "fd_only s s'"
    using del by (auto simp: Let_def split: if_splits)
qed

subsection \<open>The invariant\<close>

definition e_key :: "fd_entry \<Rightarrow> fd_kind \<times> uint32 \<times> uint64 \<times> uint32" where
  "e_key e = (e_kind e, e_dev e, e_ino e, e_gen e)"

text \<open>
  The table: an unused entry is cleared, and no two used entries are for the same handle and
  direction. The two statistics count the open descriptors.
\<close>

definition fd_table :: "fd_entry list \<Rightarrow> bool" where
  "fd_table c \<longleftrightarrow>
     length c = FD_ENTRIES \<and> (\<forall>e\<in>set c. e_use e = 0 \<longrightarrow> fd_clear e = e) \<and>
     (\<forall>i<FD_ENTRIES. \<forall>j<FD_ENTRIES. e_use (c ! i) \<noteq> 0 \<longrightarrow> e_use (c ! j) \<noteq> 0 \<longrightarrow>
        e_key (c ! i) = e_key (c ! j) \<longrightarrow> i = j)"

definition open_count :: "fd_kind \<Rightarrow> fd_entry list \<Rightarrow> int" where
  "open_count k c = int (length (filter (is_open k) c))"

definition fdc_inv :: "('w, 'z) fdc_scheme \<Rightarrow> bool" where
  "fdc_inv s \<longleftrightarrow>
     fd_table (fd_cache s) \<and>
     fd_cache_readers s = open_count UNFS3_FD_READ (fd_cache s) \<and>
     fd_cache_writers s = open_count UNFS3_FD_WRITE (fd_cache s)"

lemma open_count_update:
  "i < length c \<Longrightarrow> open_count k (c[i := e]) =
     open_count k c - (if is_open k (c ! i) then 1 else 0) + (if is_open k e then 1 else 0)"
  by (simp add: open_count_def length_filter_update)

lemma fd_table_update:
  assumes t: "fd_table c" and i: "i < FD_ENTRIES" and z: "e_use e = 0 \<Longrightarrow> fd_clear e = e"
    and u: "\<And>j. e_use e \<noteq> 0 \<Longrightarrow> j < FD_ENTRIES \<Longrightarrow> j \<noteq> i \<Longrightarrow> e_use (c ! j) \<noteq> 0 \<Longrightarrow>
      e_key (c ! j) \<noteq> e_key e"
  shows "fd_table (c[i := e])"
proof -
  have len: "length c = FD_ENTRIES" using t by (simp add: fd_table_def)
  have nth: "c[i := e] ! j = (if j = i then e else c ! j)" if "j < FD_ENTRIES" for j
    using that i len by (simp add: nth_list_update)
  have "fd_clear x = x" if "x \<in> set (c[i := e])" "e_use x = 0" for x
    using that t z set_update_subset_insert [of c i e] by (auto simp: fd_table_def)
  moreover have "j = k" if jk: "j < FD_ENTRIES" "k < FD_ENTRIES" "e_use (c[i := e] ! j) \<noteq> 0"
    "e_use (c[i := e] ! k) \<noteq> 0" "e_key (c[i := e] ! j) = e_key (c[i := e] ! k)" for j k
  proof -
    consider "j = i" "k = i" | "j = i" "k \<noteq> i" | "j \<noteq> i" "k = i" | "j \<noteq> i" "k \<noteq> i" by blast
    then show ?thesis
    proof cases
      case 2
      with jk u [of k] nth [OF jk(1)] nth [OF jk(2)] show ?thesis by simp
    next
      case 3
      with jk u [of j] nth [OF jk(1)] nth [OF jk(2)] show ?thesis by simp
    next
      case 4
      with jk t nth [OF jk(1)] nth [OF jk(2)] show ?thesis by (simp add: fd_table_def)
    qed simp
  qed
  ultimately show ?thesis using len by (simp add: fd_table_def)
qed

text \<open>An update of one entry that keeps the key of a used entry, or clears it.\<close>

lemma fd_table_keep:
  assumes t: "fd_table c" and i: "i < FD_ENTRIES"
    and e: "e = fd_clear (c ! i) \<or> e_key e = e_key (c ! i) \<and> e_use (c ! i) \<noteq> 0 \<and> e_use e \<noteq> 0"
  shows "fd_table (c[i := e])"
proof (rule fd_table_update [OF t i])
  show "fd_clear e = e" if "e_use e = 0" using e that by (auto simp: fd_clear_def)
  show "e_key (c ! j) \<noteq> e_key e" if "e_use e \<noteq> 0" "j < FD_ENTRIES" "j \<noteq> i" "e_use (c ! j) \<noteq> 0" for j
    using e that t i by (auto simp: fd_table_def fd_clear_def)
qed

lemma fd_table_nth_clear: "fd_table c \<Longrightarrow> i < FD_ENTRIES \<Longrightarrow> e_use (c ! i) = 0 \<Longrightarrow> fd_clear (c ! i) = c ! i"
  by (simp add: fd_table_def)

lemma fdc_inv_length: "fdc_inv s \<Longrightarrow> length (fd_cache s) = FD_ENTRIES"
  by (simp add: fdc_inv_def fd_table_def)

lemma fd_clear_simps [simp]:
  "e_fd (fd_clear e) = -1" "e_use (fd_clear e) = 0" "e_kind (fd_clear e) = e_kind e"
  "fd_clear (fd_clear e) = fd_clear e" "\<not> is_open k (fd_clear e)" "\<not> is_open k (e\<lparr>e_fd := -1\<rparr>)"
  by (simp_all add: fd_clear_def is_open_def)

lemma fd_cache_del_inv:
  assumes inv: "fdc_inv s" and eq: "fd_cache_del os i keep s = (r, s')" and i: "i < FD_ENTRIES"
  shows "fdc_inv s'"
proof -
  have len: "i < length (fd_cache s)" using i fdc_inv_length [OF inv] by simp
  note spec = fd_cache_del_spec [OF eq len]
  let ?e = "fd_cache s ! i" and ?e' = "if r = -1 \<and> keep then (fd_cache s ! i)\<lparr>e_fd := -1\<rparr> else fd_clear (fd_cache s ! i)"
  have t: "fd_table (fd_cache s)" using inv by (simp add: fdc_inv_def)
  have "fd_table ((fd_cache s)[i := ?e'])"
  proof (cases "e_use ?e = 0")
    case True
    then have c: "fd_clear ?e = ?e" by (rule fd_table_nth_clear [OF t i])
    then have "e_fd ?e = -1" by (metis fd_clear_simps(1))
    then have "?e\<lparr>e_fd := -1\<rparr> = ?e" by (rule fd_noop)
    with c t show ?thesis by simp
  next
    case False
    then show ?thesis by (intro fd_table_keep [OF t i]) (simp add: e_key_def)
  qed
  then show ?thesis
    using inv spec(3-5) len by (simp add: fdc_inv_def open_count_update)
qed

subsection \<open>Every operation keeps the invariant\<close>

text \<open>\<open>time\<close> is used as a mark of a used entry, so the clock must not report the epoch itself.\<close>

definition clock_ok :: "'w os \<Rightarrow> bool" where
  "clock_ok os \<longleftrightarrow> (\<forall>w. fst (os_time os w) \<noteq> 0)"

lemma c_time_nonzero: "clock_ok os \<Longrightarrow> c_time os s = (t, s') \<Longrightarrow> t \<noteq> 0"
  by (auto simp: clock_ok_def c_time_def split: prod.splits) (metis fst_conv)

lemma fdc_inv_cong:
  assumes "fd_cache s' = fd_cache s" "fd_cache_readers s' = fd_cache_readers s"
    "fd_cache_writers s' = fd_cache_writers s"
  shows "fdc_inv s' = fdc_inv s"
  using assms by (simp add: fdc_inv_def)

lemma fdc_inv_sys_only: "sys_only s s' \<Longrightarrow> fdc_inv s' = fdc_inv s"
  by (rule fdc_inv_cong) (rule sys_only_fdc, assumption)+

lemma fdc_inv_regenerate [simp]: "fdc_inv (regenerate_write_verifier os s) = fdc_inv s"
  by (rule fdc_inv_cong) simp_all

lemma fd_cache_unused_cases:
  assumes "fd_cache_unused os s = (r, s')"
  shows "fd_cache s' = fd_cache s" "fd_cache_readers s' = fd_cache_readers s"
    "fd_cache_writers s' = fd_cache_writers s" "fd_only s s'"
    "r = find_idx (\<lambda>e. e_use e = 0) (fd_cache s)"
proof -
  obtain t s1 where a: "c_time os s = (t, s1)" by fastforce
  obtain t' s2 where b: "c_time os s1 = (t', s2)" by fastforce
  have only: "sys_only s s1" "sys_only s1 s2" using a b by (auto dest: c_time_only)
  have s': "s' = s \<or> s' = s1 \<or> s' = s2\<lparr>last_warning := t'\<rparr>"
    using assms a b by (auto simp: fd_cache_unused_def split: option.splits if_splits)
  then show "fd_cache s' = fd_cache s" "fd_cache_readers s' = fd_cache_readers s"
    "fd_cache_writers s' = fd_cache_writers s"
    using sys_only_fdc [OF only(1)] sys_only_fdc [OF only(2)] by auto
  show "fd_only s s'"
    using s' only sys_only_fd_only [OF sys_only_trans [OF only]]
    by (auto intro: sys_only_fd_only)
  show "r = find_idx (\<lambda>e. e_use e = 0) (fd_cache s)"
    using assms a b by (auto simp: fd_cache_unused_def split: option.splits if_splits)
qed

lemma fd_cache_add_inv:
  assumes clock: "clock_ok os" and inv: "fdc_inv s" and fresh: "idx_by_fh ufh kind s = None"
    and fd: "fd \<noteq> -1"
  shows "fdc_inv (fd_cache_add os fd ufh kind s)"
proof -
  obtain r s1 where u: "fd_cache_unused os s = (r, s1)" by fastforce
  note s1 = fd_cache_unused_cases [OF u]
  have inv1: "fdc_inv s1" using inv fdc_inv_cong [OF s1(1-3)] by simp
  show ?thesis
  proof (cases r)
    case None
    with u inv1 show ?thesis by (simp add: fd_cache_add_def)
  next
    case (Some i)
    then have i: "i < FD_ENTRIES" and z: "e_use (fd_cache s ! i) = 0"
      using s1(5) fdc_inv_length [OF inv] by (auto simp: find_idx_Some_iff)
    have t: "fd_table (fd_cache s)" using inv by (simp add: fdc_inv_def)
    from z have cl: "fd_clear (fd_cache s ! i) = fd_cache s ! i" by (rule fd_table_nth_clear [OF t i])
    then have closed: "\<not> is_open k (fd_cache s ! i)" for k by (metis fd_clear_simps(5))
    let ?s2 = "if kind = UNFS3_FD_READ then s1\<lparr>fd_cache_readers := fd_cache_readers s1 + 1\<rparr>
      else s1\<lparr>fd_cache_writers := fd_cache_writers s1 + 1\<rparr>"
    obtain tm s3 where tm: "c_time os ?s2 = (tm, s3)" by fastforce
    then have nz: "tm \<noteq> 0" using clock by (rule c_time_nonzero [rotated])
    note s3 = sys_only_fdc [OF c_time_only [OF tm]]
    let ?e = "\<lparr>e_fd = fd, e_kind = kind, e_use = tm, e_dev = fh_dev ufh, e_ino = fh_ino ufh, e_gen = fh_gen ufh\<rparr>"
    have add: "fd_cache_add os fd ufh kind s = fd_upd i (\<lambda>_. ?e) s3"
      using u Some tm by (simp add: fd_cache_add_def Let_def)
    have cache: "fd_cache (fd_upd i (\<lambda>_. ?e) s3) = (fd_cache s)[i := ?e]"
      using s1 s3 by simp
    have "e_key (fd_cache s ! j) \<noteq> e_key ?e" if "j < FD_ENTRIES" for j
      using fresh that fdc_inv_length [OF inv]
      by (auto simp: idx_by_fh_def find_idx_None_nth e_key_def)
    then have "fd_table ((fd_cache s)[i := ?e])"
      using nz by (intro fd_table_update [OF t i]) auto
    then show ?thesis
      unfolding add fdc_inv_def cache
      using inv s1 s3 i closed fd fdc_inv_length [OF inv]
      by (cases kind) (simp_all add: fdc_inv_def open_count_update is_open_def)
  qed
qed

lemma idx_by_fh_Some:
  assumes "idx_by_fh ufh kind s = Some i"
  shows "i < length (fd_cache s)"
    and "e_key (fd_cache s ! i) = (kind, fh_dev ufh, fh_ino ufh, fh_gen ufh)"
  using assms by (auto simp: idx_by_fh_def find_idx_Some_iff e_key_def)

text \<open>Which way an open goes; the last case is a descriptor whose object was checked.\<close>

lemma fd_open_cases:
  assumes eq: "fd_open os p nfh kind caching s = (r, s')"
  obtains (pending) i q where "idx_by_fh (fh_cast nfh) kind s = Some i"
      "e_fd (fd_cache s ! i) = -1" "fd_cache_del os i False s = (q, s')" "r = -1"
  | (cached) i where "idx_by_fh (fh_cast nfh) kind s = Some i" "e_fd (fd_cache s ! i) \<noteq> -1"
      "r = e_fd (fd_cache s ! i)" "s' = s"
  | (failed) t where "idx_by_fh (fh_cast nfh) kind s = None" "sys_only s t" "r = -1"
      "s' = t \<or> s' = t\<lparr>errno := ELOOP\<rparr>"
  | (opened) t buf t0 where "idx_by_fh (fh_cast nfh) kind s = None" "sys_only s t" "r \<noteq> -1"
      "backend_fstat os r t0 = (Some buf, t)"
      "st_dev buf = ucast (fh_dev (fh_cast nfh))" "st_ino buf = fh_ino (fh_cast nfh)"
      "get_gen buf = fh_gen (fh_cast nfh)"
      "s' = (if caching then fd_cache_add os r (fh_cast nfh) kind t else t)"
proof (cases "idx_by_fh (fh_cast nfh) kind s")
  case (Some i)
  show thesis
  proof (cases "e_fd (fd_cache s ! i) = -1")
    case True
    obtain q t where d: "fd_cache_del os i False s = (q, t)" by fastforce
    with eq Some True have "r = -1" "s' = t" by (auto simp: fd_open_def Let_def)
    with d show thesis by (intro that(1) [OF Some True, of q]) simp_all
  next
    case False
    with eq Some show thesis by (intro that(2) [OF Some False]) (auto simp: fd_open_def Let_def)
  qed
next
  case None
  let ?open = "if kind = UNFS3_FD_READ then backend_open os p O_RDONLY s else backend_open os p O_WRONLY s"
  obtain fd s1 where o: "?open = (fd, s1)" by fastforce
  have s1: "sys_only s s1" using o by (auto split: if_splits dest: backend_only)
  show thesis
  proof (cases "fd = -1")
    case True
    with eq None o have "r = -1" "s' = s1" by (auto simp: fd_open_def Let_def split: if_splits)
    with s1 show thesis by (intro that(3) [OF None s1]) auto
  next
    case False
    obtain b s2 where f: "backend_fstat os fd s1 = (b, s2)" by fastforce
    have s2: "sys_only s s2" using s1 backend_only(2) [OF f] by (rule sys_only_trans)
    obtain q s3 where c: "backend_close os fd s2 = (q, s3)" by fastforce
    have s3: "sys_only s s3" using s2 backend_only(11) [OF c] by (rule sys_only_trans)
    let ?bad = "case b of None \<Rightarrow> True | Some buf \<Rightarrow> ucast (fh_dev (fh_cast nfh)) \<noteq> st_dev buf
      \<or> fh_ino (fh_cast nfh) \<noteq> st_ino buf \<or> fh_gen (fh_cast nfh) \<noteq> get_gen buf"
    have step: "(r, s') = (if ?bad then (-1, s3\<lparr>errno := ELOOP\<rparr>)
      else (fd, if caching then fd_cache_add os fd (fh_cast nfh) kind s2 else s2))"
      unfolding eq [symmetric] fd_open_def Let_def by (simp add: None o False f c cong: if_cong)
    show thesis
    proof (cases ?bad)
      case True
      with step show thesis by (intro that(3) [OF None s3]) auto
    next
      case False
      then obtain buf where "b = Some buf" by (cases b) auto
      with False step f \<open>fd \<noteq> -1\<close> show thesis by (intro that(4) [OF None s2, of s1 buf]) auto
    qed
  qed
qed

lemma fd_open_inv:
  assumes "clock_ok os" and inv: "fdc_inv s" and eq: "fd_open os p nfh kind caching s = (r, s')"
  shows "fdc_inv s'"
  using eq
proof (cases rule: fd_open_cases)
  case (pending i q)
  have "i < FD_ENTRIES" using idx_by_fh_Some(1) [OF pending(1)] fdc_inv_length [OF inv] by simp
  with inv pending(3) show ?thesis by (rule fd_cache_del_inv)
next
  case (cached i)
  with inv show ?thesis by simp
next
  case (failed t)
  have "fdc_inv t" using inv fdc_inv_sys_only [OF failed(2)] by simp
  with failed(4) show ?thesis by (auto simp: fdc_inv_def)
next
  case (opened t buf t0)
  have t: "fdc_inv t" using inv fdc_inv_sys_only [OF opened(2)] by simp
  have "idx_by_fh (fh_cast nfh) kind t = None"
    using opened(1) sys_only_fdc(1) [OF opened(2)] by (simp add: idx_by_fh_def)
  with t opened(3,8) assms(1) show ?thesis by (simp add: fd_cache_add_inv)
qed

lemma fd_close_inv:
  assumes clock: "clock_ok os" and inv: "fdc_inv s" and fd: "fd \<noteq> -1"
    and eq: "fd_close os fd kind really s = (r, s')"
  shows "fdc_inv s'"
proof (cases "idx_by_fd fd kind s")
  case None
  then show ?thesis
    using eq inv
    by (auto simp: fd_close_def Let_def split: prod.splits if_splits
        dest!: backend_only fdc_inv_sys_only)
next
  case (Some i)
  then have i: "i < FD_ENTRIES" and e: "e_fd (fd_cache s ! i) \<noteq> -1"
    using fdc_inv_length [OF inv] fd by (auto simp: idx_by_fd_def find_idx_Some_iff)
  obtain t s1 where tm: "c_time os s = (t, s1)" by fastforce
  have nz: "t \<noteq> 0" using clock tm by (rule c_time_nonzero)
  note s1 = sys_only_fdc [OF c_time_only [OF tm]]
  have tab: "fd_table (fd_cache s)" using inv by (simp add: fdc_inv_def)
  have used: "e_use (fd_cache s ! i) \<noteq> 0"
    using e fd_table_nth_clear [OF tab i] by (metis fd_clear_simps(1))
  let ?s2 = "fd_upd i (\<lambda>e. e\<lparr>e_use := t\<rparr>) s1"
  have "fd_table ((fd_cache s)[i := (fd_cache s ! i)\<lparr>e_use := t\<rparr>])"
    by (rule fd_table_keep [OF tab i]) (use nz used in \<open>simp add: e_key_def\<close>)
  then have inv2: "fdc_inv ?s2"
    using inv s1 i fdc_inv_length [OF inv]
    by (simp add: fdc_inv_def open_count_update is_open_def)
  show ?thesis
    using eq Some tm inv2 fd_cache_del_inv [OF inv2 _ i]
    by (auto simp: fd_close_def Let_def split: if_splits)
qed

lemma fd_sync_inv:
  assumes inv: "fdc_inv s" and eq: "fd_sync os nfh s = (r, s')"
  shows "fdc_inv s'"
  using eq inv fd_cache_del_inv [OF inv] idx_by_fh_Some(1) [of "fh_cast nfh" UNFS3_FD_WRITE s]
    fdc_inv_length [OF inv]
  by (auto simp: fd_sync_def split: option.splits)

lemma fd_cache_purge_inv: "fdc_inv s \<Longrightarrow> fdc_inv (fd_cache_purge os s)"
  unfolding fd_cache_purge_def
  by (rule fold_invariant [where Q = "\<lambda>i. i < FD_ENTRIES"])
    (auto dest: fd_cache_del_inv [OF _ prod.collapse [symmetric]])

lemma close_inactive_step_inv:
  "fdc_inv (snd (snd x)) \<Longrightarrow> i < FD_ENTRIES \<Longrightarrow> fdc_inv (snd (snd (close_inactive_step os now i x)))"
  by (auto simp: close_inactive_step_def Let_def split: prod.splits
      dest: fd_cache_del_inv [OF _ prod.collapse [symmetric]])

lemma fd_cache_close_inactive_inv:
  assumes inv: "fdc_inv s"
  shows "fdc_inv (fd_cache_close_inactive os s)"
proof -
  obtain now s1 where t: "c_time os s = (now, s1)" by fastforce
  have inv1: "fdc_inv s1" using inv fdc_inv_sys_only [OF c_time_only [OF t]] by simp
  let ?x = "fold (close_inactive_step os now) [0..<FD_ENTRIES] (False, False, s1)"
  obtain fe ae s2 where x: "?x = (fe, ae, s2)" by (cases ?x)
  have "fdc_inv (snd (snd ?x))"
    by (rule fold_invariant [where Q = "\<lambda>i. i < FD_ENTRIES" and P = "\<lambda>x. fdc_inv (snd (snd x))"])
      (auto simp: inv1 intro: close_inactive_step_inv)
  then have inv2: "fdc_inv s2" by (simp add: x)
  let ?f = "\<lambda>i s. if e_use (fd_cache s ! i) \<noteq> 0 \<and> e_fd (fd_cache s ! i) = -1
                  then snd (fd_cache_del os i False s) else s"
  have "fdc_inv (fold ?f [0..<FD_ENTRIES] s2)"
    by (rule fold_invariant [where Q = "\<lambda>i. i < FD_ENTRIES"])
      (auto simp: inv2 dest: fd_cache_del_inv [OF _ prod.collapse [symmetric]])
  with inv2 t x show ?thesis by (simp add: fd_cache_close_inactive_def)
qed

lemma fd_cache_init_inv:
  "fd_cache_readers s = 0 \<Longrightarrow> fd_cache_writers s = 0 \<Longrightarrow> fdc_inv (fd_cache_init s)"
  by (auto simp: fdc_inv_def fd_table_def fd_cache_init_def open_count_def is_open_def fd_clear_def)

subsection \<open>The life of an entry\<close>

definition pending :: "fd_entry \<Rightarrow> bool" where
  "pending e \<longleftrightarrow> e_use e \<noteq> 0 \<and> e_fd e = -1"

definition idle :: "time_t \<Rightarrow> fd_entry \<Rightarrow> bool" where
  "idle now e \<longleftrightarrow> e_use e \<noteq> 0 \<and> e_fd e \<noteq> -1 \<and> e_use e + INACTIVE_TIMEOUT < now"

lemma close_inactive_step_entry:
  assumes inv: "fdc_inv s" and i: "i < FD_ENTRIES"
    and step: "close_inactive_step os now i (fe, ae, s) = (fe', ae', s')"
  shows "j \<noteq> i \<Longrightarrow> fd_cache s' ! j = fd_cache s ! j"
    and "\<not> idle now (fd_cache s ! i) \<Longrightarrow> fd_cache s' ! i = fd_cache s ! i"
    and "idle now (fd_cache s ! i) \<Longrightarrow> fd_cache s' ! i = (fd_cache s ! i)\<lparr>e_fd := -1\<rparr>
           \<or> fd_cache s' ! i = fd_clear (fd_cache s ! i)"
    and "ae \<Longrightarrow> ae'"
    and "pending (fd_cache s' ! i) \<Longrightarrow> now < e_use (fd_cache s' ! i) + PENDING_ERROR_TIMEOUT \<Longrightarrow> ae'"
    and "wverf s' = wverf s"
proof -
  have len: "i < length (fd_cache s)" using i fdc_inv_length [OF inv] by simp
  obtain r t where d: "fd_cache_del os i True s = (r, t)" by fastforce
  note spec = fd_cache_del_spec [OF d len]
  have s': "s' = (if idle now (fd_cache s ! i) then t else s)"
    using step d by (auto simp: close_inactive_step_def idle_def Let_def split: if_splits)
  show "fd_cache s' ! j = fd_cache s ! j" if "j \<noteq> i"
    using s' spec(3) that by simp
  show "fd_cache s' ! i = fd_cache s ! i" if "\<not> idle now (fd_cache s ! i)"
    using s' that by simp
  show "fd_cache s' ! i = (fd_cache s ! i)\<lparr>e_fd := -1\<rparr> \<or> fd_cache s' ! i = fd_clear (fd_cache s ! i)"
    if "idle now (fd_cache s ! i)"
    using s' spec(3) that len by simp
  show "ae'" if "ae"
    using step that by (auto simp: close_inactive_step_def Let_def split: if_splits)
  show "ae'" if "pending (fd_cache s' ! i)" "now < e_use (fd_cache s' ! i) + PENDING_ERROR_TIMEOUT"
    using step that by (auto simp: close_inactive_step_def pending_def Let_def split: if_splits)
  show "wverf s' = wverf s" using s' spec(6) by simp
qed

lemma close_inactive_loop:
  assumes inv: "fdc_inv s" and n: "n \<le> FD_ENTRIES"
    and "fold (close_inactive_step os now) [0..<n] (False, False, s) = (fe, ae, s')"
  shows "fdc_inv s' \<and> wverf s' = wverf s \<and>
    (\<forall>j<FD_ENTRIES. if j < n \<and> idle now (fd_cache s ! j)
       then fd_cache s' ! j = (fd_cache s ! j)\<lparr>e_fd := -1\<rparr> \<or> fd_cache s' ! j = fd_clear (fd_cache s ! j)
       else fd_cache s' ! j = fd_cache s ! j) \<and>
    (\<forall>j<n. pending (fd_cache s' ! j) \<longrightarrow> now < e_use (fd_cache s' ! j) + PENDING_ERROR_TIMEOUT \<longrightarrow> ae)"
  using n assms(3)
proof (induction n arbitrary: fe ae s')
  case 0
  with inv show ?case by simp
next
  case (Suc n)
  let ?x = "fold (close_inactive_step os now) [0..<n] (False, False, s)"
  obtain fe1 ae1 s1 where x: "?x = (fe1, ae1, s1)" by (cases ?x)
  have n: "n < FD_ENTRIES" using Suc.prems(1) by simp
  note IH = Suc.IH [OF less_imp_le [OF n] x]
  from Suc.prems(2) x have step: "close_inactive_step os now n (fe1, ae1, s1) = (fe, ae, s')" by simp
  have inv1: "fdc_inv s1" using IH by blast
  have inv': "fdc_inv s'" using close_inactive_step_inv [of "(fe1, ae1, s1)" n os now] inv1 n step by simp
  note st = close_inactive_step_entry [OF inv1 n step]
  have same: "fd_cache s1 ! n = fd_cache s ! n" using IH n by auto
  have entry: "if j < Suc n \<and> idle now (fd_cache s ! j)
      then fd_cache s' ! j = (fd_cache s ! j)\<lparr>e_fd := -1\<rparr> \<or> fd_cache s' ! j = fd_clear (fd_cache s ! j)
      else fd_cache s' ! j = fd_cache s ! j" if "j < FD_ENTRIES" for j
  proof (cases "j = n")
    case True
    with st(2,3) same show ?thesis by simp
  next
    case False
    with IH that st(1) [OF False] show ?thesis by (auto simp: less_Suc_eq)
  qed
  have act: "ae" if "j < Suc n" "pending (fd_cache s' ! j)"
    "now < e_use (fd_cache s' ! j) + PENDING_ERROR_TIMEOUT" for j
  proof (cases "j = n")
    case True
    with st(5) that show ?thesis by simp
  next
    case False
    with IH st(1) [OF False] st(4) that show ?thesis by (auto simp: less_Suc_eq)
  qed
  have "wverf s' = wverf s" using IH st(6) by simp
  with inv' entry act show ?case by blast
qed

lemma fd_cache_del_only: "fd_cache_del os i keep s = (r, s') \<Longrightarrow> fd_only s s'"
  by (auto simp: fd_cache_del_def Let_def split: if_splits prod.splits
      dest!: backend_only intro!: fd_only_steps(1-6) intro: fd_only_steps(7) [rotated])

lemma fd_cache_purge_only: "fd_only s (fd_cache_purge os s)"
  unfolding fd_cache_purge_def
  by (rule fold_invariant [where Q = "\<lambda>i. True"])
    (auto intro: fd_only_trans fd_cache_del_only [OF prod.collapse [symmetric]])

lemma fd_drop_pending_entry:
  fixes os :: "'w os"
  assumes len: "length (fd_cache s) = FD_ENTRIES" and n: "n \<le> FD_ENTRIES"
  defines "drop_pending \<equiv> \<lambda>i s. if e_use (fd_cache s ! i) \<noteq> 0 \<and> e_fd (fd_cache s ! i) = -1
                  then snd (fd_cache_del os i False s) else s"
  shows "length (fd_cache (fold drop_pending [0..<n] s)) = FD_ENTRIES \<and>
    (\<forall>j<FD_ENTRIES. fd_cache (fold drop_pending [0..<n] s) ! j =
       (if j < n \<and> pending (fd_cache s ! j) then fd_clear (fd_cache s ! j) else fd_cache s ! j))"
  using n
proof (induction n)
  case 0
  then show ?case using len by simp
next
  case (Suc n)
  let ?t = "fold drop_pending [0..<n] s"
  have IH: "length (fd_cache ?t) = FD_ENTRIES" "\<And>j. j < FD_ENTRIES \<Longrightarrow> fd_cache ?t ! j =
       (if j < n \<and> pending (fd_cache s ! j) then fd_clear (fd_cache s ! j) else fd_cache s ! j)"
    using Suc by simp_all
  have n: "n < FD_ENTRIES" using Suc.prems by simp
  obtain r t where d: "fd_cache_del os n False ?t = (r, t)" by fastforce
  have spec: "fd_cache t = (fd_cache ?t)[n := fd_clear (fd_cache ?t ! n)]"
    using fd_cache_del_spec(3) [OF d] IH(1) n by simp
  have step: "fd_cache (fold drop_pending [0..<Suc n] s) =
      (if pending (fd_cache s ! n) then fd_cache t else fd_cache ?t)"
    using IH(2) [OF n] d by (simp add: drop_pending_def pending_def)
  show ?case
    unfolding step using IH(1) IH(2) n spec by (auto simp: nth_list_update less_Suc_eq)
qed

subsection \<open>The cache as a state machine\<close>

text \<open>A step is a call of one of the functions other components use, or anything that only touches the
  rest of the system. A descriptor to close is one an open returned, so it is not -1.\<close>

inductive fd_step :: "'w os \<Rightarrow> ('w, 'z) fdc_scheme \<Rightarrow> ('w, 'z) fdc_scheme \<Rightarrow> bool" for os where
  open_step: "fd_open os p nfh kind caching s = (r, s') \<Longrightarrow> fd_step os s s'"
| close_step: "fd_close os fd kind really s = (r, s') \<Longrightarrow> fd \<noteq> -1 \<Longrightarrow> fd_step os s s'"
| sync_step: "fd_sync os nfh s = (r, s') \<Longrightarrow> fd_step os s s'"
| purge_step: "fd_step os s (fd_cache_purge os s)"
| inactive_step: "fd_step os s (fd_cache_close_inactive os s)"
| other_step: "sys_only s s' \<Longrightarrow> fd_step os s s'"

lemma fd_step_inv: "fd_step os s s' \<Longrightarrow> clock_ok os \<Longrightarrow> fdc_inv s \<Longrightarrow> fdc_inv s'"
  by (induction rule: fd_step.induct)
    (auto intro: fd_open_inv fd_close_inv fd_sync_inv fd_cache_purge_inv fd_cache_close_inactive_inv
      simp: fdc_inv_sys_only)

subsection \<open>Properties of the descriptor cache\<close>

text \<open>
  C4: whatever sequence of opens, closes, syncs, purges and sweeps follows the initialisation, the
  table is well formed: unused entries are clear, no handle has two entries of the same kind, and
  the two statistics count the open descriptors.
\<close>

theorem fd_cache_reachable:
  assumes "(fd_step os)\<^sup>*\<^sup>* (fd_cache_init s0) s" and "clock_ok os"
    and "fd_cache_readers s0 = 0" "fd_cache_writers s0 = 0"
  shows "fdc_inv s"
  using assms(1) by (induction rule: rtranclp_induct)
    (use assms(2-) in \<open>auto intro: fd_cache_init_inv fd_step_inv\<close>)

text \<open>
  C22: a descriptor is handed out only if it is cached for the device, inode and generation of the
  handle, or if \<open>fstat\<close> on it reported exactly these.
\<close>

theorem fd_open_checked:
  fixes s :: "('w, 'z) fdc_scheme"
  assumes eq: "fd_open os p nfh kind caching s = (fd, s')" and ok: "fd \<noteq> -1"
  shows "(\<exists>e\<in>set (fd_cache s). e_fd e = fd \<and>
      e_key e = (kind, fh_dev (fh_cast nfh), fh_ino (fh_cast nfh), fh_gen (fh_cast nfh))) \<or>
    (\<exists>buf t t' :: ('w, 'z) fdc_scheme. backend_fstat os fd t = (Some buf, t') \<and>
       st_dev buf = ucast (fh_dev (fh_cast nfh)) \<and> st_ino buf = fh_ino (fh_cast nfh) \<and>
       get_gen buf = fh_gen (fh_cast nfh))"
  using eq
proof (cases rule: fd_open_cases)
  case (cached i)
  with idx_by_fh_Some [OF cached(1)] show ?thesis by (metis nth_mem)
qed (use ok in auto)

text \<open>
  C23: an error of a sync or close in the background is reported at the next open of the file, once: the
  open fails with \<open>EIO\<close>, the entry is gone and the write verifier is computed anew.
\<close>

theorem fd_open_reports_pending:
  assumes idx: "idx_by_fh (fh_cast nfh) kind s = Some i" and pend: "pending (fd_cache s ! i)"
  shows "\<exists>s'. fd_open os p nfh kind caching s = (-1, s') \<and> errno s' = EIO \<and>
    fd_cache s' = (fd_cache s)[i := fd_clear (fd_cache s ! i)] \<and>
    wverf s' = wverf (regenerate_write_verifier os (s\<lparr>errno := EIO\<rparr>))"
proof -
  have "fd_cache_del os i False s =
      (-1, fd_upd i fd_clear (regenerate_write_verifier os (s\<lparr>errno := EIO\<rparr>)))"
    using pend by (simp add: pending_def fd_cache_del_def Let_def fd_clear_def [abs_def])
  with idx pend show ?thesis
    using idx_by_fh_Some(1) [OF idx] by (simp add: pending_def fd_open_def Let_def)
qed


text \<open>
  C25: a sync leaves no entry for writing behind for the handle, reports success or failure, and
  changes the write verifier only when it fails.
\<close>

theorem fd_sync_spec:
  assumes inv: "fdc_inv s" and eq: "fd_sync os nfh s = (r, s')"
    and fh: "(fh_dev (fh_cast nfh), fh_ino (fh_cast nfh), fh_gen (fh_cast nfh)) \<noteq> (0, 0, 0)"
  shows "(r = 0 \<or> r = -1) \<and> (r = 0 \<longrightarrow> wverf s' = wverf s) \<and>
    (\<forall>e\<in>set (fd_cache s'). e_use e \<noteq> 0 \<longrightarrow>
       e_key e \<noteq> (UNFS3_FD_WRITE, fh_dev (fh_cast nfh), fh_ino (fh_cast nfh), fh_gen (fh_cast nfh)))"
proof (cases "idx_by_fh (fh_cast nfh) UNFS3_FD_WRITE s")
  case None
  with eq have "r = 0" "s' = s" by (auto simp: fd_sync_def)
  with None show ?thesis by (auto simp: idx_by_fh_def find_idx_None_nth e_key_def in_set_conv_nth)
next
  case (Some i)
  have len: "length (fd_cache s) = FD_ENTRIES" using inv by (rule fdc_inv_length)
  have i: "i < FD_ENTRIES" and key: "e_key (fd_cache s ! i) =
      (UNFS3_FD_WRITE, fh_dev (fh_cast nfh), fh_ino (fh_cast nfh), fh_gen (fh_cast nfh))"
    using idx_by_fh_Some [OF Some] len by auto
  have d: "fd_cache_del os i False s = (r, s')" using eq Some by (simp add: fd_sync_def)
  have il: "i < length (fd_cache s)" using i len by simp
  note spec = fd_cache_del_spec [OF d il]
  have c: "fd_cache s' = (fd_cache s)[i := fd_clear (fd_cache s ! i)]" using spec(3) by simp
  have "e_key e \<noteq> e_key (fd_cache s ! i)" if "e \<in> set (fd_cache s')" "e_use e \<noteq> 0" for e
  proof
    assume eqk: "e_key e = e_key (fd_cache s ! i)"
    from that(1) obtain j where j: "j < FD_ENTRIES" "e = fd_cache s' ! j"
      using c len by (auto simp: in_set_conv_nth)
    show False
    proof (cases "j = i")
      case True
      with j c il that(2) show False by (simp add: fd_clear_def)
    next
      case False
      then have ej: "e = fd_cache s ! j" using j c by simp
      have tab: "fd_table (fd_cache s)" using inv by (simp add: fdc_inv_def)
      have "e_use (fd_cache s ! i) = 0"
        using tab i j(1) ej eqk that(2) False by (auto simp: fd_table_def)
      then have "fd_clear (fd_cache s ! i) = fd_cache s ! i" by (rule fd_table_nth_clear [OF tab i])
      then have "e_key (fd_cache s ! i) = e_key (fd_clear (fd_cache s ! i))" by simp
      then show False using key fh by (simp add: e_key_def fd_clear_def)
    qed
  qed
  with spec(1,6) key show ?thesis by auto
qed

end
