(* ===== verification/Attr.thy ===== *)
theory Attr
  imports Fd_Cache
begin

text \<open>
  \<open>attr.c\<close>: reading and setting of attributes. \<open>error_attr\<close> is a static variable, so its
  attribute memory is zero. The two fields \<open>set_uid3_u\<close> and \<open>set_gid3_u\<close> that
  \<open>atomic_attr\<close> reads before it looks at \<open>set_it\<close> only matter where the flag is set.
\<close>

definition is_reg :: "('w, 'z) fdc_scheme \<Rightarrow> nfsstat3" where
  "is_reg s =
     (if \<not> st_cache_valid s then NFS3ERR_STALE
      else if S_ISREG (st_mode (st_cache s)) then NFS3_OK
      else NFS3ERR_INVAL)"

fun type_to_mode :: "ftype3 \<Rightarrow> uint32" where
  "type_to_mode NF3REG = S_IFREG"
| "type_to_mode NF3DIR = S_IFDIR"
| "type_to_mode NF3LNK = S_IFLNK"
| "type_to_mode NF3CHR = S_IFCHR"
| "type_to_mode NF3BLK = S_IFBLK"
| "type_to_mode NF3FIFO = S_IFIFO"
| "type_to_mode NF3SOCK = S_IFSOCK"
| "type_to_mode NF3NONE = 0"
| "type_to_mode (NF3OTHER i) = 0"

definition error_attr :: post_op_attr where
  "error_attr = \<lparr>attributes_follow = False, attributes = zero_fattr\<rparr>"

definition get_pre_cached :: "('w, 'z) fdc_scheme \<Rightarrow> pre_op_attr" where
  "get_pre_cached s =
     (if \<not> st_cache_valid s then None
      else Some \<lparr>wcc_size = st_size (st_cache s), wcc_mtime = time32 (st_mtime (st_cache s)),
                 wcc_ctime = time32 (st_ctime (st_cache s))\<rparr>)"

definition mode_type :: "uint32 \<Rightarrow> ftype3" where
  "mode_type m =
     (if S_ISDIR m then NF3DIR
      else if S_ISBLK m then NF3BLK
      else if S_ISCHR m then NF3CHR
      else if S_ISLNK m then NF3LNK
      else if S_ISSOCK m then NF3SOCK
      else if S_ISFIFO m then NF3FIFO
      else NF3REG)"

definition adapt_mode :: "('w, 'z) daemon_scheme \<Rightarrow> uint32 \<Rightarrow> uint32" where
  "adapt_mode s m =
     (if opt_readable_executables s \<and> S_ISREG m
      then (let m1 = (if has_bits m S_IXUSR then m OR S_IRUSR else m);
                m2 = (if has_bits m1 S_IXGRP then m1 OR S_IRGRP else m1)
            in if has_bits m2 S_IXOTH then m2 OR S_IROTH else m2)
      else m)"

text \<open>The owner and group the client is shown; with \<open>-s\<close> they are translated.\<close>

definition shown_ids :: "stat \<Rightarrow> svc_req \<Rightarrow> ('w, 'z) daemon_scheme \<Rightarrow> uint32 \<times> uint32" where
  "shown_ids buf req s =
     (if opt_singleuser s
      then (let is_unix = (oa_flavor req = AUTH_UNIX);
                req_uid = (if is_unix then aup_uid (rq_clntcred req) else 0);
                req_gid = (if is_unix then aup_gid (rq_clntcred req) else 0);
                r = ruid (cred s)
            in (if st_uid buf = r \<or> r = 0 then req_uid else 0,
                if st_gid buf = rgid (cred s) \<or> r = 0 then req_gid else 0))
      else (st_uid buf, st_gid buf))"

text \<open>\<open>lstat\<close> of a null pointer fails with \<open>EFAULT\<close>, which is 14.\<close>

definition lstat_opt ::
  "'w os \<Rightarrow> path option \<Rightarrow> ('w, 'z) sys_scheme \<Rightarrow> stat option \<times> ('w, 'z) sys_scheme" where
  "lstat_opt os po s =
     (case po of None \<Rightarrow> (None, s\<lparr>errno := EOTHER 14\<rparr>) | Some p \<Rightarrow> backend_lstat os p s)"

definition get_post_buf ::
  "'w os \<Rightarrow> stat \<Rightarrow> svc_req \<Rightarrow> ('w, 'z) fdc_scheme \<Rightarrow> post_op_attr \<times> ('w, 'z) fdc_scheme" where
  "get_post_buf os buf req s =
     (let ids = shown_ids buf req s;
          (fsid, s) =
            (if has_bits (exports_opts s) OPT_REMOVABLE
             then (case lstat_opt os (export_path s) s of
                     (None, s) \<Rightarrow> (st_dev buf, s)
                   | (Some epbuf, s) \<Rightarrow>
                       (if st_dev buf = st_dev epbuf then ucast (export_fsid s) else st_dev buf, s))
             else (st_dev buf, s))
      in (\<lparr>attributes_follow = True,
           attributes = \<lparr>fa_type = mode_type (st_mode buf),
                         fa_mode = adapt_mode s (st_mode buf) AND 0xFFFF,
                         fa_nlink = ucast (st_nlink buf),
                         fa_uid = fst ids,
                         fa_gid = snd ids,
                         fa_size = st_size buf,
                         fa_used = st_blocks buf * 512,
                         fa_rdev = \<lparr>specdata1 = ucast (drop_bit 8 (st_rdev buf) AND 0xFF),
                                    specdata2 = ucast (st_rdev buf AND 0xFF)\<rparr>,
                         fa_fsid = fsid,
                         fa_fileid = st_ino buf,
                         fa_atime = time32 (st_atime buf),
                         fa_mtime = time32 (st_mtime buf),
                         fa_ctime = time32 (st_ctime buf)\<rparr>\<rparr>, s))"

definition get_post_ll ::
  "'w os \<Rightarrow> path option \<Rightarrow> uint32 \<Rightarrow> uint64 \<Rightarrow> svc_req \<Rightarrow> ('w, 'z) fdc_scheme
   \<Rightarrow> post_op_attr \<times> ('w, 'z) fdc_scheme" where
  "get_post_ll os po dev ino req s =
     (case po of
        None \<Rightarrow> (error_attr, s)
      | Some p \<Rightarrow>
          (case backend_lstat os p s of
             (None, s) \<Rightarrow> (error_attr, s)
           | (Some buf, s) \<Rightarrow>
               if ucast dev \<noteq> st_dev buf \<or> ino \<noteq> st_ino buf then (error_attr, s)
               else get_post_buf os buf req s))"

definition get_post_attr ::
  "'w os \<Rightarrow> path option \<Rightarrow> nfs_fh3 \<Rightarrow> svc_req \<Rightarrow> ('w, 'z) fdc_scheme
   \<Rightarrow> post_op_attr \<times> ('w, 'z) fdc_scheme" where
  "get_post_attr os po nfh req s =
     (let fh = fh_cast nfh in get_post_ll os po (fh_dev fh) (fh_ino fh) req s)"

definition get_post_stat ::
  "'w os \<Rightarrow> path option \<Rightarrow> svc_req \<Rightarrow> ('w, 'z) fdc_scheme \<Rightarrow> post_op_attr \<times> ('w, 'z) fdc_scheme" where
  "get_post_stat os po req s =
     get_post_ll os po (ucast (st_dev (st_cache s))) (st_ino (st_cache s)) req s"

definition get_post_cached ::
  "'w os \<Rightarrow> svc_req \<Rightarrow> ('w, 'z) fdc_scheme \<Rightarrow> post_op_attr \<times> ('w, 'z) fdc_scheme" where
  "get_post_cached os req s =
     (if \<not> st_cache_valid s then (error_attr, s) else get_post_buf os (st_cache s) req s)"

subsection \<open>Setting attributes\<close>

definition new_time ::
  "'w os \<Rightarrow> set_time_how \<Rightarrow> time_t \<Rightarrow> ('w, 'z) fdc_scheme \<Rightarrow> time_t \<times> ('w, 'z) fdc_scheme" where
  "new_time os how old s =
     (case how of
        SET_TO_SERVER_TIME \<Rightarrow> c_time os s
      | SET_TO_CLIENT_TIME t \<Rightarrow> (uint (seconds t), s)
      | _ \<Rightarrow> (old, s))"

definition set_time ::
  "'w os \<Rightarrow> path \<Rightarrow> stat \<Rightarrow> sattr3 \<Rightarrow> ('w, 'z) fdc_scheme \<Rightarrow> nfsstat3 \<times> ('w, 'z) fdc_scheme" where
  "set_time os p buf new s =
     (if set_atime new \<noteq> DONT_CHANGE \<or> set_mtime new \<noteq> DONT_CHANGE
      then (let (new_atime, s) = new_time os (set_atime new) (st_atime buf) s;
                (new_mtime, s) = new_time os (set_mtime new) (st_mtime buf) s;
                (res, s) = backend_utime os p new_atime new_mtime s
            in if res = -1 then (setattr_err (errno s), s) else (NFS3_OK, s))
      else (NFS3_OK, s))"

text \<open>The ids passed to \<open>chown\<close>; -1 leaves an id as it is.\<close>

definition chown_uid :: "sattr3 \<Rightarrow> stat \<Rightarrow> uint32" where
  "chown_uid new buf =
     (let u = (case set_uid new of Some u \<Rightarrow> u | None \<Rightarrow> -1) in if u = st_uid buf then -1 else u)"

definition chown_gid :: "sattr3 \<Rightarrow> uint32" where
  "chown_gid new = (case set_gid new of Some g \<Rightarrow> g | None \<Rightarrow> -1)"

text \<open>
  The common shape of the three settings: size, owner and mode in this order, each only where
  asked for, the first failure ending the sequence.
\<close>

definition set_steps ::
  "(uint64 \<Rightarrow> ('w, 'z) fdc_scheme \<Rightarrow> int \<times> ('w, 'z) fdc_scheme) \<Rightarrow>
   (uint32 \<Rightarrow> uint32 \<Rightarrow> ('w, 'z) fdc_scheme \<Rightarrow> int \<times> ('w, 'z) fdc_scheme) \<Rightarrow>
   (uint32 \<Rightarrow> ('w, 'z) fdc_scheme \<Rightarrow> int \<times> ('w, 'z) fdc_scheme) \<Rightarrow>
   stat \<Rightarrow> sattr3 \<Rightarrow> ('w, 'z) fdc_scheme \<Rightarrow> int \<times> ('w, 'z) fdc_scheme" where
  "set_steps trunc chown chmod buf new s =
     (let (r1, s) = (case set_size new of None \<Rightarrow> (0, s) | Some n \<Rightarrow> trunc n s)
      in if r1 = -1 then (-1, s)
         else
           (let (r2, s) = (if set_uid new \<noteq> None \<or> set_gid new \<noteq> None
                           then chown (chown_uid new buf) (chown_gid new) s else (0, s))
            in if r2 = -1 then (-1, s)
               else (case set_mode new of None \<Rightarrow> (0, s) | Some m \<Rightarrow> chmod m s)))"

definition set_attr_unsafe ::
  "'w os \<Rightarrow> path \<Rightarrow> nfs_fh3 \<Rightarrow> sattr3 \<Rightarrow> ('w, 'z) fdc_scheme \<Rightarrow> nfsstat3 \<times> ('w, 'z) fdc_scheme" where
  "set_attr_unsafe os p nfh new s =
     (let fh = fh_cast nfh
      in case backend_lstat os p s of
           (None, s) \<Rightarrow> (NFS3ERR_STALE, s)
         | (Some buf, s) \<Rightarrow>
             if st_dev buf \<noteq> ucast (fh_dev fh) \<or> st_ino buf \<noteq> fh_ino fh then (NFS3ERR_STALE, s)
             else
               (let (r, s) = set_steps (backend_truncate os p) (backend_lchown os p)
                               (backend_chmod os p) buf new s
                in if r = -1 then (setattr_err (errno s), s) else set_time os p buf new s))"

definition set_attr ::
  "'w os \<Rightarrow> path \<Rightarrow> nfs_fh3 \<Rightarrow> sattr3 \<Rightarrow> ('w, 'z) fdc_scheme \<Rightarrow> nfsstat3 \<times> ('w, 'z) fdc_scheme" where
  "set_attr os p nfh new s =
     (let fh = fh_cast nfh
      in case backend_lstat os p s of
           (None, s) \<Rightarrow> (NFS3ERR_STALE, s)
         | (Some buf, s) \<Rightarrow>
             if S_ISBLK (st_mode buf) \<or> S_ISCHR (st_mode buf) then set_attr_unsafe os p nfh new s
             else if S_ISLNK (st_mode buf) then set_attr_unsafe os p nfh new s
             else
               (let (fd, s) = backend_open os p (O_WRONLY OR O_NONBLOCK) s;
                    (fd, s) = (if fd = -1 then backend_open os p (O_RDONLY OR O_NONBLOCK) s
                               else (fd, s))
                in if fd = -1 then set_attr_unsafe os p nfh new s
                   else
                     (case backend_fstat os fd s of
                        (None, s) \<Rightarrow> (NFS3ERR_STALE, snd (backend_close os fd s))
                      | (Some buf, s) \<Rightarrow>
                          if ucast (fh_dev fh) \<noteq> st_dev buf \<or> fh_ino fh \<noteq> st_ino buf
                             \<or> fh_gen fh \<noteq> get_gen buf
                          then (NFS3ERR_STALE, snd (backend_close os fd s))
                          else
                            (let (r, s) = set_steps (backend_ftruncate os fd) (backend_fchown os fd)
                                            (backend_fchmod os fd) buf new s
                             in if r = -1
                                then (let (_, s) = backend_close os fd s
                                      in (setattr_err (errno s), s))
                                else
                                  (let (res, s) = backend_close os fd s
                                   in if res = -1 then (NFS3ERR_IO, s)
                                      else set_time os p buf new s)))))"

definition create_mode :: "sattr3 \<Rightarrow> uint32" where
  "create_mode new =
     (case set_mode new of
        Some m \<Rightarrow> m
      | None \<Rightarrow> S_IRUSR OR S_IWUSR OR S_IXUSR OR S_IRGRP OR S_IWGRP OR S_IXGRP OR S_IROTH OR S_IXOTH)"

definition atomic_attr :: "sattr3 \<Rightarrow> ('w, 'z) fdc_scheme \<Rightarrow> nfsstat3" where
  "atomic_attr attr s =
     (if (case set_uid attr of None \<Rightarrow> False | Some u \<Rightarrow> mangle_uid u s \<noteq> euid (cred s))
         \<or> (case set_gid attr of None \<Rightarrow> False | Some g \<Rightarrow> mangle_gid g s \<noteq> egid (cred s))
         \<or> (case set_size attr of None \<Rightarrow> False | Some n \<Rightarrow> n \<noteq> 0)
         \<or> (case set_atime attr of SET_TO_CLIENT_TIME _ \<Rightarrow> True | _ \<Rightarrow> False)
         \<or> (case set_mtime attr of SET_TO_CLIENT_TIME _ \<Rightarrow> True | _ \<Rightarrow> False)
      then NFS3ERR_INVAL else NFS3_OK)"

subsection \<open>The iRODS permission of a mode\<close>

text \<open>
  \<open>permission\<close> takes three octal digits off the mode, the lowest first. The code computes a
  digit as eight times the fraction of \<open>value/8.0\<close>, which is exact and is the remainder towards
  minus infinity; the next value is the quotient towards zero.
\<close>

definition quot8 :: "int \<Rightarrow> int" where
  "quot8 v = (if v < 0 then - ((- v) div 8) else v div 8)"

fun permission_loop :: "nat \<Rightarrow> int \<Rightarrow> int \<Rightarrow> int" where
  "permission_loop 0 v status = status"
| "permission_loop (Suc n) v status =
     (let p = v mod 8; v = quot8 v
      in if p = 2 \<or> p = 3 then 2
         else if p = 5 \<or> p = 4 \<or> p = 1 then permission_loop n v 1
         else if p = 6 \<or> p = 7 then permission_loop n v 3
         else permission_loop n v status)"

definition permission :: "int \<Rightarrow> int" where
  "permission v = permission_loop 3 v 0"

subsection \<open>What these functions leave alone\<close>

lemma lstat_opt_only [sys_frame]: "lstat_opt os po s = (r, s') \<Longrightarrow> sys_only s s'"
  by (auto simp: lstat_opt_def split: option.splits dest: backend_only)

lemma get_post_buf_only [sys_frame]: "get_post_buf os buf req s = (r, s') \<Longrightarrow> sys_only s s'"
  by (auto simp: get_post_buf_def Let_def split: if_splits prod.splits option.splits
      dest: lstat_opt_only)

lemma get_post_ll_only [sys_frame]: "get_post_ll os po dev ino req s = (r, s') \<Longrightarrow> sys_only s s'"
  by (auto simp: get_post_ll_def split: if_splits prod.splits option.splits
      dest!: backend_only get_post_buf_only intro: sys_only_trans)

lemma get_post_attr_only [sys_frame]: "get_post_attr os po nfh req s = (r, s') \<Longrightarrow> sys_only s s'"
  by (simp add: get_post_attr_def Let_def get_post_ll_only)

lemma get_post_stat_only [sys_frame]: "get_post_stat os po req s = (r, s') \<Longrightarrow> sys_only s s'"
  by (simp add: get_post_stat_def get_post_ll_only)

lemma get_post_cached_only [sys_frame]: "get_post_cached os req s = (r, s') \<Longrightarrow> sys_only s s'"
  by (auto simp: get_post_cached_def split: if_splits dest: get_post_buf_only)

lemma new_time_only [sys_frame]: "new_time os how old s = (t, s') \<Longrightarrow> sys_only s s'"
  by (auto simp: new_time_def split: set_time_how.splits dest: c_time_only)

lemma set_time_only [sys_frame]: "set_time os p buf new s = (r, s') \<Longrightarrow> sys_only s s'"
  by (auto simp: set_time_def Let_def split: if_splits prod.splits
      dest!: new_time_only backend_only intro: sys_only_trans)

text \<open>A sequence of settings keeps what each of its steps keeps.\<close>

lemma set_steps_only:
  assumes "\<And>n s r s'. trunc n s = (r, s') \<Longrightarrow> sys_only s s'"
    and "\<And>u g s r s'. chown u g s = (r, s') \<Longrightarrow> sys_only s s'"
    and "\<And>m s r s'. chmod m s = (r, s') \<Longrightarrow> sys_only s s'"
    and "set_steps trunc chown chmod buf new s = (r, s')"
  shows "sys_only s s'"
  using assms(4)
  by (auto simp: set_steps_def Let_def split: if_splits prod.splits option.splits
      dest!: assms(1-3) intro: sys_only_trans)

lemma set_attr_unsafe_only [sys_frame]: "set_attr_unsafe os p nfh new s = (r, s') \<Longrightarrow> sys_only s s'"
  by (auto simp: set_attr_unsafe_def Let_def split: if_splits prod.splits option.splits
      dest!: set_steps_only [rotated 3] dest: backend_only set_time_only intro: sys_only_trans)

subsection \<open>What the client is shown\<close>

text \<open>An attribute block is sent only for the object the caller means.\<close>

lemma get_post_ll_follow:
  assumes "get_post_ll os po dev ino req s = (a, s')" and "attributes_follow a"
  obtains p buf t where "po = Some p" "backend_lstat os p s = (Some buf, t)"
    "st_dev buf = ucast dev" "st_ino buf = ino" "get_post_buf os buf req t = (a, s')"
  using assms
  by (auto simp: get_post_ll_def error_attr_def split: option.splits prod.splits if_splits)

lemma adapt_mode_grants:
  "m AND adapt_mode s m = m"
  "adapt_mode s m AND NOT (S_IRUSR OR S_IRGRP OR S_IROTH) = m AND NOT (S_IRUSR OR S_IRGRP OR S_IROTH)"
proof -
  show "m AND adapt_mode s m = m"
    by (auto intro!: bit_word_eqI simp: adapt_mode_def Let_def bit_simps)
  show "adapt_mode s m AND NOT (S_IRUSR OR S_IRGRP OR S_IROTH) = m AND NOT (S_IRUSR OR S_IRGRP OR S_IROTH)"
    by (auto intro!: bit_word_eqI simp: adapt_mode_def Let_def bit_simps)
qed

text \<open>The permission of a mode, digit by digit: others, group and owner.\<close>

definition digit_class :: "int \<Rightarrow> int option" where
  "digit_class d = (if d \<in> {2, 3} then Some 2 else if d \<in> {1, 4, 5} then Some 1
     else if d \<in> {6, 7} then Some 3 else None)"

lemma permission_digits:
  assumes "0 \<le> u" "u < 8" "0 \<le> g" "g < 8" "0 \<le> w" "w < 8"
  shows "permission (64 * u + 8 * g + w) =
    (if 2 \<in> {d. digit_class u = Some d \<or> digit_class g = Some d \<or> digit_class w = Some d} then 2
     else case digit_class u of Some d \<Rightarrow> d
       | None \<Rightarrow> (case digit_class g of Some d \<Rightarrow> d
           | None \<Rightarrow> (case digit_class w of Some d \<Rightarrow> d | None \<Rightarrow> 0)))"
proof -
  let ?v = "64 * u + 8 * g + w"
  have "?v mod 8 = w" using assms by presburger
  moreover have "quot8 ?v = 8 * u + g" "(8 * u + g) mod 8 = g" "quot8 (8 * u + g) = u" "u mod 8 = u"
    using assms by (auto simp: quot8_def)
  ultimately have m: "?v mod 8 = w" "quot8 ?v = 8 * u + g" "(8 * u + g) mod 8 = g"
    "quot8 (8 * u + g) = u" "u mod 8 = u" by blast+
  have step: "permission ?v = permission_loop (Suc (Suc (Suc 0))) ?v 0"
    by (simp add: permission_def numeral_3_eq_3)
  have "u \<in> {0..7}" "g \<in> {0..7}" "w \<in> {0..7}" using assms by auto
  then show ?thesis
    unfolding step by (simp add: m Let_def digit_class_def)
qed

subsection \<open>Properties of attributes\<close>


text \<open>
  The file type of a mode is the NFS type the mode was made from, whatever its permission bits.
\<close>

lemma type_mode_roundtrip:
  assumes "type_to_mode t \<noteq> 0"
  shows "mode_type (type_to_mode t OR (m AND 0xFFF)) = t"
proof -
  have "(x OR (m AND 0xFFF)) AND 0xF000 = x AND 0xF000" for x :: uint32
    by (simp add: bit.conj_disj_distrib2 ac_simps)
  with assms show ?thesis
    by (cases t) (simp_all add: mode_type_def mode_tests mode_bits)
qed

end
