(* ===== verification/Readdir.thy ===== *)
theory Readdir
  imports Attr
begin

text \<open>
  \<open>readdir.c\<close>: one page of a directory. A cookie is the position after its entry in the lower
  32 bits, under the server's current cookie base in the upper ones. The linked list of the
  reply is a list; the directory stream is the list of the names not delivered yet.
\<close>

definition MAX_ENTRIES :: nat where "MAX_ENTRIES = 143"
definition RESOK_SIZE :: nat where "RESOK_SIZE = 104"
definition ENTRY_SIZE :: nat where "ENTRY_SIZE = 24"

definition NAME_SIZE :: "string \<Rightarrow> nat" where
  "NAME_SIZE n = ((length n + 3) div 4) * 4"

record entry3 =
  ent_fileid :: uint64
  ent_name :: string
  ent_cookie :: uint64

record READDIR3res =
  rd_status :: nfsstat3
  rd_entries :: "entry3 list"
  rd_eof :: bool

definition rd_error :: "nfsstat3 \<Rightarrow> READDIR3res" where
  "rd_error e = \<lparr>rd_status = e, rd_entries = [], rd_eof = False\<rparr>"

definition directory_hash :: "'w os \<Rightarrow> path \<Rightarrow> ('w, 'z) fdc_scheme \<Rightarrow> uint32 \<times> ('w, 'z) fdc_scheme" where
  "directory_hash os p s =
     (case backend_opendir os p s of
        (None, s) \<Rightarrow> (0, s)
      | (Some names, s) \<Rightarrow> (fold fnv1a_32 names 0, s))"

definition child_path :: "path \<Rightarrow> string \<Rightarrow> path" where
  "child_path p n = (if p = ''/'' then ''/'' @ n else p @ ''/'' @ n)"

text \<open>
  The loop over the stream. It ends with an error, or with the entries of the page and the
  names left, of which there are none exactly at the end of the directory.
\<close>

fun read_dir_loop ::
  "'w os \<Rightarrow> path \<Rightarrow> uint64 \<Rightarrow> nat \<Rightarrow> nat \<Rightarrow> nat \<Rightarrow> string list \<Rightarrow> entry3 list \<Rightarrow> ('w, 'z) fdc_scheme
   \<Rightarrow> (nfsstat3 + entry3 list \<times> string list) \<times> ('w, 'z) fdc_scheme" where
  "read_dir_loop os p cookie cnt real_count i [] acc s = (Inr (acc, []), s)"
| "read_dir_loop os p cookie cnt real_count i (n # ns) acc s =
     (if real_count < cnt \<and> i < MAX_ENTRIES
      then (if length p + length n + 1 < NFS_MAXPATHLEN
            then (case backend_lstat os (child_path p n) s of
                    (None, s) \<Rightarrow> (Inl (readdir_err (errno s)), s)
                  | (Some buf, s) \<Rightarrow>
                      (let e = \<lparr>ent_fileid = st_ino buf, ent_name = n,
                                ent_cookie = (cookie + 1 + of_nat i) OR rcookie s\<rparr>;
                           real_count = real_count + (ENTRY_SIZE + NAME_SIZE n)
                       in if cnt < real_count \<and> 0 < i then (Inr (acc, n # ns), s)
                          else read_dir_loop os p cookie cnt real_count (i + 1) ns (acc @ [e]) s))
            else (Inl NFS3ERR_IO, s))
      else (Inr (acc, n # ns), s))"

text \<open>The position a cookie stands for; one from another cookie base starts over.\<close>

definition cookie_pos :: "uint64 \<Rightarrow> uint64 \<Rightarrow> uint64" where
  "cookie_pos base cookie =
     (let upper = cookie AND 0xFFFFFFFF00000000;
          cookie = (if cookie \<noteq> 0 \<and> upper \<noteq> base then 0 else cookie)
      in cookie AND 0xFFFFFFFF)"

definition read_dir ::
  "'w os \<Rightarrow> path \<Rightarrow> uint64 \<Rightarrow> uint32 \<Rightarrow> ('w, 'z) fdc_scheme \<Rightarrow> READDIR3res \<times> ('w, 'z) fdc_scheme" where
  "read_dir os p cookie cnt s =
     (let cookie = cookie_pos (rcookie s) cookie;
          n = (if 4096 < unat cnt then 4096 else unat cnt)
      in case backend_opendir os p s of
           (None, s) \<Rightarrow>
             if has_bits (exports_opts s) OPT_REMOVABLE \<and> export_point p s
             then (\<lparr>rd_status = NFS3_OK, rd_entries = [], rd_eof = True\<rparr>, s)
             else (rd_error (readdir_err (errno s)), s)
         | (Some names, s) \<Rightarrow>
             (case read_dir_loop os p cookie n RESOK_SIZE 0 (drop (unat cookie) names) [] s of
                (Inl e, s) \<Rightarrow> (rd_error e, s)
              | (Inr (ents, rest), s) \<Rightarrow>
                  (\<lparr>rd_status = NFS3_OK, rd_entries = ents, rd_eof = (rest = [])\<rparr>, s)))"

subsection \<open>What one page holds\<close>

lemma read_dir_loop_only:
  "read_dir_loop os p c cnt rc i ns acc s = (r, s') \<Longrightarrow> sys_only s s'"
  by (induction ns arbitrary: rc i acc s)
    (auto simp: Let_def split: if_splits option.splits prod.splits
      dest!: backend_only intro: sys_only_trans)

lemma read_dir_only [sys_frame]: "read_dir os p c cnt s = (r, s') \<Longrightarrow> sys_only s s'"
  by (auto simp: read_dir_def Let_def split: if_splits option.splits prod.splits sum.splits
      dest!: backend_only read_dir_loop_only intro: sys_only_trans)

text \<open>
  On a file system at rest whose objects can all be examined, the loop delivers a prefix of the
  names, with consecutive cookies, and never delivers nothing while there is room to begin.
\<close>

definition readable_dir :: "(path \<Rightarrow> errno + stat) \<Rightarrow> path \<Rightarrow> string list \<Rightarrow> bool" where
  "readable_dir st p names \<longleftrightarrow>
     (\<forall>n\<in>set names. length p + length n + 1 < NFS_MAXPATHLEN \<and>
        (case st (child_path p n) of Inl _ \<Rightarrow> False | Inr _ \<Rightarrow> True))"

definition page_entries :: "(path \<Rightarrow> errno + stat) \<Rightarrow> path \<Rightarrow> uint64 \<Rightarrow> uint64 \<Rightarrow> nat \<Rightarrow> string list \<Rightarrow> entry3 list" where
  "page_entries st p c base i ns =
     map (\<lambda>(j, n). \<lparr>ent_fileid = (case st (child_path p n) of Inl _ \<Rightarrow> 0 | Inr b \<Rightarrow> st_ino b),
                    ent_name = n, ent_cookie = (c + 1 + of_nat (i + j)) OR base\<rparr>)
       (zip [0..<length ns] ns)"

lemma page_entries_Cons:
  "page_entries st p c base i (n # ns) =
     \<lparr>ent_fileid = (case st (child_path p n) of Inl _ \<Rightarrow> 0 | Inr b \<Rightarrow> st_ino b), ent_name = n,
      ent_cookie = (c + 1 + of_nat i) OR base\<rparr> # page_entries st p c base (Suc i) ns"
proof -
  have "[0..<length (n # ns)] = 0 # map Suc [0..<length ns]"
    by (simp add: upt_conv_Cons map_Suc_upt del: upt_Suc)
  then show ?thesis
    by (simp add: page_entries_def zip_map1 case_prod_beta del: upt_Suc)
qed

lemma page_entries_Nil [simp]: "page_entries st p c base i [] = []"
  by (simp add: page_entries_def)

lemma page_entries_names [simp]: "map ent_name (page_entries st p c base i ns) = ns"
  by (simp add: page_entries_def case_prod_beta o_def)

lemma length_page_entries [simp]: "length (page_entries st p c base i ns) = length ns"
  by (simp add: page_entries_def)

definition page_size :: "string list \<Rightarrow> nat" where
  "page_size ns = sum_list (map (\<lambda>n. ENTRY_SIZE + NAME_SIZE n) ns)"

lemma page_size_simps [simp]:
  "page_size [] = 0" "page_size (n # ns) = ENTRY_SIZE + NAME_SIZE n + page_size ns"
  by (simp_all add: page_size_def)

lemma read_dir_loop_page:
  assumes static: "static_fs os st ds"
  shows "readable_dir st p ns \<Longrightarrow>
    \<exists>m\<le>length ns. read_dir_loop os p c cnt rc i ns acc s =
        (Inr (acc @ page_entries st p c (rcookie s) i (take m ns), drop m ns), s)
      \<and> (i = 0 \<and> rc < cnt \<and> ns \<noteq> [] \<longrightarrow> 0 < m)
      \<and> (rc + page_size (take m ns) \<le> cnt \<or> i = 0 \<and> m = 1 \<or> m = 0)
      \<and> i + m \<le> max i MAX_ENTRIES"
proof (induction ns arbitrary: rc i acc)
  case Nil
  then show ?case by simp
next
  case (Cons n ns)
  show ?case
  proof (cases "rc < cnt \<and> i < MAX_ENTRIES")
    case False
    have "MAX_ENTRIES \<noteq> 0" by (simp add: MAX_ENTRIES_def)
    with False show ?thesis by (intro exI [of _ 0]) auto
  next
    case room: True
    from Cons.prems obtain b where b: "st (child_path p n) = Inr b"
      and short: "length p + length n + 1 < NFS_MAXPATHLEN"
      by (auto simp: readable_dir_def split: sum.splits)
    have ls: "backend_lstat os (child_path p n) s = (Some b, s)" by (rule static_lstat [OF static b])
    let ?rc = "rc + (ENTRY_SIZE + NAME_SIZE n)"
    let ?e = "\<lparr>ent_fileid = st_ino b, ent_name = n, ent_cookie = (c + 1 + of_nat i) OR rcookie s\<rparr>"
    show ?thesis
    proof (cases "cnt < ?rc \<and> 0 < i")
      case True
      with room short ls show ?thesis by (intro exI [of _ 0]) auto
    next
      case False
      from Cons.IH [of ?rc "i + 1" "acc @ [?e]"] Cons.prems obtain m where m: "m \<le> length ns"
        "read_dir_loop os p c cnt ?rc (i + 1) ns (acc @ [?e]) s =
          (Inr ((acc @ [?e]) @ page_entries st p c (rcookie s) (i + 1) (take m ns), drop m ns), s)"
        "?rc + page_size (take m ns) \<le> cnt \<or> m = 0" "i + 1 + m \<le> max (i + 1) MAX_ENTRIES"
        by (auto simp: readable_dir_def)
      have "read_dir_loop os p c cnt rc i (n # ns) acc s =
          (Inr (acc @ page_entries st p c (rcookie s) i (take (Suc m) (n # ns)), drop (Suc m) (n # ns)), s)"
        using room short ls False m(2) b by (simp add: Let_def page_entries_Cons)
      moreover have "rc + page_size (take (Suc m) (n # ns)) \<le> cnt \<or> i = 0 \<and> Suc m = 1"
        using False m(3) by auto
      moreover have "i + Suc m \<le> max i MAX_ENTRIES" using m(4) room by auto
      ultimately show ?thesis using m(1) by (intro exI [of _ "Suc m"]) auto
    qed
  qed
qed

subsection \<open>Cookies\<close>

lemma mask_high: "(0xFFFFFFFF00000000 :: uint64) = NOT (mask 32)"
  by (simp add: mask_eq_exp_minus_1)

lemma cookie_base_high: "cookie_base b \<Longrightarrow> b AND NOT (mask 32) = b"
  unfolding cookie_base_def mask32_eq
  by (metis (no_types) and.right_neutral bit.conj_disj_distrib bit.disj_cancel_right or.left_neutral)

lemma of_nat_low: "k < 2 ^ 32 \<Longrightarrow> (of_nat k :: uint64) AND mask 32 = of_nat k"
  by (simp add: take_bit_eq_mask [symmetric] take_bit_of_nat take_bit_nat_eq_self)

lemma cookie_pos_or:
  assumes "cookie_base b" and k: "k < 2 ^ 32"
  shows "cookie_pos b (of_nat k OR b) = of_nat k"
proof -
  have low: "(of_nat k :: uint64) AND NOT (mask 32) = 0"
    using of_nat_low [OF k] by (metis and.assoc bit.conj_cancel_right and_zero_eq)
  have "(of_nat k OR b) AND NOT (mask 32) = b"
    using cookie_base_high [OF assms(1)] low by (simp add: bit.conj_disj_distrib2)
  moreover have "(of_nat k OR b) AND mask 32 = of_nat k"
    using assms(1) of_nat_low [OF k] by (simp add: bit.conj_disj_distrib2 cookie_base_def mask32_eq)
  ultimately show ?thesis
    by (auto simp: cookie_pos_def Let_def mask32_eq mask_high)
qed

lemma cookie_pos_zero [simp]: "cookie_pos b 0 = 0"
  by (simp add: cookie_pos_def)

text \<open>The cookie a client sends for position \<open>k\<close>: zero to begin, or the one it was given.\<close>

definition cookie_for :: "uint64 \<Rightarrow> nat \<Rightarrow> uint64 \<Rightarrow> bool" where
  "cookie_for base k c \<longleftrightarrow> c = of_nat k OR base \<or> c = 0 \<and> k = 0"

lemma cookie_pos_for:
  "cookie_base b \<Longrightarrow> k < 2 ^ 32 \<Longrightarrow> cookie_for b k c \<Longrightarrow> cookie_pos b c = of_nat k"
  by (auto simp: cookie_for_def cookie_pos_or)

subsection \<open>Reading a directory page by page\<close>

text \<open>The directory \<open>p\<close> at rest, with \<open>names\<close> in the order the system delivers them.\<close>

definition dir_at_rest :: "'w os \<Rightarrow> path \<Rightarrow> (path \<Rightarrow> errno + stat) \<Rightarrow> string list \<Rightarrow> bool" where
  "dir_at_rest os p st names \<longleftrightarrow>
     (\<exists>ds. static_fs os st ds \<and> ds p = Inr names) \<and> readable_dir st p names \<and> length names < 2 ^ 32"

lemma read_dir_page:
  assumes rest: "dir_at_rest os p st names" and base: "cookie_base (rcookie s)"
    and k: "k \<le> length names" "cookie_for (rcookie s) k c" and cnt: "RESOK_SIZE < unat cnt"
  obtains m where "read_dir os p c cnt s =
      (\<lparr>rd_status = NFS3_OK,
        rd_entries = page_entries st p (of_nat k) (rcookie s) 0 (take m (drop k names)),
        rd_eof = (k + m = length names)\<rparr>, s)"
    and "k + m \<le> length names" and "k < length names \<Longrightarrow> 0 < m" and "m \<le> MAX_ENTRIES"
    and "RESOK_SIZE + page_size (take m (drop k names)) \<le> min 4096 (unat cnt) \<or> m \<le> 1"
proof -
  from rest obtain ds where static: "static_fs os st ds" and names: "ds p = Inr names"
    and rd: "readable_dir st p names" and len: "length names < 2 ^ 32"
    by (auto simp: dir_at_rest_def)
  let ?n = "if 4096 < unat cnt then 4096 else unat cnt"
  have pos: "cookie_pos (rcookie s) c = of_nat k"
    using base k len by (intro cookie_pos_for) auto
  have uk: "unat (of_nat k :: uint64) = k" using k(1) len by (simp add: unat_of_nat)
  have room: "RESOK_SIZE < ?n" using cnt by (simp add: RESOK_SIZE_def)
  have "readable_dir st p (drop k names)" using rd by (auto simp: readable_dir_def dest: in_set_dropD)
  from read_dir_loop_page [OF static this, of "of_nat k" ?n RESOK_SIZE 0 "[]" s] room
  obtain m where m: "m \<le> length (drop k names)"
    "read_dir_loop os p (of_nat k) ?n RESOK_SIZE 0 (drop k names) [] s =
      (Inr (page_entries st p (of_nat k) (rcookie s) 0 (take m (drop k names)), drop m (drop k names)), s)"
    "drop k names \<noteq> [] \<longrightarrow> 0 < m" "m \<le> MAX_ENTRIES"
    "RESOK_SIZE + page_size (take m (drop k names)) \<le> ?n \<or> m \<le> 1"
    by auto
  have eof: "(drop m (drop k names) = []) = (k + m = length names)" using m(1) k(1) by auto
  have "read_dir os p c cnt s =
      (\<lparr>rd_status = NFS3_OK,
        rd_entries = page_entries st p (of_nat k) (rcookie s) 0 (take m (drop k names)),
        rd_eof = (k + m = length names)\<rparr>, s)"
    unfolding read_dir_def Let_def pos uk static_opendir [OF static names] eof [symmetric]
    using m(2) by simp
  then show thesis
    using m(1,3-5) k(1) by (intro that [of m]) (auto split: if_splits)
qed

text \<open>A client that reads on from the cookie of the last entry until the end is reported.\<close>

fun list_dir ::
  "'w os \<Rightarrow> path \<Rightarrow> uint32 \<Rightarrow> nat \<Rightarrow> uint64 \<Rightarrow> ('w, 'z) fdc_scheme \<Rightarrow> string list option" where
  "list_dir os p cnt 0 c s = None"
| "list_dir os p cnt (Suc fuel) c s =
     (case read_dir os p c cnt s of
        (r, s) \<Rightarrow>
          if rd_status r \<noteq> NFS3_OK then None
          else if rd_eof r then Some (map ent_name (rd_entries r))
          else if rd_entries r = [] then None
          else map_option (\<lambda>ns. map ent_name (rd_entries r) @ ns)
                 (list_dir os p cnt fuel (ent_cookie (last (rd_entries r))) s))"

lemma last_page_entries:
  assumes "ns \<noteq> []"
  shows "ent_cookie (last (page_entries st p (of_nat k) base 0 ns)) = of_nat (k + length ns) OR base"
proof -
  have "last (page_entries st p (of_nat k) base 0 ns) =
      page_entries st p (of_nat k) base 0 ns ! (length ns - 1)"
    using assms last_conv_nth [of "page_entries st p (of_nat k) base 0 ns"]
    by (metis length_greater_0_conv length_page_entries)
  also have "ent_cookie \<dots> = (of_nat k + 1 + of_nat (length ns - 1)) OR base"
    using assms by (simp add: page_entries_def)
  also have "(of_nat k + 1 + of_nat (length ns - 1) :: uint64) = of_nat (k + length ns)"
    using assms by (cases "length ns") auto
  finally show ?thesis .
qed

lemma list_dir_complete:
  assumes rest: "dir_at_rest os p st names" and base: "cookie_base (rcookie s)"
    and cnt: "RESOK_SIZE < unat cnt"
  shows "k \<le> length names \<Longrightarrow> cookie_for (rcookie s) k c \<Longrightarrow> length names - k < fuel \<Longrightarrow>
    list_dir os p cnt fuel c s = Some (drop k names)"
proof (induction fuel arbitrary: k c)
  case 0
  then show ?case by simp
next
  case (Suc fuel)
  obtain m where page: "read_dir os p c cnt s =
      (\<lparr>rd_status = NFS3_OK,
        rd_entries = page_entries st p (of_nat k) (rcookie s) 0 (take m (drop k names)),
        rd_eof = (k + m = length names)\<rparr>, s)"
    and m: "k + m \<le> length names" "k < length names \<Longrightarrow> 0 < m"
    using read_dir_page [OF rest base Suc.prems(1,2) cnt] by metis
  show ?case
  proof (cases "k + m = length names")
    case True
    then have "take m (drop k names) = drop k names" by simp
    with page True show ?thesis by simp
  next
    case False
    with m have pos: "0 < m" and km: "k + m < length names" by auto
    let ?ns = "take m (drop k names)"
    have ne: "?ns \<noteq> []" and len: "length ?ns = m" using pos km by auto
    have "cookie_for (rcookie s) (k + m) (ent_cookie (last (page_entries st p (of_nat k) (rcookie s) 0 ?ns)))"
      unfolding cookie_for_def last_page_entries [OF ne] len by simp
    with Suc.IH [of "k + m"] m(1) pos Suc.prems(3)
    have "list_dir os p cnt fuel (ent_cookie (last (page_entries st p (of_nat k) (rcookie s) 0 ?ns))) s =
        Some (drop (k + m) names)" by simp
    moreover have "?ns @ drop (k + m) names = drop k names"
      by (metis add.commute append_take_drop_id drop_drop)
    moreover have "page_entries st p (of_nat k) (rcookie s) 0 ?ns \<noteq> []"
      using ne by (metis length_0_conv length_page_entries)
    ultimately show ?thesis using page False by simp
  qed
qed

lemma read_dir_loop_bound:
  "read_dir_loop os p c cnt k i ns acc s = (Inr (ents, rest), s') \<Longrightarrow>
    \<exists>m\<le>length ns. map ent_name ents = map ent_name acc @ take m ns \<and> rest = drop m ns \<and>
      (k + page_size (take m ns) \<le> cnt \<or> i = 0 \<and> m = 1 \<or> m = 0) \<and> i + m \<le> max i MAX_ENTRIES"
proof (induction ns arbitrary: k i acc s)
  case Nil
  then show ?case by simp
next
  case (Cons n ns)
  show ?case
  proof (cases "k < cnt \<and> i < MAX_ENTRIES")
    case False
    with Cons.prems show ?thesis by (intro exI [of _ 0]) auto
  next
    case room: True
    with Cons.prems obtain b t where ls: "backend_lstat os (child_path p n) s = (Some b, t)"
      and short: "length p + length n + 1 < NFS_MAXPATHLEN"
      by (auto split: if_splits option.splits prod.splits)
    let ?rc = "k + (ENTRY_SIZE + NAME_SIZE n)"
    let ?e = "\<lparr>ent_fileid = st_ino b, ent_name = n, ent_cookie = (c + 1 + of_nat i) OR rcookie t\<rparr>"
    show ?thesis
    proof (cases "cnt < ?rc \<and> 0 < i")
      case True
      with room short ls Cons.prems show ?thesis by (intro exI [of _ 0]) auto
    next
      case False
      with room short ls Cons.prems
      have "read_dir_loop os p c cnt ?rc (i + 1) ns (acc @ [?e]) t = (Inr (ents, rest), s')"
        by (simp add: Let_def)
      from Cons.IH [OF this] obtain m where m: "m \<le> length ns"
        "map ent_name ents = map ent_name (acc @ [?e]) @ take m ns" "rest = drop m ns"
        "?rc + page_size (take m ns) \<le> cnt \<or> m = 0" "i + 1 + m \<le> max (i + 1) MAX_ENTRIES" by auto
      have "k + page_size (take (Suc m) (n # ns)) \<le> cnt \<or> i = 0 \<and> Suc m = 1"
        using False m(4) by auto
      moreover have "i + Suc m \<le> max i MAX_ENTRIES" using m(5) room by auto
      ultimately show ?thesis using m(1-3) by (intro exI [of _ "Suc m"]) auto
    qed
  qed
qed

subsection \<open>Properties of directory reading\<close>

text \<open>
  C6: a client that reads a directory at rest page by page, following the cookie of the last entry,
  gets every name exactly once and in order, and needs no more requests than there are names plus
  one, whatever page size above the fixed part of a reply it asks for.
\<close>

theorem readdir_lists_all:
  assumes "dir_at_rest os p st names" and "cookie_base (rcookie s)" and "RESOK_SIZE < unat cnt"
  shows "list_dir os p cnt (Suc (length names)) 0 s = Some names"
  using list_dir_complete [OF assms, of 0 0 "Suc (length names)"] by (simp add: cookie_for_def)

text \<open>
  A page holds at most 143 entries, and a page of two or more entries fits the size the client
  asked for and 4096 bytes.
\<close>

lemma readdir_page_bound:
  assumes "read_dir os p c cnt s = (r, s')"
  shows "length (rd_entries r) \<le> MAX_ENTRIES \<and>
    (length (rd_entries r) \<le> 1 \<or>
     RESOK_SIZE + page_size (map ent_name (rd_entries r)) \<le> min 4096 (unat cnt))"
proof -
  let ?c = "cookie_pos (rcookie s) c" and ?n = "if 4096 < unat cnt then 4096 else unat cnt"
  consider "rd_entries r = []"
    | names t ents rest where "read_dir_loop os p ?c ?n RESOK_SIZE 0 (drop (unat ?c) names) [] t = (Inr (ents, rest), s')"
        "rd_entries r = ents"
    using assms
    by (fastforce simp: read_dir_def Let_def rd_error_def split: option.splits prod.splits sum.splits if_splits)
  then show ?thesis
  proof cases
    case 1
    then show ?thesis by simp
  next
    case (2 names t ents rest)
    from read_dir_loop_bound [OF 2(1)] obtain m where m: "m \<le> length (drop (unat ?c) names)"
      "map ent_name ents = take m (drop (unat ?c) names)"
      "RESOK_SIZE + page_size (take m (drop (unat ?c) names)) \<le> ?n \<or> m \<le> 1" "m \<le> MAX_ENTRIES"
      by auto
    have "length ents = m" using arg_cong [OF m(2), of length] m(1) by simp
    with m 2(2) show ?thesis by (auto split: if_splits)
  qed
qed

text \<open>
  A cookie stands for its position as long as the cookie base is the one it was issued under; after
  a removal or rename has changed the base, the same cookie starts the directory over.
\<close>

lemma stale_cookie_restarts:
  assumes "cookie_base (rcookie s)" and "k < 2 ^ 32" and "cookie_for (rcookie s) k c"
  shows "cookie_pos (rcookie s) c = of_nat k \<and> cookie_pos (rcookie (change_readdir_cookie s)) c = 0"
proof -
  have "cookie_pos (rcookie (change_readdir_cookie s)) c = 0"
  proof (cases "c = 0")
    case False
    then have c: "c = of_nat k OR rcookie s" using assms(3) by (simp add: cookie_for_def)
    have low: "(of_nat k :: uint64) AND NOT (mask 32) = 0"
      using of_nat_low [OF assms(2)] by (metis and.assoc bit.conj_cancel_right and_zero_eq)
    have "c AND 0xFFFFFFFF00000000 = rcookie s"
      unfolding c mask_high using low cookie_base_high [OF assms(1)]
      by (simp add: bit.conj_disj_distrib2)
    then show ?thesis using rcookie_changes [of s] False by (simp add: cookie_pos_def Let_def)
  qed simp
  with cookie_pos_for [OF assms] show ?thesis by blast
qed

text \<open>
  A client whose count is not above the fixed part of a reply gets an empty page that is not the
  end of the directory, with status OK, so it can never get on.
\<close>

lemma readdir_small_count:
  assumes rest: "dir_at_rest os p st names" and ne: "names \<noteq> []" and cnt: "unat cnt \<le> RESOK_SIZE"
  shows "read_dir os p 0 cnt s = (\<lparr>rd_status = NFS3_OK, rd_entries = [], rd_eof = False\<rparr>, s)"
proof -
  from rest obtain ds where static: "static_fs os st ds" and names: "ds p = Inr names"
    by (auto simp: dir_at_rest_def)
  from ne obtain n ns where "names = n # ns" by (cases names) auto
  with static_opendir [OF static names, of s] cnt show ?thesis
    by (simp add: read_dir_def RESOK_SIZE_def)
qed

end
