(* ===== verification/Md5.thy ===== *)
theory Md5
  imports Prelude
begin

text \<open>
  \<open>md5.c\<close>: the digest with which a mount request proves that it knows a password. The state collects
  the message in blocks of 64 bytes; the words of a block are read in little-endian order. At the end
  the incremental interface is compared with the definition of the digest in RFC 1321.
\<close>

subsection \<open>One block\<close>

definition T_MASK :: uint32 where "T_MASK = NOT 0"

definition md5_T :: "uint32 list" where
  "md5_T =
    [T_MASK XOR 0x28955b87, T_MASK XOR 0x173848a9, 0x242070db, T_MASK XOR 0x3e423111,
     T_MASK XOR 0x0a83f050, 0x4787c62a, T_MASK XOR 0x57cfb9ec, T_MASK XOR 0x02b96afe,
     0x698098d8, T_MASK XOR 0x74bb0850, T_MASK XOR 0x0000a44e, T_MASK XOR 0x76a32841,
     0x6b901122, T_MASK XOR 0x02678e6c, T_MASK XOR 0x5986bc71, 0x49b40821,
     T_MASK XOR 0x09e1da9d, T_MASK XOR 0x3fbf4cbf, 0x265e5a51, T_MASK XOR 0x16493855,
     T_MASK XOR 0x29d0efa2, 0x02441453, T_MASK XOR 0x275e197e, T_MASK XOR 0x182c0437,
     0x21e1cde6, T_MASK XOR 0x3cc8f829, T_MASK XOR 0x0b2af278, 0x455a14ed,
     T_MASK XOR 0x561c16fa, T_MASK XOR 0x03105c07, 0x676f02d9, T_MASK XOR 0x72d5b375,
     T_MASK XOR 0x0005c6bd, T_MASK XOR 0x788e097e, 0x6d9d6122, T_MASK XOR 0x021ac7f3,
     T_MASK XOR 0x5b4115bb, 0x4bdecfa9, T_MASK XOR 0x0944b49f, T_MASK XOR 0x4140438f,
     0x289b7ec6, T_MASK XOR 0x155ed805, T_MASK XOR 0x2b10cf7a, 0x04881d05,
     T_MASK XOR 0x262b2fc6, T_MASK XOR 0x1924661a, 0x1fa27cf8, T_MASK XOR 0x3b53a99a,
     T_MASK XOR 0x0bd6ddbb, 0x432aff97, T_MASK XOR 0x546bdc58, T_MASK XOR 0x036c5fc6,
     0x655b59c3, T_MASK XOR 0x70f3336d, T_MASK XOR 0x00100b82, T_MASK XOR 0x7a7ba22e,
     0x6fa87e4f, T_MASK XOR 0x01d3191f, T_MASK XOR 0x5cfebceb, 0x4e0811a1,
     T_MASK XOR 0x08ac817d, T_MASK XOR 0x42c50dca, 0x2ad7d2bb, T_MASK XOR 0x14792c6e]"

text \<open>The index of the word and the number of bits of the 64 operations, in their order.\<close>

definition md5_steps :: "(nat \<times> nat) list" where
  "md5_steps =
    [(0, 7), (1, 12), (2, 17), (3, 22), (4, 7), (5, 12), (6, 17), (7, 22),
     (8, 7), (9, 12), (10, 17), (11, 22), (12, 7), (13, 12), (14, 17), (15, 22),
     (1, 5), (6, 9), (11, 14), (0, 20), (5, 5), (10, 9), (15, 14), (4, 20),
     (9, 5), (14, 9), (3, 14), (8, 20), (13, 5), (2, 9), (7, 14), (12, 20),
     (5, 4), (8, 11), (11, 16), (14, 23), (1, 4), (4, 11), (7, 16), (10, 23),
     (13, 4), (0, 11), (3, 16), (6, 23), (9, 4), (12, 11), (15, 16), (2, 23),
     (0, 6), (7, 10), (14, 15), (5, 21), (12, 6), (3, 10), (10, 15), (1, 21),
     (8, 6), (15, 10), (6, 15), (13, 21), (4, 6), (11, 10), (2, 15), (9, 21)]"

definition ROTATE_LEFT :: "uint32 \<Rightarrow> nat \<Rightarrow> uint32" where
  "ROTATE_LEFT x n = push_bit n x OR drop_bit (32 - n) x"

definition md5_F :: "uint32 \<Rightarrow> uint32 \<Rightarrow> uint32 \<Rightarrow> uint32" where "md5_F x y z = (x AND y) OR (NOT x AND z)"
definition md5_G :: "uint32 \<Rightarrow> uint32 \<Rightarrow> uint32 \<Rightarrow> uint32" where "md5_G x y z = (x AND z) OR (y AND NOT z)"
definition md5_H :: "uint32 \<Rightarrow> uint32 \<Rightarrow> uint32 \<Rightarrow> uint32" where "md5_H x y z = x XOR y XOR z"
definition md5_I :: "uint32 \<Rightarrow> uint32 \<Rightarrow> uint32 \<Rightarrow> uint32" where "md5_I x y z = y XOR (x OR NOT z)"

type_synonym md5_abcd = "uint32 \<times> uint32 \<times> uint32 \<times> uint32"

text \<open>
  The operation \<open>SET(a, b, c, d, k, s, Ti)\<close>. The source goes on with \<open>SET(d, a, b, c, ...)\<close>: the result
  is the registers in the order the next operation names them. After four operations they are back in
  their places.
\<close>

definition md5_set ::
  "(uint32 \<Rightarrow> uint32 \<Rightarrow> uint32 \<Rightarrow> uint32) \<Rightarrow> uint32 list \<Rightarrow> nat \<Rightarrow> nat \<Rightarrow> uint32 \<Rightarrow> md5_abcd \<Rightarrow> md5_abcd" where
  "md5_set f X k s Ti r =
     (case r of (a, b, c, d) \<Rightarrow>
        (let t = a + f b c d + X ! k + Ti
         in (d, ROTATE_LEFT t s + b, b, c)))"

definition md5_round ::
  "(uint32 \<Rightarrow> uint32 \<Rightarrow> uint32 \<Rightarrow> uint32) \<Rightarrow> nat \<Rightarrow> uint32 list \<Rightarrow> md5_abcd \<Rightarrow> md5_abcd" where
  "md5_round f n X =
     fold (\<lambda>((k, s), Ti). md5_set f X k s Ti)
       (take 16 (drop (16 * n) (zip md5_steps md5_T)))"

record md5_state =
  md5_count0 :: uint32
  md5_count1 :: uint32
  md5_abcd :: md5_abcd
  md5_buf :: "byte list"

fun md5_words :: "byte list \<Rightarrow> uint32 list" where
  "md5_words (x0 # x1 # x2 # x3 # xs) = word_le [x0, x1, x2, x3] # md5_words xs"
| "md5_words _ = []"

definition md5_process :: "byte list \<Rightarrow> md5_state \<Rightarrow> md5_state" where
  "md5_process data pms =
     (let X = md5_words data;
          (a, b, c, d) = md5_round md5_I 3 X (md5_round md5_H 2 X (md5_round md5_G 1 X
            (md5_round md5_F 0 X (md5_abcd pms))));
          (a0, b0, c0, d0) = md5_abcd pms
      in pms\<lparr>md5_abcd := (a0 + a, b0 + b, c0 + c, d0 + d)\<rparr>)"

subsection \<open>The incremental interface\<close>

text \<open>The accumulator is not initialised.\<close>

definition md5_init :: "byte list \<Rightarrow> md5_state" where
  "md5_init junk =
     \<lparr>md5_count0 = 0, md5_count1 = 0,
      md5_abcd = (0x67452301, T_MASK XOR 0x10325476, T_MASK XOR 0x67452301, 0x10325476),
      md5_buf = junk\<rparr>"

text \<open>\<open>memcpy\<close> into the accumulator.\<close>

definition md5_copy :: "nat \<Rightarrow> byte list \<Rightarrow> md5_state \<Rightarrow> md5_state" where
  "md5_copy offset p pms =
     pms\<lparr>md5_buf := take offset (md5_buf pms) @ p @ drop (offset + length p) (md5_buf pms)\<rparr>"

function md5_blocks :: "byte list \<Rightarrow> md5_state \<Rightarrow> md5_state" where
  "md5_blocks p pms =
     (if 64 \<le> length p then md5_blocks (drop 64 p) (md5_process (take 64 p) pms)
      else if p \<noteq> [] then md5_copy 0 p pms else pms)"
  by pat_completeness auto
termination by (relation "measure (length \<circ> fst)") auto

declare md5_blocks.simps [simp del]

definition md5_append :: "byte list \<Rightarrow> md5_state \<Rightarrow> md5_state" where
  "md5_append data pms =
     (let nbytes = length data;
          offset = unat (drop_bit 3 (md5_count0 pms) AND 63);
          nbits = of_nat (8 * nbytes)
      in if nbytes = 0 then pms
         else
           (let pms = pms\<lparr>md5_count1 := md5_count1 pms + of_nat (nbytes div 2 ^ 29)\<rparr>;
                pms = pms\<lparr>md5_count0 := md5_count0 pms + nbits\<rparr>;
                pms = (if md5_count0 pms < nbits then pms\<lparr>md5_count1 := md5_count1 pms + 1\<rparr> else pms)
            in if offset \<noteq> 0
               then (let copy = (if 64 < offset + nbytes then 64 - offset else nbytes);
                         pms = md5_copy offset (take copy data) pms
                     in if offset + copy < 64 then pms
                        else md5_blocks (drop copy data) (md5_process (md5_buf pms) pms))
               else md5_blocks data pms))"

definition md5_pad :: "byte list" where "md5_pad = 0x80 # replicate 63 0"

definition md5_finish :: "md5_state \<Rightarrow> byte list" where
  "md5_finish pms =
     (let data = bytes_le 4 (md5_count0 pms) @ bytes_le 4 (md5_count1 pms);
          pms = md5_append (take (unat ((55 - drop_bit 3 (md5_count0 pms)) AND 63) + 1) md5_pad) pms;
          pms = md5_append data pms
      in case md5_abcd pms of
           (a, b, c, d) \<Rightarrow> bytes_le 4 a @ bytes_le 4 b @ bytes_le 4 c @ bytes_le 4 d)"

text \<open>The digest of a message given in parts.\<close>

definition md5_digest :: "byte list \<Rightarrow> byte list list \<Rightarrow> byte list" where
  "md5_digest junk parts = md5_finish (fold md5_append parts (md5_init junk))"

subsection \<open>The definition of RFC 1321\<close>

text \<open>The constants are the integer parts of \<open>2 ^ 32\<close> times the absolute value of the sine of 1 to 64.\<close>

definition rfc_T :: "uint32 list" where
  "rfc_T =
    [0xd76aa478, 0xe8c7b756, 0x242070db, 0xc1bdceee, 0xf57c0faf, 0x4787c62a, 0xa8304613, 0xfd469501,
     0x698098d8, 0x8b44f7af, 0xffff5bb1, 0x895cd7be, 0x6b901122, 0xfd987193, 0xa679438e, 0x49b40821,
     0xf61e2562, 0xc040b340, 0x265e5a51, 0xe9b6c7aa, 0xd62f105d, 0x02441453, 0xd8a1e681, 0xe7d3fbc8,
     0x21e1cde6, 0xc33707d6, 0xf4d50d87, 0x455a14ed, 0xa9e3e905, 0xfcefa3f8, 0x676f02d9, 0x8d2a4c8a,
     0xfffa3942, 0x8771f681, 0x6d9d6122, 0xfde5380c, 0xa4beea44, 0x4bdecfa9, 0xf6bb4b60, 0xbebfbc70,
     0x289b7ec6, 0xeaa127fa, 0xd4ef3085, 0x04881d05, 0xd9d4d039, 0xe6db99e5, 0x1fa27cf8, 0xc4ac5665,
     0xf4292244, 0x432aff97, 0xab9423a7, 0xfc93a039, 0x655b59c3, 0x8f0ccc92, 0xffeff47d, 0x85845dd1,
     0x6fa87e4f, 0xfe2ce6e0, 0xa3014314, 0x4e0811a1, 0xf7537e82, 0xbd3af235, 0x2ad7d2bb, 0xeb86d391]"

definition rfc_index :: "nat \<Rightarrow> nat" where
  "rfc_index i =
     (if i < 16 then i else if i < 32 then 5 * i + 1 else if i < 48 then 3 * i + 5 else 7 * i) mod 16"

definition rfc_shift :: "nat \<Rightarrow> nat" where
  "rfc_shift i = [[7, 12, 17, 22], [5, 9, 14, 20], [4, 11, 16, 23], [6, 10, 15, 21]] ! (i div 16) ! (i mod 4)"

definition rfc_fun :: "nat \<Rightarrow> uint32 \<Rightarrow> uint32 \<Rightarrow> uint32 \<Rightarrow> uint32" where
  "rfc_fun i x y z =
     (if i < 16 then (x AND y) OR (NOT x AND z) else if i < 32 then (x AND z) OR (y AND NOT z)
      else if i < 48 then x XOR y XOR z else y XOR (x OR NOT z))"

fun rfc_step :: "uint32 list \<Rightarrow> nat \<Rightarrow> md5_abcd \<Rightarrow> md5_abcd" where
  "rfc_step X i (a, b, c, d) =
     (d, b + word_rotl (rfc_shift i) (a + rfc_fun i b c d + X ! rfc_index i + rfc_T ! i), b, c)"

fun rfc_add :: "md5_abcd \<Rightarrow> md5_abcd \<Rightarrow> md5_abcd" where
  "rfc_add (a, b, c, d) (a', b', c', d') = (a + a', b + b', c + c', d + d')"

definition rfc_compress :: "md5_abcd \<Rightarrow> byte list \<Rightarrow> md5_abcd" where
  "rfc_compress r block =
     (let X = map (\<lambda>i. word_le (take 4 (drop (4 * i) block))) [0..<16]
      in rfc_add r (fold (rfc_step X) [0..<64] r))"

fun chunks :: "nat \<Rightarrow> 'a list \<Rightarrow> 'a list list" where
  "chunks 0 xs = []"
| "chunks (Suc n) xs = take 64 xs # chunks n (drop 64 xs)"

definition rfc_padding :: "nat \<Rightarrow> byte list" where
  "rfc_padding n = 0x80 # replicate ((119 - n mod 64) mod 64) 0 @ bytes_le 8 (of_nat (8 * n) :: uint64)"

definition md5_rfc :: "byte list \<Rightarrow> byte list" where
  "md5_rfc msg =
     (let m = msg @ rfc_padding (length msg);
          (a, b, c, d) = foldl rfc_compress (0x67452301, 0xefcdab89, 0x98badcfe, 0x10325476) (chunks (length m div 64) m)
      in bytes_le 4 a @ bytes_le 4 b @ bytes_le 4 c @ bytes_le 4 d)"

subsection \<open>The operations are those of the definition\<close>

lemma md5_T_rfc: "md5_T = rfc_T"
  by code_simp

lemma md5_steps_rfc: "md5_steps = map (\<lambda>i. (rfc_index i, rfc_shift i)) [0..<64]"
  by code_simp

lemma length_rfc_T: "length rfc_T = 64"
  by (simp add: rfc_T_def)

lemma rotate_left_rotl: "n < 32 \<Longrightarrow> ROTATE_LEFT x n = word_rotl n x"
proof (rule bit_word_eqI)
  fix i assume n: "n < 32" and "i < LENGTH(32)"
  then have i: "i < 32" by simp
  have left: "bit (ROTATE_LEFT x n) i \<longleftrightarrow> n \<le> i \<and> bit x (i - n) \<or> bit x (32 - n + i)"
    using i by (simp add: ROTATE_LEFT_def bit_or_iff bit_push_bit_iff bit_drop_bit_eq)
  have right: "bit (word_rotl n x) i \<longleftrightarrow> bit x ((i + (32 - n)) mod 32)"
    using n i by (simp add: bit_word_rotl_iff)
  show "bit (ROTATE_LEFT x n) i = bit (word_rotl n x) i"
  proof (cases "n \<le> i")
    case True
    then have "i + (32 - n) = (i - n) + 32" using n by simp
    then have "(i + (32 - n)) mod 32 = i - n" using i by (metis less_imp_diff_less mod_add_self2 mod_less)
    moreover have "\<not> bit x (32 - n + i)" using True n bit_imp_le_length [of x "32 - n + i"] by auto
    ultimately show ?thesis unfolding left right using True by simp
  next
    case False
    then have "(i + (32 - n)) mod 32 = 32 - n + i" using i by simp
    with False show ?thesis unfolding left right by simp
  qed
qed

lemma rfc_shift_less: "i < 64 \<Longrightarrow> rfc_shift i < 32"
proof -
  have "\<forall>i\<in>set [0..<64]. rfc_shift i < 32" by code_simp
  then show "i < 64 \<Longrightarrow> rfc_shift i < 32" by simp
qed

lemma md5_round_rfc:
  assumes "n < 4" "\<And>i x y z. 16 * n \<le> i \<Longrightarrow> i < 16 * n + 16 \<Longrightarrow> f x y z = rfc_fun i x y z"
  shows "md5_round f n X r = fold (rfc_step X) [16 * n..<16 * n + 16] r"
proof -
  have "zip md5_steps md5_T = map (\<lambda>i. ((rfc_index i, rfc_shift i), rfc_T ! i)) [0..<64]"
    unfolding md5_T_rfc md5_steps_rfc
    by (rule nth_equalityI) (simp_all add: length_rfc_T)
  then have "take 16 (drop (16 * n) (zip md5_steps md5_T)) =
      map (\<lambda>i. ((rfc_index i, rfc_shift i), rfc_T ! i)) [16 * n..<16 * n + 16]"
    using assms(1) by (simp add: take_map drop_map)
  then have "md5_round f n X r = fold (\<lambda>i. md5_set f X (rfc_index i) (rfc_shift i) (rfc_T ! i)) [16 * n..<16 * n + 16] r"
    by (simp add: md5_round_def fold_map comp_def)
  also have "\<dots> = fold (rfc_step X) [16 * n..<16 * n + 16] r"
  proof (rule fold_cong [OF refl refl])
    fix i assume "i \<in> set [16 * n..<16 * n + 16]"
    then have i: "16 * n \<le> i" "i < 16 * n + 16" "i < 64" using assms(1) by auto
    show "md5_set f X (rfc_index i) (rfc_shift i) (rfc_T ! i) = rfc_step X i"
      using assms(2) [OF i(1,2)] rotate_left_rotl [OF rfc_shift_less [OF i(3)]]
      by (auto simp: md5_set_def fun_eq_iff Let_def add.commute)
  qed
  finally show ?thesis .
qed

lemma md5_words_map:
  "length xs = 4 * n \<Longrightarrow> md5_words xs = map (\<lambda>i. word_le (take 4 (drop (4 * i) xs))) [0..<n]"
proof (induction n arbitrary: xs)
  case (Suc n)
  then obtain x0 x1 x2 x3 ys where xs: "xs = x0 # x1 # x2 # x3 # ys" "length ys = 4 * n"
    by (auto simp: numeral_eq_Suc length_Suc_conv)
  have drop: "drop (4 + k) xs = drop k ys" for k by (simp add: xs numeral_eq_Suc)
  have "map (\<lambda>i. word_le (take 4 (drop (4 * i) xs)) :: uint32) [0..<Suc n] =
      word_le [x0, x1, x2, x3] # map (\<lambda>i. word_le (take 4 (drop (4 * i) ys))) [0..<n]"
    unfolding upt_conv_Cons [OF zero_less_Suc] map_Suc_upt [symmetric]
    by (simp add: drop) (simp add: xs numeral_eq_Suc)
  with Suc.IH [OF xs(2)] show ?case by (simp add: xs)
qed simp

lemma md5_process_rfc:
  assumes "length data = 64"
  shows "md5_process data pms = pms\<lparr>md5_abcd := rfc_compress (md5_abcd pms) data\<rparr>"
proof -
  let ?X = "md5_words data"
  have X: "?X = map (\<lambda>i. word_le (take 4 (drop (4 * i) data))) [0..<16]"
    using assms by (intro md5_words_map) simp
  have "[0..<64] = [0..<16] @ [16..<32] @ [32..<48] @ [48..<64::nat]" by (simp add: upt_rec)
  then have "fold (rfc_step ?X) [0..<64] r =
      md5_round md5_I 3 ?X (md5_round md5_H 2 ?X (md5_round md5_G 1 ?X (md5_round md5_F 0 ?X r)))" for r
    using md5_round_rfc [of 0 md5_F ?X] md5_round_rfc [of 1 md5_G ?X] md5_round_rfc [of 2 md5_H ?X]
      md5_round_rfc [of 3 md5_I ?X]
    by (simp add: rfc_fun_def md5_F_def md5_G_def md5_H_def md5_I_def)
  then show ?thesis
    unfolding md5_process_def rfc_compress_def X [symmetric] Let_def
    by (auto split: prod.splits)
qed

subsection \<open>The incremental interface computes the same digest\<close>

function consume :: "md5_abcd \<Rightarrow> byte list \<Rightarrow> md5_abcd \<times> byte list" where
  "consume r xs = (if 64 \<le> length xs then consume (rfc_compress r (take 64 xs)) (drop 64 xs) else (r, xs))"
  by pat_completeness auto
termination by (relation "measure (length \<circ> snd)") auto

declare consume.simps [simp del]

lemma consume_short: "length xs < 64 \<Longrightarrow> consume r xs = (r, xs)"
  by (subst consume.simps) simp

lemma consume_append: "consume r (xs @ ys) = (case consume r xs of (r', zs) \<Rightarrow> consume r' (zs @ ys))"
proof (induction r xs rule: consume.induct)
  case (1 r xs)
  show ?case
  proof (cases "64 \<le> length xs")
    case True
    with 1 show ?thesis by (subst consume.simps, subst (2) consume.simps) simp
  next
    case False
    then show ?thesis by (simp add: consume_short)
  qed
qed

lemma consume_rest: "consume r xs = (r', zs) \<Longrightarrow> length zs = length xs mod 64"
proof (induction r xs rule: consume.induct)
  case (1 r xs)
  show ?case
  proof (cases "64 \<le> length xs")
    case True
    with 1 have "length zs = (length xs - 64) mod 64" by (subst (asm) (2) consume.simps) simp
    with True show ?thesis by (simp add: le_mod_geq)
  next
    case False
    with 1(2) show ?thesis by (simp add: consume_short)
  qed
qed

lemma consume_chunks:
  "length xs = 64 * n \<Longrightarrow> consume r xs = (foldl rfc_compress r (chunks n xs), [])"
proof (induction n arbitrary: r xs)
  case (Suc n)
  then show ?case by (subst consume.simps) simp
qed (simp add: consume_short)

text \<open>
  What the state holds of a message: its length in bits modulo \<open>2 ^ 64\<close>, the registers after the full
  blocks, and the rest of the message in the accumulator.
\<close>

definition md5_bits :: "md5_state \<Rightarrow> uint64" where
  "md5_bits pms = push_bit 32 (ucast (md5_count1 pms)) + ucast (md5_count0 pms)"

definition md5_start :: md5_abcd where "md5_start = (0x67452301, 0xefcdab89, 0x98badcfe, 0x10325476)"

definition md5_holds :: "byte list \<Rightarrow> md5_state \<Rightarrow> bool" where
  "md5_holds msg pms \<longleftrightarrow>
     length (md5_buf pms) = 64 \<and> md5_bits pms = of_nat (8 * length msg) \<and>
     (case consume md5_start msg of (r, zs) \<Rightarrow> md5_abcd pms = r \<and> take (length zs) (md5_buf pms) = zs)"

lemma md5_blocks_consume:
  assumes "length (md5_buf pms) = 64" "consume (md5_abcd pms) p = (r, zs)"
  shows "md5_blocks p pms = pms\<lparr>md5_abcd := r, md5_buf := zs @ drop (length zs) (md5_buf pms)\<rparr>"
  using assms
proof (induction p pms rule: md5_blocks.induct)
  case (1 p pms)
  show ?case
  proof (cases "64 \<le> length p")
    case True
    then have "md5_process (take 64 p) pms = pms\<lparr>md5_abcd := rfc_compress (md5_abcd pms) (take 64 p)\<rparr>"
      by (intro md5_process_rfc) simp
    moreover from 1(3) True have "consume (rfc_compress (md5_abcd pms) (take 64 p)) (drop 64 p) = (r, zs)"
      by (subst (asm) consume.simps) simp
    ultimately have "md5_blocks (drop 64 p) (md5_process (take 64 p) pms) =
        pms\<lparr>md5_abcd := r, md5_buf := zs @ drop (length zs) (md5_buf pms)\<rparr>"
      using 1(1) [OF True] 1(2) by simp
    then show ?thesis using True by (subst md5_blocks.simps) simp
  next
    case False
    with 1(3) have "r = md5_abcd pms" "zs = p" by (auto simp: consume_short)
    then show ?thesis using False by (subst md5_blocks.simps) (simp add: md5_copy_def)
  qed
qed

lemma high_add: "push_bit 32 (ucast (a + b :: uint32)) = push_bit 32 (ucast a :: uint64) + push_bit 32 (ucast b)"
proof -
  have "take_bit 64 (push_bit 32 (take_bit 32 (x + y))) = take_bit 64 (push_bit 32 (take_bit 32 x) + push_bit 32 (take_bit 32 y))"
    for x y :: int
  proof -
    have "push_bit 32 (take_bit 32 z) = take_bit 64 (push_bit 32 z)" for z :: int
      by (rule bit_eqI) (auto simp: bit_simps)
    then show ?thesis by (simp add: push_bit_add take_bit_add)
  qed
  then show ?thesis by transfer simp
qed

lemma low_add:
  fixes a b :: uint32
  shows "ucast (a + b) + (if a + b < b then 2 ^ 32 else 0) = (ucast a + ucast b :: uint64)"
proof -
  have u: "(ucast w :: uint64) = of_nat (unat w)" for w :: uint32
    by simp
  show ?thesis
  proof (cases "unat a + unat b < 2 ^ 32")
    case True
    then have "unat (a + b) = unat a + unat b" by (subst unat_plus_if') simp
    then have "\<not> a + b < b" by (simp add: word_less_nat_alt)
    with \<open>unat (a + b) = _\<close> show ?thesis unfolding u by simp
  next
    case False
    then have s: "unat (a + b) + 2 ^ 32 = unat a + unat b" by (subst unat_plus_if') simp
    moreover have "unat a < 2 ^ 32" by (rule order.strict_trans2 [OF unsigned_less]) simp
    ultimately have "a + b < b" by (simp add: word_less_nat_alt)
    moreover have "of_nat (unat (a + b)) + 2 ^ 32 = (of_nat (unat a) + of_nat (unat b) :: uint64)"
      using arg_cong [OF s, of "of_nat :: nat \<Rightarrow> uint64"] by simp
    ultimately show ?thesis unfolding u by simp
  qed
qed

lemma bits_of_nat:
  "(of_nat (8 * n) :: uint64) = push_bit 32 (ucast (of_nat (n div 2 ^ 29) :: uint32)) + ucast (of_nat (8 * n) :: uint32)"
proof -
  have hi: "push_bit 32 (ucast (of_nat k :: uint32)) = (of_nat (2 ^ 32 * k) :: uint64)" for k
  proof -
    have "take_bit 64 (push_bit 32 (take_bit 32 z)) = take_bit 64 (push_bit 32 z)" for z :: int
      by (rule bit_eqI) (auto simp: bit_simps)
    then have "push_bit 32 (ucast (word_of_int z :: uint32)) = (word_of_int (2 ^ 32 * z) :: uint64)" for z
      by transfer (simp add: push_bit_eq_mult mult.commute)
    from this [of "int k"] show ?thesis by simp
  qed
  have lo: "(ucast (of_nat k :: uint32) :: uint64) = of_nat (k mod 2 ^ 32)" for k
    by transfer (simp add: take_bit_eq_mod zmod_int)
  have "8 * n = 2 ^ 32 * (n div 2 ^ 29) + 8 * n mod 2 ^ 32"
    using mult_div_mod_eq [of "2 ^ 32" "8 * n"] by simp
  then have "(of_nat (8 * n) :: uint64) = of_nat (2 ^ 32 * (n div 2 ^ 29) + 8 * n mod 2 ^ 32)"
    by (rule arg_cong)
  then show ?thesis unfolding of_nat_add hi unfolding lo .
qed


lemma md5_append_bits: "md5_bits (md5_append data pms) = md5_bits pms + of_nat (8 * length data)"
proof (cases "data = []")
  case False
  let ?n = "length data" and ?lo = "of_nat (8 * length data) :: uint32"
  let ?hi = "of_nat (length data div 2 ^ 29) :: uint32"
  have blocks: "md5_count0 (md5_blocks p t) = md5_count0 t \<and> md5_count1 (md5_blocks p t) = md5_count1 t" for p t
    by (induction p t rule: md5_blocks.induct)
      (subst (1 2) md5_blocks.simps, auto simp: md5_process_def md5_copy_def Let_def split: prod.splits)
  have "md5_count0 (md5_append data pms) = md5_count0 pms + ?lo"
    and "md5_count1 (md5_append data pms) = md5_count1 pms + ?hi + (if md5_count0 pms + ?lo < ?lo then 1 else 0)"
    using False
    by (simp_all add: md5_append_def Let_def blocks md5_process_def md5_copy_def split: prod.splits)
  then have "md5_bits (md5_append data pms) =
      push_bit 32 (ucast (md5_count1 pms + ?hi + (if md5_count0 pms + ?lo < ?lo then 1 else 0))) + ucast (md5_count0 pms + ?lo)"
    by (simp add: md5_bits_def)
  also have "\<dots> = push_bit 32 (ucast (md5_count1 pms)) + push_bit 32 (ucast ?hi) +
      ((if md5_count0 pms + ?lo < ?lo then 2 ^ 32 else 0) + ucast (md5_count0 pms + ?lo))"
    unfolding high_add by simp
  also have "\<dots> = push_bit 32 (ucast (md5_count1 pms)) + push_bit 32 (ucast ?hi) + (ucast (md5_count0 pms) + ucast ?lo)"
    unfolding low_add [of "md5_count0 pms" ?lo, symmetric] by simp
  finally show ?thesis unfolding bits_of_nat [of ?n] md5_bits_def by (simp add: add_ac)
qed (simp add: md5_append_def)

lemma md5_bits_or: "md5_bits pms = push_bit 32 (ucast (md5_count1 pms)) OR ucast (md5_count0 pms)"
  unfolding md5_bits_def by (rule disjunctive_add) (auto simp: bit_simps dest: bit_imp_le_length)

lemma and_63: "w AND 63 = take_bit 6 w" for w :: uint32
  by (simp add: take_bit_eq_mask mask_eq_exp_minus_1)

lemma len32: "LENGTH(32) = 32"
  by simp

lemma offset_bits: "unat (drop_bit 3 w AND 63) = unat w div 8 mod 64" for w :: uint32
proof -
  have "unat (take_bit 6 (drop_bit 3 w)) = take_bit 6 (drop_bit 3 (unat w))"
    by (simp only: unsigned_take_bit_eq unsigned_drop_bit_eq)
      (rule bit_eqI, auto simp: bit_simps dest: bit_imp_le_length)
  then show ?thesis by (simp only: and_63) (simp add: take_bit_eq_mod drop_bit_eq_div)
qed

lemma md5_bits_offset:
  assumes "md5_bits pms = of_nat (8 * n)"
  shows "unat (drop_bit 3 (md5_count0 pms) AND 63) = n mod 64" and "md5_count0 pms = of_nat (8 * n)"
    and "bytes_le 4 (md5_count0 pms) @ bytes_le 4 (md5_count1 pms) = bytes_le 8 (of_nat (8 * n) :: uint64)"
proof -
  have "ucast (md5_bits pms) = md5_count0 pms"
    by (rule bit_word_eqI) (simp add: md5_bits_or bit_simps)
  moreover have "(ucast (of_nat k :: uint64) :: uint32) = of_nat k" for k by transfer simp
  ultimately show c: "md5_count0 pms = of_nat (8 * n)" unfolding assms by metis
  have "8 * n mod (8 * 2 ^ 29) = 8 * (n mod 2 ^ 29)" by (rule mod_mult_mult1)
  then have "(8 * n mod 2 ^ 32) div 8 mod 64 = n mod 64" by (simp add: mod_mod_cancel)
  then show "unat (drop_bit 3 (md5_count0 pms) AND 63) = n mod 64"
    unfolding offset_bits c by (simp only: unat_of_nat len32)
  have big: "32 \<le> k \<Longrightarrow> \<not> bit (md5_count0 pms) k" for k
    using bit_imp_le_length [of "md5_count0 pms" k] by auto
  have "bytes_le 4 (md5_count0 pms) @ bytes_le 4 (md5_count1 pms) = bytes_le 8 (md5_bits pms)"
  proof (rule nth_equalityI)
    fix i assume "i < length (bytes_le 4 (md5_count0 pms) @ bytes_le 4 (md5_count1 pms))"
    then have i: "i < 8" by simp
    show "(bytes_le 4 (md5_count0 pms) @ bytes_le 4 (md5_count1 pms)) ! i = bytes_le 8 (md5_bits pms) ! i"
      using i
      by (cases "i < 4")
        (auto simp: nth_append bytes_le_nth md5_bits_or bit_simps diff_mult_distrib2 big intro!: bit_word_eqI
          dest: bit_imp_le_length)
  qed simp
  then show "bytes_le 4 (md5_count0 pms) @ bytes_le 4 (md5_count1 pms) = bytes_le 8 (of_nat (8 * n) :: uint64)"
    unfolding assms .
qed

lemma md5_append_eq:
  assumes "data \<noteq> []"
  defines "off pms \<equiv> unat (drop_bit 3 (md5_count0 pms) AND 63)"
  obtains q where "md5_abcd q = md5_abcd pms" "md5_buf q = md5_buf pms"
    and "md5_append data pms =
      (if off pms = 0 then md5_blocks data q
       else if off pms + length data < 64 then md5_copy (off pms) data q
       else md5_blocks (drop (64 - off pms) data)
         (md5_process (md5_buf (md5_copy (off pms) (take (64 - off pms) data) q)) (md5_copy (off pms) (take (64 - off pms) data) q)))"
proof -
  let ?lo = "of_nat (8 * length data) :: uint32"
  let ?p = "pms\<lparr>md5_count1 := md5_count1 pms + of_nat (length data div 2 ^ 29), md5_count0 := md5_count0 pms + ?lo\<rparr>"
  let ?q = "if md5_count0 ?p < ?lo then ?p\<lparr>md5_count1 := md5_count1 ?p + 1\<rparr> else ?p"
  have less: "off pms < 64"
  proof -
    have "drop_bit 3 (md5_count0 pms) AND 63 \<le> 63" by (rule word_and_le1)
    then show ?thesis by (simp add: off_def word_le_nat_alt)
  qed
  show thesis
    by (rule that [of ?q])
      (use assms(1) less in \<open>auto simp: md5_append_def Let_def off_def [symmetric]\<close>)
qed

lemma md5_append_holds:
  assumes "md5_holds msg pms"
  shows "md5_holds (msg @ data) (md5_append data pms)"
proof (cases "data = []")
  case True
  with assms show ?thesis by (simp add: md5_append_def)
next
  case False
  obtain r zs where c: "consume md5_start msg = (r, zs)" by fastforce
  have buf: "length (md5_buf pms) = 64" and abcd: "md5_abcd pms = r" and rest: "take (length zs) (md5_buf pms) = zs"
    and bits: "md5_bits pms = of_nat (8 * length msg)" using assms c by (simp_all add: md5_holds_def)
  have zs: "length zs = length msg mod 64" "length zs < 64" using consume_rest [OF c] by simp_all
  have off: "unat (drop_bit 3 (md5_count0 pms) AND 63) = length zs" using md5_bits_offset(1) [OF bits] zs(1) by simp
  obtain r' zs' where c': "consume r (zs @ data) = (r', zs')" by fastforce
  have all: "consume md5_start (msg @ data) = (r', zs')" using consume_append [of md5_start msg data] by (simp add: c c')
  let ?k = "64 - length zs"
  obtain q where q: "md5_abcd q = r" "md5_buf q = md5_buf pms" and app: "md5_append data pms =
      (if length zs = 0 then md5_blocks data q
       else if length zs + length data < 64 then md5_copy (length zs) data q
       else md5_blocks (drop ?k data) (md5_process (md5_buf (md5_copy (length zs) (take ?k data) q)) (md5_copy (length zs) (take ?k data) q)))"
    using md5_append_eq [OF False, of pms] unfolding off abcd by blast
  have "md5_abcd (md5_append data pms) = r' \<and> length (md5_buf (md5_append data pms)) = 64 \<and>
      take (length zs') (md5_buf (md5_append data pms)) = zs'"
  proof -
    have len: "length zs' < 64" using consume_rest [OF c'] by simp
    consider "zs = []" | "zs \<noteq> []" "length zs + length data < 64" | "zs \<noteq> []" "64 \<le> length zs + length data" by fastforce
    then show ?thesis
    proof cases
      case 1
      with c' q buf have "md5_blocks data q = q\<lparr>md5_abcd := r', md5_buf := zs' @ drop (length zs') (md5_buf q)\<rparr>"
        by (intro md5_blocks_consume) simp_all
      with 1 q buf len show ?thesis by (simp add: app)
    next
      case 2
      then have "r' = r" "zs' = zs @ data" using c' by (simp_all add: consume_short)
      with 2 q buf rest show ?thesis by (simp add: app md5_copy_def)
    next
      case 3
      let ?p = "md5_copy (length zs) (take ?k data) q"
      have p: "md5_buf ?p = zs @ take ?k data" "length (md5_buf ?p) = 64" "md5_abcd ?p = r"
        using 3 zs(2) q buf rest by (simp_all add: md5_copy_def)
      have "consume (rfc_compress r (zs @ take ?k data)) (drop ?k data) = (r', zs')"
        using c' 3 zs(2) by (subst (asm) consume.simps) simp
      moreover have "md5_process (md5_buf ?p) ?p = ?p\<lparr>md5_abcd := rfc_compress r (zs @ take ?k data)\<rparr>"
        using md5_process_rfc [OF p(2), of ?p] p(1,3) by simp
      ultimately have "md5_blocks (drop ?k data) (md5_process (md5_buf ?p) ?p) =
          ?p\<lparr>md5_abcd := r', md5_buf := zs' @ drop (length zs') (md5_buf ?p)\<rparr>"
        using md5_blocks_consume [of "md5_process (md5_buf ?p) ?p" "drop ?k data" r' zs'] p(2) by simp
      with 3 p(2) len show ?thesis by (simp add: app)
    qed
  qed
  moreover have "md5_bits (md5_append data pms) = of_nat (8 * length (msg @ data))"
    unfolding md5_append_bits bits by (simp add: distrib_left)
  ultimately show ?thesis unfolding md5_holds_def all by simp
qed

lemma md5_init_holds:
  assumes "length junk = 64"
  shows "md5_holds [] (md5_init junk)"
proof -
  have "T_MASK XOR 0x10325476 = 0xefcdab89" "T_MASK XOR 0x67452301 = 0x98badcfe" by code_simp+
  with assms show ?thesis
    by (simp add: md5_holds_def md5_init_def md5_start_def consume_short md5_bits_def)
qed

lemma md5_parts_holds: "md5_holds msg pms \<Longrightarrow> md5_holds (msg @ concat parts) (fold md5_append parts pms)"
proof (induction parts arbitrary: msg pms)
  case (Cons p parts)
  from Cons.IH [OF md5_append_holds [OF Cons.prems, of p]] show ?case by simp
qed simp

lemma low_bits_diff: "take_bit 6 (a - b) = take_bit 6 (take_bit 6 a - take_bit 6 b)" for a b :: uint32
proof -
  have "take_bit 6 (take_bit 32 (x - y)) = take_bit 6 (take_bit 32 (take_bit 6 (take_bit 32 x) - take_bit 6 (take_bit 32 y)))"
    for x y :: int by (simp add: take_bit_diff)
  then show ?thesis by transfer simp
qed

lemma low_bits_nat: "unat (take_bit 6 (of_nat j :: uint32)) = j mod 64"
  by (simp only: unsigned_take_bit_eq unat_of_nat) (simp add: take_bit_eq_mod mod_mod_cancel)

lemma md5_pad_length:
  fixes x :: uint32
  assumes "unat (x AND 63) = m mod 64"
  shows "unat ((55 - x) AND 63) = (119 - m mod 64) mod 64"
proof -
  let ?k = "of_nat (m mod 64) :: uint32"
  have "take_bit 6 x = ?k" using assms unfolding and_63 by (metis of_nat_unat ucast_id)
  then have x: "take_bit 6 x = take_bit 6 ?k" by (metis take_bit_take_bit min.idem)
  have "take_bit 6 (55 - x) = take_bit 6 (take_bit 6 55 - take_bit 6 x)" by (rule low_bits_diff)
  also have "take_bit 6 (55 :: uint32) = take_bit 6 119" by simp
  also have "take_bit 6 (take_bit 6 119 - take_bit 6 x) = take_bit 6 (119 - ?k)"
    unfolding x by (rule low_bits_diff [symmetric])
  also have "119 - ?k = of_nat (119 - m mod 64)"
    using mod_less_divisor [of 64 m] by (subst of_nat_diff) simp_all
  finally have "unat ((55 - x) AND 63) = unat (take_bit 6 (of_nat (119 - m mod 64) :: uint32))" unfolding and_63 by simp
  also have "\<dots> = (119 - m mod 64) mod 64"
    by (rule low_bits_nat)
  finally show ?thesis .
qed

lemma padded_length: "(n + (9 + (119 - n mod 64) mod 64)) mod 64 = (0::nat)"
proof -
  define k where "k = n mod 64"
  have k: "k < 64" by (simp add: k_def)
  have "(119 - k) mod 64 = (if k \<le> 55 then 55 - k else 119 - k)"
    using k mod_if [of "119 - k" 64] by auto
  then have "k + (9 + (119 - k) mod 64) = 64 \<or> k + (9 + (119 - k) mod 64) = 128" using k by auto
  then have "(k + (9 + (119 - k) mod 64)) mod 64 = 0" by (elim disjE) (simp_all only:, simp_all)
  then show ?thesis unfolding k_def by (simp only: mod_add_left_eq)
qed

lemma md5_finish_holds:
  assumes "md5_holds msg pms"
  shows "md5_finish pms = md5_rfc msg"
proof -
  let ?n = "length msg" and ?len = "bytes_le 8 (of_nat (8 * length msg) :: uint64)"
  have bits: "md5_bits pms = of_nat (8 * ?n)" using assms by (simp add: md5_holds_def split: prod.splits)
  have pad: "unat ((55 - drop_bit 3 (md5_count0 pms)) AND 63) = (119 - ?n mod 64) mod 64"
    by (rule md5_pad_length) (rule md5_bits_offset(1) [OF bits])
  have "take ((119 - ?n mod 64) mod 64 + 1) md5_pad = 0x80 # replicate ((119 - ?n mod 64) mod 64) 0"
    by (simp add: md5_pad_def min_def)
  then have "md5_holds ((msg @ 0x80 # replicate ((119 - ?n mod 64) mod 64) 0) @ ?len)
      (md5_append ?len (md5_append (take (unat ((55 - drop_bit 3 (md5_count0 pms)) AND 63) + 1) md5_pad) pms))"
    unfolding pad by (intro md5_append_holds) (simp add: assms md5_append_holds)
  moreover have m: "(msg @ 0x80 # replicate ((119 - ?n mod 64) mod 64) 0) @ ?len = msg @ rfc_padding ?n"
    by (simp add: rfc_padding_def)
  moreover have "length (msg @ rfc_padding ?n) = 64 * (length (msg @ rfc_padding ?n) div 64)"
  proof -
    have "(?n + (9 + (119 - ?n mod 64) mod 64)) mod 64 = 0" by (rule padded_length)
    then have "length (msg @ rfc_padding ?n) mod 64 = 0" by (simp add: rfc_padding_def add.assoc)
    then show ?thesis by (simp add: mult_div_mod_eq minus_mod_eq_mult_div [symmetric])
  qed
  note consume_chunks [OF this, of md5_start]
  ultimately show ?thesis
    unfolding md5_finish_def md5_bits_offset(3) [OF bits] Let_def md5_rfc_def md5_start_def [symmetric]
    by (simp add: md5_holds_def split: prod.splits)
qed

lemma md5_digest_rfc:
  assumes "length junk = 64"
  shows "md5_digest junk parts = md5_rfc (concat parts)"
  using md5_finish_holds [OF md5_parts_holds [OF md5_init_holds [OF assms], of parts]]
  by (simp add: md5_digest_def)

lemma length_md5_rfc: "length (md5_rfc msg) = 16"
  by (simp add: md5_rfc_def Let_def split: prod.splits)

text \<open>The first test of the standard's appendix, as a check of the reference.\<close>

lemma md5_rfc_abc: "md5_rfc [97, 98, 99] =
    [0x90, 0x01, 0x50, 0x98, 0x3c, 0xd2, 0x4f, 0xb0, 0xd6, 0x96, 0x3f, 0x7d, 0x28, 0xe1, 0x7f, 0x72]"
  by code_simp

text \<open>
  C10: the digest computed piece by piece is the one RFC 1321 defines for the whole message, however the
  message is cut into pieces and whatever the accumulator held before.
\<close>

theorem md5_streaming: "length junk = 64 \<Longrightarrow> md5_digest junk parts = md5_rfc (concat parts)"
  by (rule md5_digest_rfc)

end
