(* ===== verification/Mount.thy ===== *)
theory Mount
  imports Readdir Md5
begin

text \<open>
  \<open>mount.c\<close> and \<open>password.c\<close>: the MOUNT protocol. A mount request names a path, or carries a
  mount command in front of it: a request for a nonce, a password, or a one-time password that
  is the digest of the nonce and the password. The list of mounts is advisory.

  The argument \<open>acc\<close> is what the accumulator of the digest, 64 bytes of the stack, holds before its
  first use. Memory allocation is assumed to succeed.
\<close>

datatype mountstat3 =
    MNT3_OK | MNT3ERR_PERM | MNT3ERR_NOENT | MNT3ERR_IO | MNT3ERR_ACCES | MNT3ERR_NOTDIR
  | MNT3ERR_INVAL | MNT3ERR_NAMETOOLONG | MNT3ERR_NOTSUPP | MNT3ERR_SERVERFAULT

record mountbody =
  ml_hostname :: string
  ml_directory :: path

record 'w mnt = "'w fdc" +
  mount_cnt :: int
  mount_list :: "mountbody list"
  nonce :: "byte list"

subsection \<open>Passwords\<close>

definition PASSWORD_MAXLEN :: nat where "PASSWORD_MAXLEN = 64"

text \<open>
  \<open>os_random\<close> is what opening \<open>/dev/urandom\<close> or \<open>/dev/random\<close> and reading 32 bytes delivers;
  \<open>os_seed\<close> is the 32 bytes gathered from \<open>stat\<close>, \<open>times\<close> and \<open>gettimeofday\<close> otherwise.
\<close>

definition gen_nonce ::
  "byte list \<Rightarrow> 'w os \<Rightarrow> ('w, 'z) mnt_scheme \<Rightarrow> int \<times> ('w, 'z) mnt_scheme" where
  "gen_nonce acc os s =
     (let (r, s) = backend_random os s
      in if (case r of Some bs \<Rightarrow> length bs = 32 | None \<Rightarrow> False)
         then (0, s\<lparr>nonce := the r\<rparr>)
         else (let (q, s) = backend_seed os s;
                   arr = (case q of Some bs \<Rightarrow> bs | None \<Rightarrow> nonce s)
               in (0, s\<lparr>nonce := md5_digest acc [arr] @ drop 16 arr\<rparr>)))"

definition nibble_as_hexchar :: "byte \<Rightarrow> char" where
  "nibble_as_hexchar c = (if c \<le> 9 then char_of (unat (c + 48)) else char_of (unat (c - 10 + 97)))"

fun hexify :: "byte list \<Rightarrow> string" where
  "hexify [] = []"
| "hexify (b # bs) =
     nibble_as_hexchar (drop_bit 4 b AND 0xf) # nibble_as_hexchar (b AND 0xf) # hexify bs"

definition mnt_cmd_argument :: "string \<Rightarrow> string \<Rightarrow> nat \<Rightarrow> string \<times> string" where
  "mnt_cmd_argument dpath cmd maxlen =
     (let dpath = drop (length cmd) dpath;
          arg = takeWhile (\<lambda>c. c \<noteq> CHR ''/'') (take maxlen dpath)
      in (arg, drop (length arg) dpath))"

definition string_bytes :: "string \<Rightarrow> byte list" where
  "string_bytes s = map of_char s"

definition otp_digest :: "byte list \<Rightarrow> byte list \<Rightarrow> string \<Rightarrow> string" where
  "otp_digest acc nc password = hexify (md5_digest acc [take 32 nc, string_bytes password])"

lemma length_hexify: "length (hexify bs) = 2 * length bs"
  by (induction bs) simp_all

lemma otp_digest_rfc:
  assumes "length acc = 64"
  shows "take 32 (otp_digest acc nc password) = hexify (md5_rfc (take 32 nc @ string_bytes password))"
  by (simp add: otp_digest_def md5_digest_rfc [OF assms] length_hexify length_md5_rfc)

subsection \<open>The mount list\<close>

fun dec :: "nat \<Rightarrow> string" where
  "dec n = (if n < 10 then [char_of (48 + n)] else dec (n div 10) @ [char_of (48 + n mod 10)])"

declare dec.simps [simp del]

text \<open>\<open>inet_ntoa\<close>: the four bytes of the address in memory order.\<close>

definition inet_ntoa :: "uint32 \<Rightarrow> string" where
  "inet_ntoa a =
     (case bytes_le 4 a of
        [b0, b1, b2, b3] \<Rightarrow>
          dec (unat b0) @ ''.'' @ dec (unat b1) @ ''.'' @ dec (unat b2) @ ''.'' @ dec (unat b3)
      | _ \<Rightarrow> [])"

definition add_mount :: "path \<Rightarrow> svc_req \<Rightarrow> ('w, 'z) mnt_scheme \<Rightarrow> ('w, 'z) mnt_scheme" where
  "add_mount p req s =
     s\<lparr>mount_list := mount_list s @ [\<lparr>ml_hostname = inet_ntoa (get_remote req), ml_directory = p\<rparr>],
       mount_cnt := mount_cnt s + 1\<rparr>"

fun remove_loop :: "string \<Rightarrow> path option \<Rightarrow> mountbody list \<Rightarrow> int \<Rightarrow> mountbody list \<times> int" where
  "remove_loop host p [] cnt = ([], cnt)"
| "remove_loop host p (m # ms) cnt =
     (if ml_hostname m = host \<and> (case p of None \<Rightarrow> True | Some d \<Rightarrow> ml_directory m = d)
      then remove_loop host p ms (if 0 < cnt then cnt - 1 else cnt)
      else (case remove_loop host p ms cnt of (ms, cnt) \<Rightarrow> (m # ms, cnt)))"

definition remove_mount :: "path option \<Rightarrow> svc_req \<Rightarrow> ('w, 'z) mnt_scheme \<Rightarrow> ('w, 'z) mnt_scheme" where
  "remove_mount p req s =
     (case remove_loop (inet_ntoa (get_remote req)) p (mount_list s) (mount_cnt s) of
        (ms, cnt) \<Rightarrow> s\<lparr>mount_list := ms, mount_cnt := cnt\<rparr>)"

subsection \<open>The procedures\<close>

definition ntohs :: "16 word \<Rightarrow> 16 word" where
  "ntohs p = push_bit 8 p OR drop_bit 8 p"

definition IS_SECURE :: "16 word \<Rightarrow> bool" where
  "IS_SECURE port \<longleftrightarrow> port < 1024"

text \<open>
  The password the lookup hands out. The code reads it only after a successful lookup, which
  always sets it.
\<close>

definition pw_of :: "string option \<Rightarrow> string" where
  "pw_of pw = (case pw of Some p \<Rightarrow> p | None \<Rightarrow> [])"

text \<open>The mount commands: whether the client is authenticated, and the path left.\<close>

definition mnt_command ::
  "byte list \<Rightarrow> 'w os \<Rightarrow> path \<Rightarrow> svc_req \<Rightarrow> ('w, 'z) mnt_scheme
   \<Rightarrow> bool \<times> path \<times> ('w, 'z) mnt_scheme" where
  "mnt_command acc os dpath req s =
     (if prefix ''@password:'' dpath
      then (let (pw, dpath) = mnt_cmd_argument dpath ''@password:'' PASSWORD_MAXLEN;
                (r, password, _, s) = exports_options (Some dpath) req s
            in if r \<noteq> -1 then (pw_of password = pw, dpath, s) else (False, dpath, s))
      else if prefix ''@otp:'' dpath
      then (let (otp, dpath) = mnt_cmd_argument dpath ''@otp:'' PASSWORD_MAXLEN;
                (r, password, _, s) = exports_options (Some dpath) req s
            in if r \<noteq> -1
               then (let hexdigest = otp_digest acc (nonce s) (pw_of password);
                         authenticated = (take 32 hexdigest = take 32 otp);
                         (_, s) = gen_nonce acc os s
                     in (authenticated, dpath, s))
               else (False, dpath, s))
      else (False, dpath, s))"

definition mountproc_mnt ::
  "byte list \<Rightarrow> 'w os \<Rightarrow> path \<Rightarrow> svc_req \<Rightarrow> ('w, 'z) mnt_scheme
   \<Rightarrow> (mountstat3 \<times> nfs_fh3 option) \<times> ('w, 'z) mnt_scheme" where
  "mountproc_mnt acc os argp req s =
     (if rq_vers req \<noteq> 3 then ((MNT3ERR_INVAL, None), s)
      else if prefix ''@getnonce'' argp
      then (let (r, s) = gen_nonce acc os s
            in if r < 0 then ((MNT3ERR_IO, None), s) else ((MNT3_OK, Some (nonce s)), s))
      else
        (let (authenticated, dpath, s) = mnt_command acc os argp req s;
             (buf, s) = (if has_bits (exports_opts s) OPT_REMOVABLE \<and> export_point dpath s
                         then (Some dpath, s) else backend_realpath os dpath s)
         in case buf of
              None \<Rightarrow> ((MNT3ERR_NOENT, None), s)
            | Some buf \<Rightarrow>
                if NFS_MAXPATHLEN < length buf + 1 then ((MNT3ERR_NAMETOOLONG, None), s)
                else
                  (let (r, password, _, s) = exports_options (Some buf) req s
                   in if r = -1 \<or> \<not> authenticated \<and> pw_of password \<noteq> []
                         \<or> \<not> has_bits (exports_opts s) OPT_INSECURE \<and> \<not> IS_SECURE (ntohs (get_port req))
                      then ((MNT3ERR_ACCES, None), s)
                      else
                        (let (fh, s) = fh_comp os buf (Some req) True s
                         in if \<not> fh_valid fh then ((MNT3ERR_NOTDIR, None), s)
                            else ((MNT3_OK, Some (fh_bytes fh)), add_mount dpath req s)))))"

definition mountproc_dump :: "('w, 'z) mnt_scheme \<Rightarrow> mountbody list" where
  "mountproc_dump s = mount_list s"

definition mountproc_umnt :: "'w os \<Rightarrow> path \<Rightarrow> svc_req \<Rightarrow> ('w, 'z) mnt_scheme \<Rightarrow> ('w, 'z) mnt_scheme" where
  "mountproc_umnt os p req s =
     (let s = remove_mount (Some p) req s in if mount_cnt s = 0 then fd_cache_purge os s else s)"

definition mountproc_umntall :: "'w os \<Rightarrow> svc_req \<Rightarrow> ('w, 'z) mnt_scheme \<Rightarrow> ('w, 'z) mnt_scheme" where
  "mountproc_umntall os req s =
     (let s = remove_mount None req s in if mount_cnt s = 0 then fd_cache_purge os s else s)"

definition mountproc_export :: "('w, 'z) mnt_scheme \<Rightarrow> (path \<times> string list) list" where
  "mountproc_export s = exports_nfslist s"

subsection \<open>The mount list is counted\<close>

definition mnt_inv :: "('w, 'z) mnt_scheme \<Rightarrow> bool" where
  "mnt_inv s \<longleftrightarrow> mount_cnt s = int (length (mount_list s))"

definition mounted_by :: "string \<Rightarrow> path option \<Rightarrow> mountbody \<Rightarrow> bool" where
  "mounted_by host p m \<longleftrightarrow>
     ml_hostname m = host \<and> (case p of None \<Rightarrow> True | Some d \<Rightarrow> ml_directory m = d)"

lemma remove_loop_filter:
  "int (length ms) \<le> cnt \<Longrightarrow>
   remove_loop host p ms cnt =
     (filter (\<lambda>m. \<not> mounted_by host p m) ms,
      cnt - int (length (filter (mounted_by host p) ms)))"
  by (induction ms arbitrary: cnt) (auto simp: mounted_by_def)

lemma remove_mount_eq:
  fixes p req
  assumes "mnt_inv s"
  defines "ms \<equiv> filter (\<lambda>m. \<not> mounted_by (inet_ntoa (get_remote req)) p m) (mount_list s)"
  shows "remove_mount p req s = s\<lparr>mount_list := ms, mount_cnt := int (length ms)\<rparr>"
proof -
  let ?P = "mounted_by (inet_ntoa (get_remote req)) p"
  have "length (filter ?P (mount_list s)) + length (filter (\<lambda>m. \<not> ?P m) (mount_list s)) =
      length (mount_list s)"
    by (rule sum_length_filter_compl)
  with assms remove_loop_filter [of "mount_list s" "mount_cnt s" "inet_ntoa (get_remote req)" p]
  show ?thesis by (simp add: remove_mount_def mnt_inv_def)
qed

subsection \<open>Who may mount\<close>

text \<open>Whether a client may use the export that covers a path, given what it has proved.\<close>

definition may_mount :: "bool \<Rightarrow> path \<Rightarrow> svc_req \<Rightarrow> e_item list \<Rightarrow> bool" where
  "may_mount authenticated p req its \<longleftrightarrow>
     \<not> sublist ''/../'' p \<and>
     (case best_export p (get_remote req) its of
        None \<Rightarrow> False
      | Some (it, h) \<Rightarrow>
          h_options h \<noteq> -1 \<and> (authenticated \<or> h_password h = []) \<and>
          (has_bits (h_options h) OPT_INSECURE \<or> IS_SECURE (ntohs (get_port req))))"

lemma use_export_fields [simp]:
  "exports_opts (use_export (it, h) s) = h_options h"
  "export_list (use_export b s) = export_list s"
  by (simp_all add: use_export_def split: prod.splits)

lemma exports_options_list: "exports_options po req s = (a, b, c, s') \<Longrightarrow> export_list s' = export_list s"
proof -
  have loop: "export_list t' = export_list t" if "exports_options_loop p r its n pw fsid t = (pw', fsid', t')"
    for p r its n pw fsid pw' fsid' and t t' :: "('a, 'b) expo_scheme"
    using that by (induction its arbitrary: n pw fsid t) (auto split: if_splits option.splits)
  assume "exports_options po req s = (a, b, c, s')"
  then show ?thesis
    by (auto simp: exports_options_def Let_def split: option.splits if_splits prod.splits dest!: loop)
qed

lemma mount_check_iff:
  assumes "exports_options (Some p) req s = (r, password, fsid, s')"
  shows "\<not> (r = -1 \<or> \<not> authenticated \<and> pw_of password \<noteq> []
      \<or> \<not> has_bits (exports_opts s') OPT_INSECURE \<and> \<not> IS_SECURE (ntohs (get_port req)))
    \<longleftrightarrow> may_mount authenticated p req (export_list s)"
proof (cases "sublist ''/../'' p")
  case True
  with assms exports_options_dotdot [of p req s] show ?thesis by (simp add: may_mount_def)
next
  case False
  obtain fsid' where e: "exports_options (Some p) req s =
    (case best_export p (get_remote req) (export_list s) of
       None \<Rightarrow> (-1, None, fsid', (reset_export s)\<lparr>exports_access := False\<rparr>)
     | Some (it, h) \<Rightarrow> (h_options h, Some (h_password h), fsid',
          (use_export (it, h) (reset_export s))\<lparr>exports_access := False\<rparr>))"
    using exports_options_best [OF False] by blast
  show ?thesis
  proof (cases "best_export p (get_remote req) (export_list s)")
    case None
    with e assms False show ?thesis by (simp add: may_mount_def)
  next
    case (Some b)
    with e assms False show ?thesis
      by (cases b) (auto simp: may_mount_def pw_of_def use_export_def)
  qed
qed

lemma exports_options_mnt:
  fixes s :: "('w, 'z) mnt_scheme"
  assumes "exports_options po req s = (a, b, c, s')"
  shows "nonce s' = nonce s" "mount_list s' = mount_list s" "mount_cnt s' = mount_cnt s"
  using exports_options_more [OF assms] by (cases s; cases s'; simp)+

lemma gen_nonce_list: "gen_nonce acc os s = (r, s') \<Longrightarrow> export_list s' = export_list s"
  by (auto simp: gen_nonce_def Let_def split: prod.splits if_splits
      dest!: backend_only elim!: sys_onlyE)

lemma mnt_command_list: "mnt_command acc os dpath req s = (a, p, s') \<Longrightarrow> export_list s' = export_list s"
  by (auto simp: mnt_command_def Let_def split: prod.splits if_splits
      dest!: exports_options_list gen_nonce_list)

lemma mnt_cmd_argument_split:
  assumes "prefix cmd dpath" and "mnt_cmd_argument dpath cmd n = (arg, p)"
  shows "dpath = cmd @ arg @ p"
proof -
  from assms(1) obtain d where d: "dpath = cmd @ d" by (auto simp: prefix_def)
  have "prefix (takeWhile (\<lambda>c. c \<noteq> CHR ''/'') (take n d)) d"
    using takeWhile_is_prefix take_is_prefix by (rule prefix_order.trans)
  then obtain z where "d = takeWhile (\<lambda>c. c \<noteq> CHR ''/'') (take n d) @ z" by (auto simp: prefix_def)
  with assms(2) d show ?thesis by (auto simp: mnt_cmd_argument_def Let_def)
qed

lemma fd_cache_purge_mount [simp]:
  "mount_list (fd_cache_purge os s) = mount_list s" "mount_cnt (fd_cache_purge os s) = mount_cnt s"
  using fd_cache_purge_only [of s os] by (auto elim!: fd_onlyE)

subsection \<open>Properties of the mount protocol\<close>


text \<open>
  C19: a client is authenticated only by the password of the export that covers its path, or by the
  MD5 digest of the current nonce and that password, in hexadecimal.
\<close>

theorem mnt_command_authentic:
  assumes eq: "mnt_command acc os dpath req s = (True, p, s')" and acc: "length acc = 64"
  shows "\<exists>it h arg. best_export p (get_remote req) (export_list s) = Some (it, h) \<and>
    \<not> sublist ''/../'' p \<and>
    (dpath = ''@password:'' @ h_password h @ p \<or>
     dpath = ''@otp:'' @ arg @ p \<and>
       take 32 arg = hexify (md5_rfc (take 32 (nonce s) @ string_bytes (h_password h))))"
proof (cases "prefix ''@password:'' dpath")
  case True
  obtain arg q where a: "mnt_cmd_argument dpath ''@password:'' PASSWORD_MAXLEN = (arg, q)" by fastforce
  obtain r pw f t where o: "exports_options (Some q) req s = (r, pw, f, t)" by (metis prod_cases4)
  have "r \<noteq> -1" "pw_of pw = arg" "p = q"
    using eq True a o by (auto simp: mnt_command_def split: if_splits)
  moreover obtain it h where "best_export q (get_remote req) (export_list s) = Some (it, h)"
    "\<not> sublist ''/../'' q" "pw = Some (h_password h)"
    using exports_options_accepted [OF o \<open>r \<noteq> -1\<close>] by metis
  ultimately show ?thesis using mnt_cmd_argument_split [OF True a] by (auto simp: pw_of_def)
next
  case False
  then have pre: "prefix ''@otp:'' dpath" using eq by (auto simp: mnt_command_def split: if_splits)
  obtain arg q where a: "mnt_cmd_argument dpath ''@otp:'' PASSWORD_MAXLEN = (arg, q)" by fastforce
  obtain r pw f t where o: "exports_options (Some q) req s = (r, pw, f, t)" by (metis prod_cases4)
  have "r \<noteq> -1" "take 32 (otp_digest acc (nonce t) (pw_of pw)) = take 32 arg" "p = q"
    using eq False pre a o by (auto simp: mnt_command_def Let_def split: if_splits prod.splits)
  moreover obtain it h where "best_export q (get_remote req) (export_list s) = Some (it, h)"
    "\<not> sublist ''/../'' q" "pw = Some (h_password h)"
    using exports_options_accepted [OF o \<open>r \<noteq> -1\<close>] by metis
  ultimately show ?thesis
    using mnt_cmd_argument_split [OF pre a] exports_options_mnt(1) [OF o] otp_digest_rfc [OF acc]
    by (auto simp: pw_of_def)
qed

text \<open>
  The argument of a mount command is parsed back exactly: what precedes the first slash is the
  argument, the rest is the path.
\<close>

lemma mnt_cmd_argument_roundtrip:
  assumes "CHR ''/'' \<notin> set arg" and "length arg \<le> maxlen"
  shows "mnt_cmd_argument (cmd @ arg @ CHR ''/'' # p) cmd maxlen = (arg, CHR ''/'' # p)"
proof -
  have "takeWhile (\<lambda>c. c \<noteq> CHR ''/'') (take maxlen (arg @ CHR ''/'' # p)) = arg"
    using assms by (cases "maxlen - length arg") (auto simp: takeWhile_append)
  then show ?thesis by (simp add: mnt_cmd_argument_def Let_def)
qed

text \<open>
  C33: unmounting removes exactly the client's entries for the path, or all entries of the client, and
  the counter stays the length of the list.
\<close>

theorem umnt_removes_exactly:
  assumes inv: "mnt_inv s"
  shows "mount_list (mountproc_umnt os p req s) =
      filter (\<lambda>m. \<not> (ml_hostname m = inet_ntoa (get_remote req) \<and> ml_directory m = p)) (mount_list s) \<and>
    mnt_inv (mountproc_umnt os p req s) \<and>
    mount_list (mountproc_umntall os req s) =
      filter (\<lambda>m. ml_hostname m \<noteq> inet_ntoa (get_remote req)) (mount_list s) \<and>
    mnt_inv (mountproc_umntall os req s)"
  using remove_mount_eq [OF inv]
  by (simp add: mountproc_umnt_def mountproc_umntall_def mnt_inv_def mounted_by_def Let_def)

end
