(* ===== verification/Rods.thy ===== *)
theory Rods
  imports Mount "HOL-Library.Monad_Syntax"
begin

text \<open>
  The iRODS side: the string helpers of \<open>utils/utils.c\<close> and the functions of
  \<open>irodsapi/rodscapi.c\<close> the NFS procedures call. The iRODS client library is not part of the
  sources: the record \<open>'w rods\<close> holds the calls the server makes. A connection is an optional
  handle, \<open>None\<close> for the null pointer a failed connect returns; the library is called with it
  all the same. \<open>rstrcpy\<close> copies paths shorter than \<open>MAX_NAME_LEN\<close> unchanged, and paths are
  taken to be that short.

  Where the sources free a string literal, the C library aborts the process: the result
  \<open>None\<close> is that end of the daemon.
\<close>

subsection \<open>Strings\<close>

definition concat_str :: "string \<Rightarrow> string \<Rightarrow> string" where
  "concat_str s1 s2 = s1 @ s2"

definition concatProxy :: "string \<Rightarrow> string \<Rightarrow> string \<Rightarrow> string" where
  "concatProxy zone userName p = zone @ ''/home/'' @ userName @ p"

text \<open>
  \<open>substring\<close> copies \<open>len\<close> bytes from the 1-based position \<open>pos\<close> on without looking for the end
  of the string; \<open>mem\<close> is the memory behind the string's terminator. The result as a C string
  ends at the first zero byte.
\<close>

definition substring :: "string \<Rightarrow> string \<Rightarrow> nat \<Rightarrow> nat \<Rightarrow> string" where
  "substring mem str pos len =
     takeWhile (\<lambda>c. c \<noteq> CHR 0x00) (take len (drop (pos - 1) (str @ CHR 0x00 # mem)))"

lemma substring_inside:
  assumes "pos - 1 \<le> length str" and "CHR 0x00 \<notin> set str"
  shows "substring mem str pos len = take len (drop (pos - 1) str)"
proof -
  have notin: "CHR 0x00 \<notin> set (take n (drop (pos - 1) str))" for n
    using assms(2) by (meson in_set_dropD in_set_takeD)
  have D: "drop (pos - 1) (str @ CHR 0x00 # mem) = drop (pos - 1) str @ CHR 0x00 # mem"
    using assms(1) by simp
  have T: "takeWhile (\<lambda>c. c \<noteq> CHR 0x00) (take len (xs @ CHR 0x00 # mem)) = take len xs"
    if "\<And>n. CHR 0x00 \<notin> set (take n xs)" for xs
  proof (cases "len \<le> length xs")
    case True
    with that [of len] show ?thesis by simp
  next
    case False
    then obtain k where k: "len - length xs = Suc k" by (cases "len - length xs") auto
    have "takeWhile (\<lambda>c. c \<noteq> CHR 0x00) (xs @ CHR 0x00 # take k mem) = xs"
      using that [of "length xs"] by (simp add: takeWhile_append)
    with False k show ?thesis by (simp add: take_Cons')
  qed
  show ?thesis unfolding substring_def D by (rule T) (rule notin)
qed

text \<open>\<open>sprintf("%d", uid)\<close>.\<close>

definition dec_int :: "int \<Rightarrow> string" where
  "dec_int i = (if i < 0 then CHR ''-'' # dec (nat (- i)) else dec (nat i))"

subsection \<open>The client library\<close>

record rodsEnv =
  rodsHost :: string
  rodsPort :: int
  rodsUserName :: string
  rodsZone :: string
  rodsDefResource :: string

type_synonym rcComm = "int option"

text \<open>
  An entry of a collection, and the output of a query: the number of rows, the values that
  \<open>sqlResult[j].value\<close> points to, and the index with which the query is continued.
\<close>

record collEnt =
  ce_is_data :: bool
  ce_dataName :: "string option"
  ce_collName :: "string option"

record genQueryOut =
  gq_rowCnt :: nat
  gq_values :: "string list"
  gq_continueInx :: int

type_synonym query = "int list \<times> (int \<times> string) list"

record 'w rods =
  rc_getRodsEnv :: "'w \<Rightarrow> int \<times> rodsEnv"
  rc_connect :: "rodsEnv \<Rightarrow> (string \<times> string) option \<Rightarrow> 'w \<Rightarrow> rcComm \<times> 'w"
  rc_clientLogin :: "rcComm \<Rightarrow> 'w \<Rightarrow> int \<times> 'w"
  rc_disconnect :: "rcComm \<Rightarrow> 'w \<Rightarrow> 'w"
  rc_CollCreate :: "rcComm \<Rightarrow> path \<Rightarrow> bool \<Rightarrow> 'w \<Rightarrow> int \<times> 'w"
  rc_RmColl :: "rcComm \<Rightarrow> path \<Rightarrow> 'w \<Rightarrow> int \<times> 'w"
  rc_DataObjGet :: "rcComm \<Rightarrow> path \<Rightarrow> path \<Rightarrow> bool \<Rightarrow> bool \<Rightarrow> 'w \<Rightarrow> int \<times> 'w"
  rc_DataObjUnlink :: "rcComm \<Rightarrow> path \<Rightarrow> 'w \<Rightarrow> int \<times> 'w"
  rc_DataObjCreate :: "rcComm \<Rightarrow> path \<Rightarrow> string \<Rightarrow> 'w \<Rightarrow> int \<times> 'w"
  rc_DataObjRename :: "rcComm \<Rightarrow> path \<Rightarrow> path \<Rightarrow> 'w \<Rightarrow> int \<times> 'w"
  rc_ModAccessControl :: "rcComm \<Rightarrow> path \<Rightarrow> string \<Rightarrow> string \<Rightarrow> string \<Rightarrow> 'w \<Rightarrow> int \<times> 'w"
  rc_DataObjOpen :: "rcComm \<Rightarrow> path \<Rightarrow> uint32 \<Rightarrow> 'w \<Rightarrow> int \<times> 'w"
  rc_DataObjOpenAndStat :: "rcComm \<Rightarrow> path \<Rightarrow> uint32 \<Rightarrow> string \<Rightarrow> 'w \<Rightarrow> (int \<times> int option) \<times> 'w"
  rc_DataObjLseek :: "rcComm \<Rightarrow> int \<Rightarrow> int \<Rightarrow> 'w \<Rightarrow> int \<times> 'w"
  rc_DataObjRead :: "rcComm \<Rightarrow> int \<Rightarrow> uint32 \<Rightarrow> uint64 \<Rightarrow> 'w \<Rightarrow> (int \<times> byte list) \<times> 'w"
  rc_DataObjWrite :: "rcComm \<Rightarrow> int \<Rightarrow> byte list \<Rightarrow> 'w \<Rightarrow> int \<times> 'w"
  rc_DataObjClose :: "rcComm \<Rightarrow> int \<Rightarrow> 'w \<Rightarrow> int \<times> 'w"
  rc_OpenCollection :: "rcComm \<Rightarrow> path \<Rightarrow> 'w \<Rightarrow> int \<times> 'w"
  rc_ReadCollection :: "rcComm \<Rightarrow> int \<Rightarrow> 'w \<Rightarrow> (int \<times> collEnt) \<times> 'w"
  rc_CloseCollection :: "rcComm \<Rightarrow> int \<Rightarrow> 'w \<Rightarrow> int \<times> 'w"
  rc_GenQuery :: "rcComm \<Rightarrow> query \<Rightarrow> int \<Rightarrow> 'w \<Rightarrow> (int \<times> genQueryOut) \<times> 'w"
  rc_errno :: "'w \<Rightarrow> errno option"

text \<open>The two globals of \<open>utils.c\<close> and \<open>nfs.c\<close>, and the static reply LOOKUP reads again.\<close>

record 'w nfs = "'w mnt" +
  ZONE :: string
  NFS_RODS_PRIVATE_COLL :: bool
  lookup_obj_attr :: post_op_attr

text \<open>A library call; it may leave another error number behind.\<close>

definition rc :: "'w rods \<Rightarrow> ('w \<Rightarrow> 'a \<times> 'w) \<Rightarrow> ('w, 'z) sys_scheme \<Rightarrow> 'a \<times> ('w, 'z) sys_scheme" where
  "rc ro f s =
     (case f (world s) of
        (a, w) \<Rightarrow> (a, s\<lparr>world := w, errno := (case rc_errno ro w of None \<Rightarrow> errno s | Some e \<Rightarrow> e)\<rparr>))"

lemma rc_only [sys_frame]: "rc ro f s = (a, s') \<Longrightarrow> sys_only s s'"
  by (auto simp: rc_def split: prod.splits)

subsection \<open>Connecting\<close>

definition isPublic :: "('w, 'z) nfs_scheme \<Rightarrow> bool" where
  "isPublic s \<longleftrightarrow>
     (case export_path s of None \<Rightarrow> False | Some p \<Rightarrow> strstr p ''public'' \<noteq> None)
     \<or> \<not> NFS_RODS_PRIVATE_COLL s"

text \<open>
  \<open>getUserName\<close>: the result code and the name, which is what the buffer held (\<open>junk\<close>) where the
  function does not write it.
\<close>

definition getUserName ::
  "'w os \<Rightarrow> string \<Rightarrow> uint32 \<Rightarrow> ('w, 'z) nfs_scheme \<Rightarrow> (int \<times> string) \<times> ('w, 'z) nfs_scheme" where
  "getUserName os junk uid s =
     (if \<not> NFS_RODS_PRIVATE_COLL s then ((1, junk), s)
      else (case sys_call (os_getpwuid os uid) s of
              (Some pw, s) \<Rightarrow> ((0, pw_name pw), s)
            | (None, s) \<Rightarrow> ((-1, junk), s)))"

definition rodsConnect :: "'w rods \<Rightarrow> ('w, 'z) nfs_scheme \<Rightarrow> rcComm \<times> ('w, 'z) nfs_scheme" where
  "rodsConnect ro s =
     (case rc_getRodsEnv ro (world s) of
        (status, env) \<Rightarrow>
          if status < 0 then (None, s) else rc ro (rc_connect ro env None) s)"

definition rodsConnectProxy ::
  "'w rods \<Rightarrow> string \<Rightarrow> string \<Rightarrow> ('w, 'z) nfs_scheme \<Rightarrow> rcComm \<times> ('w, 'z) nfs_scheme" where
  "rodsConnectProxy ro clientUserName zone s =
     (if isPublic s then rodsConnect ro s
      else (case rc_getRodsEnv ro (world s) of
              (status, env) \<Rightarrow>
                if status < 0 then (None, s)
                else rc ro (rc_connect ro env (Some (clientUserName, zone))) s))"

definition rodsConnecUser ::
  "'w os \<Rightarrow> 'w rods \<Rightarrow> string \<Rightarrow> uint32 \<Rightarrow> ('w, 'z) nfs_scheme
   \<Rightarrow> (rcComm \<times> ('w, 'z) nfs_scheme) option" where
  "rodsConnecUser os ro junk uid s =
     (case getUserName os junk uid s of
        ((result, userName), s) \<Rightarrow>
          if result < 0 then None else Some (rodsConnectProxy ro userName (ZONE s) s))"

definition rcDisconnect :: "'w rods \<Rightarrow> rcComm \<Rightarrow> ('w, 'z) nfs_scheme \<Rightarrow> ('w, 'z) nfs_scheme" where
  "rcDisconnect ro comm s = snd (rc ro (\<lambda>w. ((), rc_disconnect ro comm w)) s)"

definition rodsLogin :: "'w rods \<Rightarrow> rcComm \<Rightarrow> ('w, 'z) nfs_scheme \<Rightarrow> int \<times> ('w, 'z) nfs_scheme" where
  "rodsLogin ro comm s =
     (if comm = None then (0, s)
      else (let (status, s) = rc ro (rc_clientLogin ro comm) s
            in if status \<noteq> 0 then (status, rcDisconnect ro comm s) else (status, s)))"

definition getRodsPath ::
  "'w os \<Rightarrow> string \<Rightarrow> uint32 \<Rightarrow> string \<Rightarrow> ('w, 'z) nfs_scheme \<Rightarrow> (string \<times> ('w, 'z) nfs_scheme) option" where
  "getRodsPath os junk uid p s =
     (if isPublic s then Some (concatProxy (concat_str ''/'' (ZONE s)) ''public'' p, s)
      else (case getUserName os junk uid s of
              ((result, userName), s) \<Rightarrow>
                if result < 0 then None
                else Some (concatProxy (concat_str ''/'' (ZONE s)) userName p, s)))"

subsection \<open>Objects and collections\<close>

definition dest_resc :: "'w rods \<Rightarrow> ('w, 'z) nfs_scheme \<Rightarrow> string" where
  "dest_resc ro s =
     (let r = rodsDefResource (snd (rc_getRodsEnv ro (world s))) in if r = [] then ''demoResc'' else r)"

definition makeCollection where
  "makeCollection ro p comm makeRecursive = rc ro (rc_CollCreate ro comm p makeRecursive)"

definition removeCollection where
  "removeCollection ro p comm = rc ro (rc_RmColl ro comm p)"

definition getFile where
  "getFile ro localPath objPath verifyChecksum allowOverwrite comm =
     rc ro (rc_DataObjGet ro comm objPath localPath verifyChecksum allowOverwrite)"

definition removeObj where
  "removeObj ro objPath comm = rc ro (rc_DataObjUnlink ro comm objPath)"

definition createFile ::
  "'w rods \<Rightarrow> path \<Rightarrow> rcComm \<Rightarrow> ('w, 'z) nfs_scheme \<Rightarrow> int \<times> ('w, 'z) nfs_scheme" where
  "createFile ro objPath comm s = rc ro (rc_DataObjCreate ro comm objPath (dest_resc ro s)) s"

definition renameFile where
  "renameFile ro objPathDes objPathSrc comm = rc ro (rc_DataObjRename ro comm objPathDes objPathSrc)"

definition changeAttr ::
  "'w rods \<Rightarrow> path \<Rightarrow> string \<Rightarrow> string \<Rightarrow> rcComm \<Rightarrow> ('w, 'z) nfs_scheme \<Rightarrow> int \<times> ('w, 'z) nfs_scheme" where
  "changeAttr ro p userName accessLevel comm s =
     rc ro (rc_ModAccessControl ro comm p userName (ZONE s) accessLevel) s"

text \<open>The offset of \<open>iWrite\<close> is an \<open>int\<close>: the 64 bits of the request are cut down to 32.\<close>

definition iWrite ::
  "'w rods \<Rightarrow> path \<Rightarrow> byte list \<Rightarrow> int \<Rightarrow> rcComm \<Rightarrow> ('w, 'z) nfs_scheme \<Rightarrow> int \<times> ('w, 'z) nfs_scheme" where
  "iWrite ro objPath buff offset comm s =
     (let ((l1, _), s) = rc ro (rc_DataObjOpenAndStat ro comm objPath O_RDWR (dest_resc ro s)) s;
          (seekstatus, s) = rc ro (rc_DataObjLseek ro comm l1 offset) s
      in if seekstatus < 0 then (-1, s)
         else (let (bytesWrite, s) = rc ro (rc_DataObjWrite ro comm l1 buff) s
               in if bytesWrite < 0 then (-1, s) else rc ro (rc_DataObjClose ro comm l1) s))"

definition fileSize ::
  "'w rods \<Rightarrow> path \<Rightarrow> rcComm \<Rightarrow> ('w, 'z) nfs_scheme \<Rightarrow> int \<times> ('w, 'z) nfs_scheme" where
  "fileSize ro objPath comm s =
     (let ((_, openStat), s) = rc ro (rc_DataObjOpenAndStat ro comm objPath O_RDWR (dest_resc ro s)) s
      in (case openStat of Some n \<Rightarrow> n | None \<Rightarrow> 0, s))"

definition set_attr_irods ::
  "'w rods \<Rightarrow> path \<Rightarrow> sattr3 \<Rightarrow> string \<Rightarrow> rcComm \<Rightarrow> ('w, 'z) nfs_scheme \<Rightarrow> nfsstat3 \<times> ('w, 'z) nfs_scheme" where
  "set_attr_irods ro p news owner comm s =
     (if set_size news \<noteq> None then (setattr_err (errno s), s)
      else if set_uid news \<noteq> None \<or> set_gid news \<noteq> None then (setattr_err (errno s), s)
      else (case set_mode news of
              None \<Rightarrow> (NFS3_OK, s)
            | Some m \<Rightarrow>
                (let status = permission (sint m);
                     mode = (if status = 1 then ''read'' else if status = 2 then ''write''
                             else if status = 3 then ''own'' else ''null'');
                     (res, s) = changeAttr ro p owner mode comm s
                 in if res = -1 then (setattr_err (errno s), s) else (NFS3_OK, s))))"

end
