(* ===== verification/Config.thy ===== *)
theory Config
  imports Mount
begin

text \<open>
  Reading the exports file: the actions of \<open>Config/exports.y\<close>, the parser that \<open>Config/y.tab.c\<close> holds
  for its grammar, and \<open>exports_parse\<close>. The parser is the table-driven automaton as generated, with
  its tables; it is given the list of the tokens the lexer delivers up to the end of the file, and
  returns those it has not shifted, of which it has read the first. (When the stack is full the
  generated parser may stop before it has read that one.) \<open>gethostbyname\<close> is the argument \<open>dns\<close>. Memory
  allocation is assumed to succeed.
\<close>

subsection \<open>Numbers and addresses\<close>

definition isdigit :: "char \<Rightarrow> bool" where
  "isdigit c \<longleftrightarrow> 48 \<le> (of_char c :: nat) \<and> (of_char c :: nat) \<le> 57"

definition digit_value :: "char \<Rightarrow> int" where "digit_value c = of_char c - 48"

definition isspace :: "char \<Rightarrow> bool" where
  "isspace c \<longleftrightarrow> (of_char c :: nat) = 32 \<or> 9 \<le> (of_char c :: nat) \<and> (of_char c :: nat) \<le> 13"

text \<open>\<open>atoi\<close> is \<open>strtol\<close>, which saturates at 64 bits, and then a conversion to \<open>int\<close>.\<close>

definition atoi :: "string \<Rightarrow> uint32" where
  "atoi s =
     (let s = dropWhile isspace s;
          neg = (s \<noteq> [] \<and> hd s = CHR ''-'');
          s = (if s \<noteq> [] \<and> (hd s = CHR ''-'' \<or> hd s = CHR ''+'') then tl s else s);
          n = foldl (\<lambda>a c. 10 * a + digit_value c) 0 (takeWhile isdigit s);
          n = (if neg then - n else n)
      in word_of_int (max (- (2 ^ 63)) (min (2 ^ 63 - 1) n)))"

text \<open>
  \<open>inet_aton\<close> on the texts the lexer lets through, four groups of one to three digits: a leading
  zero makes a group octal, and a group must be at most 255.
\<close>

definition octal_value :: "string \<Rightarrow> int option" where
  "octal_value s =
     (if (\<forall>c\<in>set s. isdigit c \<and> c \<noteq> CHR ''8'' \<and> c \<noteq> CHR ''9'')
      then Some (foldl (\<lambda>a c. 8 * a + digit_value c) 0 s) else None)"

definition addr_group :: "string \<Rightarrow> byte option" where
  "addr_group s =
     (let n = (if 1 < length s \<and> hd s = CHR ''0'' then octal_value s
               else if s \<noteq> [] \<and> (\<forall>c\<in>set s. isdigit c)
               then Some (foldl (\<lambda>a c. 10 * a + digit_value c) 0 s) else None)
      in case n of None \<Rightarrow> None | Some n \<Rightarrow> if n \<le> 255 then Some (word_of_int n) else None)"

fun split_dot :: "string \<Rightarrow> string list" where
  "split_dot [] = [[]]"
| "split_dot (c # cs) =
     (case split_dot cs of
        [] \<Rightarrow> [[c]]
      | g # gs \<Rightarrow> if c = CHR ''.'' then [] # g # gs else (c # g) # gs)"

definition inet_aton :: "string \<Rightarrow> uint32 option" where
  "inet_aton s =
     (case map addr_group (split_dot s) of
        [Some a, Some b, Some c, Some d] \<Rightarrow> Some (word_le [a, b, c, d])
      | _ \<Rightarrow> None)"

subsection \<open>The state of the parse\<close>

text \<open>
  \<open>ne_item\<close> is the groups of the current item in the form of the MOUNT protocol, \<open>ne_list\<close> the items
  done. \<open>cur_item\<close> has no field but its hosts before it is added.
\<close>

record pstate =
  e_list :: "e_item list"
  cur_hosts :: "e_host list"
  cur_host :: e_host
  ne_list :: "(path \<times> string list) list"
  ne_item :: "string list"
  e_error :: bool

definition anon_host :: e_host where
  "anon_host = \<lparr>h_orig = ''<anon clnt>'', h_options = 0, h_password = [], h_password_hash = 0, h_addr = 0,
     h_mask = 0, h_anonuid = ANON_NOTSPECIAL, h_anongid = ANON_NOTSPECIAL\<rparr>"

definition clear_host :: "pstate \<Rightarrow> pstate" where
  "clear_host ps = ps\<lparr>cur_host := anon_host\<rparr>"

definition clear_item :: "pstate \<Rightarrow> pstate" where
  "clear_item ps = ps\<lparr>cur_hosts := [], ne_item := []\<rparr>"

definition add_host :: "pstate \<Rightarrow> pstate" where
  "add_host ps =
     clear_host (ps\<lparr>cur_hosts := cur_hosts ps @ [cur_host ps],
                    ne_item := ne_item ps @ [h_orig (cur_host ps)]\<rparr>)"

definition add_item ::
  "'w os \<Rightarrow> path \<Rightarrow> pstate \<times> ('w, 'z) expo_scheme \<Rightarrow> pstate \<times> ('w, 'z) expo_scheme" where
  "add_item os p x =
     (case x of (ps, s) \<Rightarrow>
        (let removable_for_all = (\<forall>h\<in>set (cur_hosts ps). has_bits (h_options h) OPT_REMOVABLE);
             (buf, s) = (if removable_for_all then (Some (normpath p), s) else backend_realpath os p s)
         in case buf of
              None \<Rightarrow> (clear_item (ps\<lparr>e_error := True\<rparr>), s)
            | Some buf \<Rightarrow>
                if NFS_MAXPATHLEN < length buf + 1 then (clear_item (ps\<lparr>e_error := True\<rparr>), s)
                else
                  (let ps = (if cur_hosts ps = [] then add_host ps else ps);
                       new = \<lparr>i_path = buf, i_orig = p, i_hosts = cur_hosts ps, i_fsid = get_free_fsid p,
                              i_last_mtime = 0, i_dir_hash = 0\<rparr>
                   in (clear_item (ps\<lparr>e_list := e_list ps @ [new],
                                      ne_list := ne_list ps @ [(p, ne_item ps)]\<rparr>), s))))"

definition set_hostname :: "(string \<Rightarrow> uint32 option) \<Rightarrow> string \<Rightarrow> pstate \<Rightarrow> pstate" where
  "set_hostname dns n ps =
     (if NFS_MAXPATHLEN < length n + 1 then ps\<lparr>e_error := True\<rparr>
      else (let h = (cur_host ps)\<lparr>h_orig := n\<rparr>
            in case dns n of
                 Some a \<Rightarrow> ps\<lparr>cur_host := h\<lparr>h_addr := a, h_mask := 0xFFFFFFFF\<rparr>\<rparr>
               | None \<Rightarrow> ps\<lparr>cur_host := h, e_error := True\<rparr>))"

definition set_ipaddr :: "string \<Rightarrow> pstate \<Rightarrow> pstate" where
  "set_ipaddr addr ps =
     (let h = (cur_host ps)\<lparr>h_orig := addr\<rparr>
      in case inet_aton addr of
           Some a \<Rightarrow> ps\<lparr>cur_host := h\<lparr>h_addr := a, h_mask := 0xFFFFFFFF\<rparr>\<rparr>
         | None \<Rightarrow> ps\<lparr>cur_host := h\<lparr>h_mask := 0xFFFFFFFF\<rparr>, e_error := True\<rparr>)"

text \<open>The mask is built in an \<open>unsigned long\<close> of 64 bits, of which \<open>htonl\<close> takes the lower half.\<close>

definition htonl :: "uint32 \<Rightarrow> uint32" where
  "htonl w = word_le (rev (bytes_le 4 w))"

fun netmask_ones :: "nat \<Rightarrow> uint64 \<Rightarrow> uint64" where
  "netmask_ones 0 buf = buf"
| "netmask_ones (Suc n) buf = netmask_ones n (push_bit 1 buf + 1)"

definition make_netmask :: "int \<Rightarrow> uint32" where
  "make_netmask bits =
     (let buf = netmask_ones (nat bits) 0
      in htonl (ucast (push_bit (32 - nat bits) buf)))"

definition set_ipnet :: "string \<Rightarrow> bool \<Rightarrow> pstate \<Rightarrow> pstate" where
  "set_ipnet addr new ps =
     (let ip = takeWhile (\<lambda>c. c \<noteq> CHR ''/'') addr;
          net = drop (length ip + 1) addr;
          ps = set_ipaddr ip ps;
          ps = (if new then ps\<lparr>cur_host := (cur_host ps)\<lparr>h_mask := make_netmask (sint (atoi net))\<rparr>\<rparr>
                else (case inet_aton net of
                        Some m \<Rightarrow> ps\<lparr>cur_host := (cur_host ps)\<lparr>h_mask := m\<rparr>\<rparr>
                      | None \<Rightarrow> ps\<lparr>e_error := True\<rparr>))
      in ps\<lparr>cur_host := (cur_host ps)\<lparr>h_orig := addr\<rparr>\<rparr>)"

definition option_bits :: "string \<Rightarrow> uint32 \<Rightarrow> uint32" where
  "option_bits opt b =
     (if opt = ''no_root_squash'' then b OR OPT_NO_ROOT_SQUASH
      else if opt = ''root_squash'' then b AND NOT OPT_NO_ROOT_SQUASH
      else if opt = ''all_squash'' then b OR OPT_ALL_SQUASH
      else if opt = ''no_all_squash'' then b AND NOT OPT_ALL_SQUASH
      else if opt = ''rw'' then b OR OPT_RW
      else if opt = ''ro'' then b AND NOT OPT_RW
      else if opt = ''removable'' then b OR OPT_REMOVABLE
      else if opt = ''fixed'' then b AND NOT OPT_REMOVABLE
      else if opt = ''insecure'' then b OR OPT_INSECURE
      else if opt = ''secure'' then b AND NOT OPT_INSECURE
      else b)"

definition add_option :: "string \<Rightarrow> pstate \<Rightarrow> pstate" where
  "add_option opt ps =
     ps\<lparr>cur_host := (cur_host ps)\<lparr>h_options := option_bits opt (h_options (cur_host ps))\<rparr>\<rparr>"

definition add_option_with_value :: "string \<Rightarrow> string \<Rightarrow> pstate \<Rightarrow> pstate" where
  "add_option_with_value opt v ps =
     (let h = cur_host ps;
          pw = take PASSWORD_MAXLEN v
      in if opt = ''password''
         then ps\<lparr>cur_host := h\<lparr>h_password := pw, h_password_hash := fnv1a_32 pw 0\<rparr>\<rparr>
         else if opt = ''anonuid'' then ps\<lparr>cur_host := h\<lparr>h_anonuid := atoi v\<rparr>\<rparr>
         else if opt = ''anongid'' then ps\<lparr>cur_host := h\<lparr>h_anongid := atoi v\<rparr>\<rparr>
         else ps)"

definition yyerror :: "pstate \<Rightarrow> pstate" where "yyerror ps = ps\<lparr>e_error := True\<rparr>"

subsection \<open>Tokens\<close>

definition is_eof :: "token \<Rightarrow> bool" where
  "is_eof t \<longleftrightarrow> (case t of T_CHAR i \<Rightarrow> i \<le> 0 | _ \<Rightarrow> False)"

text \<open>\<open>YYTRANSLATE\<close>: the symbol number of a token, 0 at the end of the input.\<close>

definition yytranslate :: "token list \<Rightarrow> nat" where
  "yytranslate ts =
     (case ts of
        [] \<Rightarrow> 0
      | t # _ \<Rightarrow>
          (case t of
             T_PATH _ \<Rightarrow> 3 | T_ID _ \<Rightarrow> 4 | T_OPTVALUE _ \<Rightarrow> 5 | T_WHITE _ \<Rightarrow> 6
           | T_IP _ \<Rightarrow> 7 | T_NET _ \<Rightarrow> 8 | T_OLDNET _ \<Rightarrow> 9
           | T_CHAR i \<Rightarrow>
               if i \<le> 0 then 0 else if i = 10 then 10 else if i = 40 then 11 else if i = 41 then 12
               else if i = 44 then 13 else 2))"

subsection \<open>The automaton\<close>

definition yyr1 :: "nat list" where
  "yyr1 = [0, 14, 15, 15, 15, 16, 16, 16, 17, 17, 17, 18, 18, 18, 19, 19, 19, 19, 20, 20, 20, 21, 21]"
definition yyr2 :: "nat list" where
  "yyr2 = [0, 2, 1, 3, 0, 1, 3, 2, 1, 3, 2, 1, 4, 3, 1, 1, 1, 1, 1, 3, 0, 1, 2]"
definition yydefact :: "nat list" where
  "yydefact = [4, 5, 0, 2, 7, 1, 4, 14, 15, 16, 17, 20, 6, 8, 11, 3, 21, 0, 18, 10, 20, 22, 13, 20, 9, 0, 19, 12]"
definition yydefgoto :: "int list" where
  "yydefgoto = [-1, 2, 3, 12, 13, 14, 17, 18]"
definition YYPACT_NINF :: int where "YYPACT_NINF = -15"
definition yypact :: "int list" where
  "yypact = [-2, 2, 10, -8, -4, -15, -2, -15, -15, -15, -15, 7, -15, 6, 3, -15, 8, 4, 5, -4,
     7, -15, -15, 7, -15, 9, -15, -15]"
definition yypgoto :: "int list" where
  "yypgoto = [-15, 11, -15, 0, -15, -15, -14, -15]"
definition YYTABLE_NINF :: int where "YYTABLE_NINF = -1"
definition yytable :: "int list" where
  "yytable = [7, 1, 6, 8, 9, 10, 25, 11, 4, 26, 5, 16, 19, 21, 20, 0, 22, 15, 23, 24, 0, 27]"
definition yycheck :: "int list" where
  "yycheck = [4, 3, 10, 7, 8, 9, 20, 11, 6, 23, 0, 4, 6, 5, 11, -1, 12, 6, 13, 19, -1, 12]"
definition YYLAST :: int where "YYLAST = 21"
definition YYNTOKENS :: nat where "YYNTOKENS = 14"
definition YYFINAL :: nat where "YYFINAL = 5"
definition YYMAXDEPTH :: nat where "YYMAXDEPTH = 10000"

text \<open>
  What the automaton does next in a state: stop, shift to a state, or reduce by a rule. \<open>yybackup\<close>
  looks at the next token unless the state has a default action alone.
\<close>

datatype yyaction = Y_error | Y_shift nat | Y_reduce nat

definition yydefault :: "nat \<Rightarrow> yyaction" where
  "yydefault q = (if yydefact ! q = 0 then Y_error else Y_reduce (yydefact ! q))"

definition yybackup :: "nat \<Rightarrow> nat \<Rightarrow> yyaction" where
  "yybackup q tok =
     (let n = yypact ! q
      in if n = YYPACT_NINF then yydefault q
         else
           (let n = n + int tok
            in if n < 0 \<or> YYLAST < n \<or> yycheck ! nat n \<noteq> int tok then yydefault q
               else (let n = yytable ! nat n
                     in if n \<le> 0
                        then (if n = 0 \<or> n = YYTABLE_NINF then Y_error else Y_reduce (nat (- n)))
                        else Y_shift (nat n))))"

text \<open>The state after the reduction to a nonterminal, in the state uncovered.\<close>

definition yygoto :: "nat \<Rightarrow> nat \<Rightarrow> nat" where
  "yygoto q rule =
     (let nt = yyr1 ! rule - YYNTOKENS;
          n = yypgoto ! nt + int q
      in nat (if 0 \<le> n \<and> n \<le> YYLAST \<and> yycheck ! nat n = int q then yytable ! nat n
              else yydefgoto ! nt))"

text \<open>The action of a rule, given the values of its right-hand side, the last one first.\<close>

definition yyreduce_action ::
  "'w os \<Rightarrow> (string \<Rightarrow> uint32 option) \<Rightarrow> nat \<Rightarrow> string list \<Rightarrow> pstate \<times> ('w, 'z) expo_scheme
   \<Rightarrow> pstate \<times> ('w, 'z) expo_scheme" where
  "yyreduce_action os dns rule vs x =
     (let arg = (\<lambda>i. rev vs ! (i - 1))
      in if rule \<in> {5, 6, 7} then add_item os (arg 1) x
         else if rule \<in> {11, 12, 13} then apfst add_host x
         else if rule = 14 then apfst (set_hostname dns (arg 1)) x
         else if rule = 15 then apfst (set_ipaddr (arg 1)) x
         else if rule = 16 then apfst (set_ipnet (arg 1) True) x
         else if rule = 17 then apfst (set_ipnet (arg 1) False) x
         else if rule = 21 then apfst (add_option (arg 1)) x
         else if rule = 22 then apfst (add_option_with_value (arg 1) (arg 2)) x
         else x)"

text \<open>
  The error token has the symbol number 1. The recovery pops states until one can shift it; it aborts
  the parse when there is none.
\<close>

definition YYTERROR :: int where "YYTERROR = 1"

definition shifts_error :: "nat \<Rightarrow> nat option" where
  "shifts_error q =
     (let n = yypact ! q + YYTERROR
      in if yypact ! q \<noteq> YYPACT_NINF \<and> 0 \<le> n \<and> n \<le> YYLAST \<and> yycheck ! nat n = YYTERROR
            \<and> 0 < yytable ! nat n
         then Some (nat (yytable ! nat n)) else None)"

fun yyerrlab1 :: "(nat \<times> string) list \<Rightarrow> (nat \<times> string) list" where
  "yyerrlab1 [] = []"
| "yyerrlab1 ((q, v) # st) =
     (case shifts_error q of Some q' \<Rightarrow> (q', []) # (q, v) # st | None \<Rightarrow> yyerrlab1 st)"

text \<open>
  One round: the stack of states and values with its top first, the tokens not shifted yet and the
  state of the parse. The parse is over (\<open>Inl\<close>) when the final state is reached, when the recovery
  from an error fails, and when the stack has grown to its limit.
\<close>

definition yyround ::
  "'w os \<Rightarrow> (string \<Rightarrow> uint32 option) \<Rightarrow>
   (nat \<times> string) list \<times> token list \<times> pstate \<times> ('w, 'z) expo_scheme \<Rightarrow>
   (nat \<times> token list \<times> pstate \<times> ('w, 'z) expo_scheme) +
   ((nat \<times> string) list \<times> token list \<times> pstate \<times> ('w, 'z) expo_scheme)" where
  "yyround os dns c =
     (case c of (st, ts, ps, s) \<Rightarrow>
        if YYMAXDEPTH \<le> length st then Inl (2, ts, yyerror ps, s)
        else
          (case yybackup (fst (hd st)) (yytranslate ts) of
             Y_error \<Rightarrow>
               (case yyerrlab1 st of
                  [] \<Rightarrow> Inl (1, ts, yyerror ps, s)
                | st \<Rightarrow> Inr (st, ts, yyerror ps, s))
           | Y_shift q \<Rightarrow>
               if q = YYFINAL then Inl (0, ts, ps, s)
               else Inr ((q, text_of (hd ts)) # st, tl ts, ps, s)
           | Y_reduce r \<Rightarrow>
               (let n = yyr2 ! r;
                    vs = map snd (take n st);
                    (ps, s) = yyreduce_action os dns r vs (ps, s);
                    st = drop n st;
                    v = (if n = 0 then [] else last vs)
                in Inr ((yygoto (fst (hd st)) r, v) # st, ts, ps, s))))"

partial_function (option) yyrun ::
  "'w os \<Rightarrow> (string \<Rightarrow> uint32 option) \<Rightarrow>
   (nat \<times> string) list \<times> token list \<times> pstate \<times> ('w, 'z) expo_scheme \<Rightarrow>
   (nat \<times> token list \<times> pstate \<times> ('w, 'z) expo_scheme) option" where
  "yyrun os dns c = (case yyround os dns c of Inl r \<Rightarrow> Some r | Inr c \<Rightarrow> yyrun os dns c)"

definition yyparse ::
  "'w os \<Rightarrow> (string \<Rightarrow> uint32 option) \<Rightarrow> token list \<Rightarrow> pstate \<times> ('w, 'z) expo_scheme \<Rightarrow>
   (nat \<times> token list \<times> pstate \<times> ('w, 'z) expo_scheme) option" where
  "yyparse os dns ts x = yyrun os dns ([(0, [])], ts, x)"

subsection \<open>The grammar\<close>

text \<open>
  What the grammar says, as a recursive descent over the tokens: each function performs the actions
  of its nonterminal and returns the tokens left. \<open>None\<close> is a syntax error.
\<close>

definition g_opt :: "string \<Rightarrow> token list \<Rightarrow> pstate \<Rightarrow> token list \<times> pstate" where
  "g_opt n ts ps =
     (case ts of T_OPTVALUE v # ts' \<Rightarrow> (ts', add_option_with_value n v ps) | _ \<Rightarrow> (ts, add_option n ps))"

lemma g_opt_length: "g_opt n ts ps = (ts', ps') \<Longrightarrow> length ts' \<le> length ts"
  by (auto simp: g_opt_def split: list.splits token.splits)

function g_opts :: "token list \<Rightarrow> pstate \<Rightarrow> token list \<times> pstate" where
  "g_opts ts ps =
     (case ts of
        T_ID n # ts1 \<Rightarrow>
          (case g_opt n ts1 ps of
             (T_CHAR i # ts2, ps) \<Rightarrow> if i = 44 then g_opts ts2 ps else (T_CHAR i # ts2, ps)
           | r \<Rightarrow> r)
      | _ \<Rightarrow> (ts, ps))"
  by pat_completeness auto
termination
  by (relation "measure (\<lambda>(ts, ps). length ts)") (auto dest!: g_opt_length [OF sym])

declare g_opts.simps [simp del]

definition g_opts_paren :: "token list \<Rightarrow> pstate \<Rightarrow> token list option \<times> pstate" where
  "g_opts_paren ts ps =
     (case g_opts ts ps of
        (T_CHAR i # ts, ps) \<Rightarrow> if i = 41 then (Some ts, add_host ps) else (None, ps)
      | (_, ps) \<Rightarrow> (None, ps))"

definition g_name_rest :: "token list \<Rightarrow> pstate \<Rightarrow> token list option \<times> pstate" where
  "g_name_rest ts ps =
     (case ts of
        T_CHAR i # ts' \<Rightarrow> if i = 40 then g_opts_paren ts' ps else (Some ts, add_host ps)
      | _ \<Rightarrow> (Some ts, add_host ps))"

fun g_host :: "(string \<Rightarrow> uint32 option) \<Rightarrow> token list \<Rightarrow> pstate \<Rightarrow> token list option \<times> pstate" where
  "g_host dns (T_ID n # ts) ps = g_name_rest ts (set_hostname dns n ps)"
| "g_host dns (T_IP a # ts) ps = g_name_rest ts (set_ipaddr a ps)"
| "g_host dns (T_NET a # ts) ps = g_name_rest ts (set_ipnet a True ps)"
| "g_host dns (T_OLDNET a # ts) ps = g_name_rest ts (set_ipnet a False ps)"
| "g_host dns (T_CHAR i # ts) ps = (if i = 40 then g_opts_paren ts ps else (None, ps))"
| "g_host dns ts ps = (None, ps)"

definition host_start :: "token list \<Rightarrow> bool" where
  "host_start ts \<longleftrightarrow> yytranslate ts \<in> {4, 7, 8, 9, 11}"

lemma g_opts_length: "g_opts ts ps = (ts', ps') \<Longrightarrow> length ts' \<le> length ts"
proof (induction ts ps arbitrary: ts' ps' rule: g_opts.induct)
  case (1 ts ps)
  show ?case
    using "1.prems" g_opt_length "1.IH"
    by (subst (asm) g_opts.simps)
      (fastforce split: list.splits token.splits prod.splits if_splits)
qed

lemma g_opts_paren_length: "g_opts_paren ts ps = (Some ts', ps') \<Longrightarrow> length ts' < length ts"
  by (auto simp: g_opts_paren_def split: list.splits token.splits if_splits prod.splits
      dest: g_opts_length)

lemma g_name_rest_length: "g_name_rest ts ps = (Some ts', ps') \<Longrightarrow> length ts' \<le> length ts"
  by (auto simp: g_name_rest_def split: list.splits token.splits if_splits dest: g_opts_paren_length)

lemma g_host_length: "g_host dns ts ps = (Some ts', ps') \<Longrightarrow> length ts' < length ts"
  by (induction dns ts ps rule: g_host.induct)
    (auto split: if_splits dest: g_name_rest_length g_opts_paren_length)

function g_hosts :: "(string \<Rightarrow> uint32 option) \<Rightarrow> token list \<Rightarrow> pstate \<Rightarrow> token list option \<times> pstate" where
  "g_hosts dns ts ps =
     (case g_host dns ts ps of
        (None, ps) \<Rightarrow> (None, ps)
      | (Some (T_WHITE w # ts'), ps) \<Rightarrow> if host_start ts' then g_hosts dns ts' ps else (Some ts', ps)
      | (Some ts', ps) \<Rightarrow> (Some ts', ps))"
  by pat_completeness auto
termination
  by (relation "measure (\<lambda>(dns, ts, ps). length ts)") (auto dest!: g_host_length [OF sym])

declare g_hosts.simps [simp del]

definition g_export ::
  "'w os \<Rightarrow> (string \<Rightarrow> uint32 option) \<Rightarrow> path \<Rightarrow> token list \<Rightarrow> pstate \<times> ('w, 'z) expo_scheme
   \<Rightarrow> token list option \<times> pstate \<times> ('w, 'z) expo_scheme" where
  "g_export os dns p ts x =
     (case ts of
        T_WHITE w # ts' \<Rightarrow>
          if host_start ts'
          then (case g_hosts dns ts' (fst x) of
                  (None, ps) \<Rightarrow> (None, ps, snd x)
                | (Some ts', ps) \<Rightarrow> (Some ts', add_item os p (ps, snd x)))
          else (Some ts', add_item os p x)
      | _ \<Rightarrow> (Some ts, add_item os p x))"

lemma g_hosts_length: "g_hosts dns ts ps = (Some ts', ps') \<Longrightarrow> length ts' < length ts"
proof (induction dns ts ps arbitrary: ts' ps' rule: g_hosts.induct)
  case (1 dns ts ps)
  show ?case
    using "1.prems" g_host_length "1.IH"
    by (subst (asm) g_hosts.simps)
      (fastforce split: list.splits token.splits prod.splits if_splits option.splits)
qed

lemma g_export_length: "g_export os dns p ts x = (Some ts', x') \<Longrightarrow> length ts' \<le> length ts"
  by (auto simp: g_export_def split: list.splits token.splits if_splits prod.splits option.splits
      dest: g_hosts_length)

function g_exports ::
  "'w os \<Rightarrow> (string \<Rightarrow> uint32 option) \<Rightarrow> token list \<Rightarrow> pstate \<times> ('w, 'z) expo_scheme
   \<Rightarrow> token list option \<times> pstate \<times> ('w, 'z) expo_scheme" where
  "g_exports os dns ts x =
     (case ts of
        T_PATH p # ts1 \<Rightarrow>
          (case g_export os dns p ts1 x of
             (Some (T_CHAR i # ts2), x) \<Rightarrow> if i = 10 then g_exports os dns ts2 x else (Some (T_CHAR i # ts2), x)
           | r \<Rightarrow> r)
      | _ \<Rightarrow> (Some ts, x))"
  by pat_completeness auto
termination
  by (relation "measure (\<lambda>(os, dns, ts, x). length ts)") (auto dest!: g_export_length [OF sym])

declare g_exports.simps [simp del]

definition g_file ::
  "'w os \<Rightarrow> (string \<Rightarrow> uint32 option) \<Rightarrow> token list \<Rightarrow> pstate \<times> ('w, 'z) expo_scheme
   \<Rightarrow> nat \<times> pstate \<times> ('w, 'z) expo_scheme" where
  "g_file os dns ts x =
     (case g_exports os dns ts x of
        (None, ps, s) \<Rightarrow> (1, yyerror ps, s)
      | (Some ts, ps, s) \<Rightarrow> if yytranslate ts = 0 then (0, ps, s) else (1, yyerror ps, s))"

subsection \<open>The automaton runs the grammar\<close>

lemma yytranslate_less: "yytranslate ts \<in> set [0..<14]"
  by (auto simp: yytranslate_def split: list.splits token.splits)

lemma yybackup_table:
  "\<forall>t\<in>set [0..<14].
     yybackup 0 t = (if t = 3 then Y_shift 1 else Y_reduce 4) \<and>
     yybackup 1 t = (if t = 6 then Y_shift 4 else Y_reduce 5) \<and>
     yybackup 2 t = (if t = 0 then Y_shift 5 else Y_error) \<and>
     yybackup 3 t = (if t = 10 then Y_shift 6 else Y_reduce 2) \<and>
     yybackup 4 t = (if t = 4 then Y_shift 7 else if t = 7 then Y_shift 8 else if t = 8 then Y_shift 9
       else if t = 9 then Y_shift 10 else if t = 11 then Y_shift 11 else Y_reduce 7) \<and>
     yybackup 6 t = (if t = 3 then Y_shift 1 else Y_reduce 4) \<and>
     yybackup 7 t = Y_reduce 14 \<and> yybackup 8 t = Y_reduce 15 \<and> yybackup 9 t = Y_reduce 16 \<and>
     yybackup 10 t = Y_reduce 17 \<and>
     yybackup 11 t = (if t = 4 then Y_shift 16 else Y_reduce 20) \<and>
     yybackup 12 t = Y_reduce 6 \<and>
     yybackup 13 t = (if t = 6 then Y_shift 19 else Y_reduce 8) \<and>
     yybackup 14 t = (if t = 11 then Y_shift 20 else Y_reduce 11) \<and>
     yybackup 15 t = Y_reduce 3 \<and>
     yybackup 16 t = (if t = 5 then Y_shift 21 else Y_reduce 21) \<and>
     yybackup 17 t = (if t = 12 then Y_shift 22 else Y_error) \<and>
     yybackup 18 t = (if t = 13 then Y_shift 23 else Y_reduce 18) \<and>
     yybackup 19 t = (if t = 4 then Y_shift 7 else if t = 7 then Y_shift 8 else if t = 8 then Y_shift 9
       else if t = 9 then Y_shift 10 else if t = 11 then Y_shift 11 else Y_reduce 10) \<and>
     yybackup 20 t = (if t = 4 then Y_shift 16 else Y_reduce 20) \<and>
     yybackup 21 t = Y_reduce 22 \<and> yybackup 22 t = Y_reduce 13 \<and>
     yybackup 23 t = (if t = 4 then Y_shift 16 else Y_reduce 20) \<and>
     yybackup 24 t = Y_reduce 9 \<and>
     yybackup 25 t = (if t = 12 then Y_shift 27 else Y_error) \<and>
     yybackup 26 t = Y_reduce 19 \<and> yybackup 27 t = Y_reduce 12"
  by code_simp

lemmas yybackups = bspec [OF yybackup_table, unfolded set_upt atLeastLessThan_iff, simplified]

lemma yytranslate_lt [simp]: "yytranslate ts < 14"
  using yytranslate_less [of ts] by simp

lemma yygoto_table:
  "\<forall>r\<in>{2, 3, 4}. yygoto 0 r = 2 \<and> yygoto 6 r = 15"
  "\<forall>r\<in>{5, 6, 7}. yygoto 0 r = 3 \<and> yygoto 6 r = 3"
  "\<forall>r\<in>{8, 9, 10}. yygoto 4 r = 12 \<and> yygoto 19 r = 24"
  "\<forall>r\<in>{11, 12, 13}. yygoto 4 r = 13 \<and> yygoto 19 r = 13"
  "\<forall>r\<in>{14, 15, 16, 17}. yygoto 4 r = 14 \<and> yygoto 19 r = 14"
  "\<forall>r\<in>{18, 19, 20}. yygoto 11 r = 17 \<and> yygoto 20 r = 25 \<and> yygoto 23 r = 26"
  "\<forall>r\<in>{21, 22}. yygoto 11 r = 18 \<and> yygoto 20 r = 18 \<and> yygoto 23 r = 18"
  by code_simp+

lemma no_recovery: "\<forall>q\<in>set [0..<28]. shifts_error q = None"
  by code_simp

text \<open>The states on the stack are states of the automaton.\<close>

definition stk :: "(nat \<times> string) list \<Rightarrow> bool" where "stk st \<longleftrightarrow> (\<forall>x\<in>set st. fst x < 28)"

lemma stk_simps [simp]: "stk []" "stk (x # st) \<longleftrightarrow> fst x < 28 \<and> stk st"
  by (auto simp: stk_def)

lemma yyerrlab1_none: "stk st \<Longrightarrow> yyerrlab1 st = []"
  using no_recovery by (induction st rule: yyerrlab1.induct) auto

lemma yyrun_error:
  assumes "yybackup q (yytranslate ts) = Y_error" "length st + 1 < YYMAXDEPTH" "q < 28" "stk st"
  shows "yyrun os dns ((q, v) # st, ts, ps, s) = Some (1, ts, yyerror ps, s)"
  using assms yyerrlab1_none [of "(q, v) # st"]
  by (subst yyrun.simps) (simp add: yyround_def del: yyerrlab1.simps)

lemma yyrun_shift:
  assumes "yybackup q (yytranslate (t # ts)) = Y_shift q'" "length st + 1 < YYMAXDEPTH" "q' \<noteq> 5"
  shows "yyrun os dns ((q, v) # st, t # ts, ps, s) = yyrun os dns ((q', text_of t) # (q, v) # st, ts, ps, s)"
  using assms by (subst yyrun.simps) (simp add: yyround_def YYFINAL_def)

lemma yyrun_reduce:
  assumes "yybackup q (yytranslate ts) = Y_reduce r" "length st + 1 < YYMAXDEPTH"
  shows "\<exists>v'. yyrun os dns ((q, v) # st, ts, ps, s) =
    yyrun os dns ((yygoto (fst (hd (drop (yyr2 ! r) ((q, v) # st)))) r, v') # drop (yyr2 ! r) ((q, v) # st), ts,
      yyreduce_action os dns r (map snd (take (yyr2 ! r) ((q, v) # st))) (ps, s))"
  using assms by (subst yyrun.simps) (auto simp: yyround_def Let_def split: prod.splits)

lemmas tables = yygoto_table yyr2_def yyreduce_action_def

lemma yytranslate_Cons [simp]:
  "yytranslate (T_PATH x # ts) = 3" "yytranslate (T_ID x # ts) = 4" "yytranslate (T_OPTVALUE x # ts) = 5"
  "yytranslate (T_WHITE x # ts) = 6" "yytranslate (T_IP x # ts) = 7" "yytranslate (T_NET x # ts) = 8"
  "yytranslate (T_OLDNET x # ts) = 9"
  by (simp_all add: yytranslate_def)

lemma yytranslate_Nil [simp]: "yytranslate [] = 0"
  by (simp add: yytranslate_def)

lemma yytranslate_iff:
  "yytranslate ts = 3 \<longleftrightarrow> (\<exists>x ts'. ts = T_PATH x # ts')" "yytranslate ts = 4 \<longleftrightarrow> (\<exists>x ts'. ts = T_ID x # ts')"
  "yytranslate ts = 5 \<longleftrightarrow> (\<exists>x ts'. ts = T_OPTVALUE x # ts')" "yytranslate ts = 6 \<longleftrightarrow> (\<exists>x ts'. ts = T_WHITE x # ts')"
  "yytranslate ts = 10 \<longleftrightarrow> (\<exists>ts'. ts = T_CHAR 10 # ts')" "yytranslate ts = 11 \<longleftrightarrow> (\<exists>ts'. ts = T_CHAR 40 # ts')"
  "yytranslate ts = 12 \<longleftrightarrow> (\<exists>ts'. ts = T_CHAR 41 # ts')" "yytranslate ts = 13 \<longleftrightarrow> (\<exists>ts'. ts = T_CHAR 44 # ts')"
  by (auto simp: yytranslate_def split: list.splits token.splits)

lemma run_opt:
  assumes "q \<in> {11, 20, 23}" "length st + length ts + 5 < YYMAXDEPTH"
  shows "\<exists>v'. yyrun os dns ((16, n) # (q, v) # st, ts, ps, s) =
    yyrun os dns ((18, v') # (q, v) # st, fst (g_opt n ts ps), snd (g_opt n ts ps), s)"
proof (cases "yytranslate ts = 5")
  case True
  then obtain x ts' where ts: "ts = T_OPTVALUE x # ts'" by (auto simp: yytranslate_iff)
  have "yyrun os dns ((16, n) # (q, v) # st, ts, ps, s) = yyrun os dns ((21, x) # (16, n) # (q, v) # st, ts', ps, s)"
    unfolding ts using assms(2) by (subst yyrun_shift) (auto simp: yybackups ts)
  moreover obtain v' where "yyrun os dns ((21, x) # (16, n) # (q, v) # st, ts', ps, s) =
      yyrun os dns ((18, v') # (q, v) # st, ts', add_option_with_value n x ps, s)"
    using yyrun_reduce [of 21 ts' 22 "(16, n) # (q, v) # st" os dns x ps s] assms
    by (auto simp: yybackups tables ts)
  ultimately show ?thesis by (auto simp: g_opt_def ts)
next
  case False
  obtain v' where "yyrun os dns ((16, n) # (q, v) # st, ts, ps, s) =
      yyrun os dns ((18, v') # (q, v) # st, ts, add_option n ps, s)"
    using yyrun_reduce [of 16 ts 21 "(q, v) # st" os dns n ps s] assms False
    by (auto simp: yybackups tables)
  moreover have "g_opt n ts ps = (ts, add_option n ps)"
    using False by (auto simp: g_opt_def yytranslate_iff split: list.splits token.splits)
  ultimately show ?thesis by auto
qed

lemma run_opts:
  assumes "q \<in> {11, 20, 23}" "length st + length ts + 5 < YYMAXDEPTH"
  shows "\<exists>v'. yyrun os dns ((q, v) # st, ts, ps, s) =
    yyrun os dns ((yygoto q 18, v') # (q, v) # st, fst (g_opts ts ps), snd (g_opts ts ps), s)"
  using assms
proof (induction "length ts" arbitrary: ts ps q v st rule: less_induct)
  case less
  show ?case
  proof (cases "yytranslate ts = 4")
    case False
    then have g: "g_opts ts ps = (ts, ps)"
      by (subst g_opts.simps) (auto simp: yytranslate_iff split: list.splits token.splits)
    show ?thesis
      using yyrun_reduce [of q ts 20 st os dns v ps s] less.prems False
      by (auto simp: yybackups tables g)
  next
    case True
    then obtain n ts1 where ts: "ts = T_ID n # ts1" by (auto simp: yytranslate_iff)
    obtain ts2 ps2 where o: "g_opt n ts1 ps = (ts2, ps2)" by fastforce
    have len: "length ts2 \<le> length ts1" using g_opt_length [OF o] .
    have "yyrun os dns ((q, v) # st, ts, ps, s) = yyrun os dns ((16, n) # (q, v) # st, ts1, ps, s)"
      unfolding ts using less.prems by (subst yyrun_shift) (auto simp: yybackups ts)
    moreover obtain v1 where "yyrun os dns ((16, n) # (q, v) # st, ts1, ps, s) =
        yyrun os dns ((18, v1) # (q, v) # st, ts2, ps2, s)"
      using run_opt [of q st ts1 os dns n v ps s] less.prems by (auto simp: o ts)
    moreover have "\<exists>v'. yyrun os dns ((18, v1) # (q, v) # st, ts2, ps2, s) =
        yyrun os dns ((yygoto q 18, v') # (q, v) # st, fst (g_opts ts ps), snd (g_opts ts ps), s)"
    proof (cases "yytranslate ts2 = 13")
      case True
      then obtain ts3 where ts2: "ts2 = T_CHAR 44 # ts3" by (auto simp: yytranslate_iff)
      have g: "g_opts ts ps = g_opts ts3 ps2" by (subst g_opts.simps) (simp add: ts o ts2)
      obtain ts4 ps4 where g4: "g_opts ts3 ps2 = (ts4, ps4)" by fastforce
      have "yyrun os dns ((18, v1) # (q, v) # st, ts2, ps2, s) =
          yyrun os dns ((23, []) # (18, v1) # (q, v) # st, ts3, ps2, s)"
        unfolding ts2 using less.prems True len by (subst yyrun_shift) (auto simp: yybackups ts2 ts)
      moreover obtain v2 where "yyrun os dns ((23, []) # (18, v1) # (q, v) # st, ts3, ps2, s) =
          yyrun os dns ((26, v2) # (23, []) # (18, v1) # (q, v) # st, ts4, ps4, s)"
        using less.hyps [of ts3 23 "(18, v1) # (q, v) # st" "[]" ps2] less.prems len
        by (auto simp: ts ts2 g4 tables)
      moreover obtain v3 where "yyrun os dns ((26, v2) # (23, []) # (18, v1) # (q, v) # st, ts4, ps4, s) =
          yyrun os dns ((yygoto q 18, v3) # (q, v) # st, ts4, ps4, s)"
        using yyrun_reduce [of 26 ts4 19 "(23, []) # (18, v1) # (q, v) # st" os dns v2 ps4 s] less.prems len
        by (auto simp: yybackups tables ts ts2)
      ultimately show ?thesis by (auto simp: g g4)
    next
      case False
      then have g: "g_opts ts ps = (ts2, ps2)"
        by (subst g_opts.simps) (auto simp: ts o yytranslate_iff split: list.splits token.splits)
      show ?thesis
        using yyrun_reduce [of 18 ts2 18 "(q, v) # st" os dns v1 ps2 s] less.prems False len
        by (auto simp: yybackups tables g [unfolded ts] ts)
    qed
    ultimately show ?thesis by auto
  qed
qed

text \<open>A result of the grammar, and what the run of the automaton is then.\<close>

definition continues ::
  "'w os \<Rightarrow> (string \<Rightarrow> uint32 option) \<Rightarrow> nat \<Rightarrow> (nat \<times> string) list \<Rightarrow>
   token list option \<times> pstate \<times> ('w, 'z) expo_scheme \<Rightarrow>
   (nat \<times> token list \<times> pstate \<times> ('w, 'z) expo_scheme) option \<Rightarrow> bool" where
  "continues os dns q st r res \<longleftrightarrow>
     (case r of
        (None, ps, s) \<Rightarrow> \<exists>rest. res = Some (1, rest, yyerror ps, s)
      | (Some ts, x) \<Rightarrow> (\<exists>v. res = yyrun os dns ((q, v) # st, ts, x)))"

lemma run_paren:
  assumes "q \<in> {4, 19}" "length st + length ts + 8 < YYMAXDEPTH" "stk st" "g_opts_paren ts ps = (r, ps')"
  shows "continues os dns 13 ((q, v) # st) (r, ps', s) (yyrun os dns ((11, w) # (q, v) # st, ts, ps, s))"
    and "continues os dns 13 ((q, v) # st) (r, ps', s)
      (yyrun os dns ((20, w) # (14, n) # (q, v) # st, ts, ps, s))"
proof -
  obtain ts1 ps1 where g: "g_opts ts ps = (ts1, ps1)" by fastforce
  have len: "length ts1 \<le> length ts" using g_opts_length [OF g] .
  obtain v1 where a: "yyrun os dns ((11, w) # (q, v) # st, ts, ps, s) =
      yyrun os dns ((17, v1) # (11, w) # (q, v) # st, ts1, ps1, s)"
    using run_opts [of 11 "(q, v) # st" ts os dns w ps s] assms by (auto simp: g tables)
  obtain v2 where b: "yyrun os dns ((20, w) # (14, n) # (q, v) # st, ts, ps, s) =
      yyrun os dns ((25, v2) # (20, w) # (14, n) # (q, v) # st, ts1, ps1, s)"
    using run_opts [of 20 "(14, n) # (q, v) # st" ts os dns w ps s] assms by (auto simp: g tables)
  show "continues os dns 13 ((q, v) # st) (r, ps', s) (yyrun os dns ((11, w) # (q, v) # st, ts, ps, s))"
    "continues os dns 13 ((q, v) # st) (r, ps', s)
      (yyrun os dns ((20, w) # (14, n) # (q, v) # st, ts, ps, s))"
  proof (atomize (full), cases "yytranslate ts1 = 12")
    case True
    then obtain ts2 where ts1: "ts1 = T_CHAR 41 # ts2" by (auto simp: yytranslate_iff)
    have r: "r = Some ts2" "ps' = add_host ps1" using assms(4) by (simp_all add: g_opts_paren_def g ts1)
    have "yyrun os dns ((17, v1) # (11, w) # (q, v) # st, ts1, ps1, s) =
        yyrun os dns ((22, []) # (17, v1) # (11, w) # (q, v) # st, ts2, ps1, s)"
      unfolding ts1 using assms True len by (subst yyrun_shift) (auto simp: yybackups ts1)
    moreover have "yyrun os dns ((25, v2) # (20, w) # (14, n) # (q, v) # st, ts1, ps1, s) =
        yyrun os dns ((27, []) # (25, v2) # (20, w) # (14, n) # (q, v) # st, ts2, ps1, s)"
      unfolding ts1 using assms True len by (subst yyrun_shift) (auto simp: yybackups ts1)
    ultimately show "continues os dns 13 ((q, v) # st) (r, ps', s) (yyrun os dns ((11, w) # (q, v) # st, ts, ps, s)) \<and>
        continues os dns 13 ((q, v) # st) (r, ps', s) (yyrun os dns ((20, w) # (14, n) # (q, v) # st, ts, ps, s))"
      using yyrun_reduce [of 22 ts2 13 "(17, v1) # (11, w) # (q, v) # st" os dns "[]" ps1 s]
        yyrun_reduce [of 27 ts2 12 "(25, v2) # (20, w) # (14, n) # (q, v) # st" os dns "[]" ps1 s] assms len
      by (auto simp: yybackups tables a b r continues_def)
  next
    case False
    then have r: "r = None" "ps' = ps1"
      using assms(4) by (auto simp: g_opts_paren_def g yytranslate_iff split: list.splits token.splits if_splits)
    show "continues os dns 13 ((q, v) # st) (r, ps', s) (yyrun os dns ((11, w) # (q, v) # st, ts, ps, s)) \<and>
        continues os dns 13 ((q, v) # st) (r, ps', s) (yyrun os dns ((20, w) # (14, n) # (q, v) # st, ts, ps, s))"
      using False assms by (auto simp: a b r continues_def yyrun_error yybackups)
  qed
qed

lemma run_name_rest:
  assumes "q \<in> {4, 19}" "length st + length ts + 9 < YYMAXDEPTH" "stk st" "g_name_rest ts ps = (r, ps')"
  shows "continues os dns 13 ((q, v) # st) (r, ps', s) (yyrun os dns ((14, n) # (q, v) # st, ts, ps, s))"
proof (cases "yytranslate ts = 11")
  case True
  then obtain ts1 where ts: "ts = T_CHAR 40 # ts1" by (auto simp: yytranslate_iff)
  have "yyrun os dns ((14, n) # (q, v) # st, ts, ps, s) =
      yyrun os dns ((20, []) # (14, n) # (q, v) # st, ts1, ps, s)"
    unfolding ts using assms True by (subst yyrun_shift) (auto simp: yybackups ts)
  with run_paren(2) [OF assms(1) _ assms(3), of ts1 ps r ps' os dns v s "[]" n] assms(2,4)
  show ?thesis by (simp add: ts g_name_rest_def)
next
  case False
  then have "r = Some ts" "ps' = add_host ps"
    using assms(4) by (auto simp: g_name_rest_def yytranslate_iff split: list.splits token.splits if_splits)
  then show ?thesis
    using yyrun_reduce [of 14 ts 11 "(q, v) # st" os dns n ps s] assms False
    by (auto simp: yybackups tables continues_def)
qed

lemma run_host:
  assumes q: "q \<in> {4, 19}" and len: "length st + length ts + 9 < YYMAXDEPTH" and st: "stk st"
    and "host_start ts" and g: "g_host dns ts ps = (r, ps')"
  shows "continues os dns 13 ((q, v) # st) (r, ps', s) (yyrun os dns ((q, v) # st, ts, ps, s))"
proof -
  note rest = run_name_rest [OF q _ st, of _ _ r ps' os dns v s]
  have step: "continues os dns 13 ((q, v) # st) (r, ps', s) (yyrun os dns ((q, v) # st, ts, ps, s))"
    if ts: "ts = t # ts1" and t: "yybackup q (yytranslate (t # ts1)) = Y_shift q'" "q' \<noteq> 5"
      and r: "yybackup q' (yytranslate ts1) = Y_reduce k" "k \<in> {14, 15, 16, 17}"
      and act: "yyreduce_action os dns k [text_of t] (ps, s) = (ps1, s)" "g_name_rest ts1 ps1 = (r, ps')"
    for t ts1 q' k ps1
  proof -
    have "yyrun os dns ((q, v) # st, ts, ps, s) = yyrun os dns ((q', text_of t) # (q, v) # st, ts1, ps, s)"
      unfolding ts using len t by (subst yyrun_shift) (auto simp: ts)
    moreover obtain n where "yyrun os dns ((q', text_of t) # (q, v) # st, ts1, ps, s) =
        yyrun os dns ((14, n) # (q, v) # st, ts1, ps1, s)"
      using yyrun_reduce [of q' ts1 k "(q, v) # st" os dns "text_of t" ps s] r act len q
      by (auto simp: yygoto_table yyr2_def ts)
    ultimately show ?thesis using rest [of ts1 ps1 n] len act(2) by (simp add: ts)
  qed
  from \<open>host_start ts\<close> consider
      (id) n ts1 where "ts = T_ID n # ts1" | (ip) n ts1 where "ts = T_IP n # ts1"
    | (net) n ts1 where "ts = T_NET n # ts1" | (oldnet) n ts1 where "ts = T_OLDNET n # ts1"
    | (paren) ts1 where "ts = T_CHAR 40 # ts1"
    by (auto simp: host_start_def yytranslate_def split: list.splits token.splits if_splits)
  then show ?thesis
  proof cases
    case id
    with g q show ?thesis by (intro step [of "T_ID n" ts1 7 14]) (auto simp: yybackups yyreduce_action_def)
  next
    case ip
    with g q show ?thesis by (intro step [of "T_IP n" ts1 8 15]) (auto simp: yybackups yyreduce_action_def)
  next
    case net
    with g q show ?thesis by (intro step [of "T_NET n" ts1 9 16]) (auto simp: yybackups yyreduce_action_def)
  next
    case oldnet
    with g q show ?thesis by (intro step [of "T_OLDNET n" ts1 10 17]) (auto simp: yybackups yyreduce_action_def)
  next
    case paren
    then have t: "yytranslate ts = 11" by (simp add: yytranslate_def)
    have "yyrun os dns ((q, v) # st, ts, ps, s) = yyrun os dns ((11, []) # (q, v) # st, ts1, ps, s)"
      unfolding paren using len t q by (subst yyrun_shift) (auto simp: yybackups paren)
    with run_paren(1) [OF q _ st, of ts1 ps r ps' os dns v s "[]"] g len show ?thesis
      by (simp add: paren)
  qed
qed

lemma continues_None: "continues os dns q st (None, x) res \<Longrightarrow> continues os dns q' st' (None, x) res"
  by (simp add: continues_def split: prod.splits)

lemma run_hosts:
  assumes "q \<in> {4, 19}" "length st + length ts + 9 < YYMAXDEPTH" "stk st" "host_start ts"
    "g_hosts dns ts ps = (r, ps')"
  shows "continues os dns (yygoto q 8) ((q, v) # st) (r, ps', s) (yyrun os dns ((q, v) # st, ts, ps, s))"
  using assms
proof (induction "length ts" arbitrary: ts ps q v st rule: less_induct)
  case less
  obtain r1 ps1 where h: "g_host dns ts ps = (r1, ps1)" by fastforce
  note host = run_host [OF less.prems(1-4) h, of os v s]
  show ?case
  proof (cases r1)
    case None
    then have "r = None" "ps' = ps1" using less.prems(5) by (simp_all add: g_hosts.simps [of dns ts] h)
    with host None show ?thesis by (auto intro: continues_None)
  next
    case (Some ts1)
    have len: "length ts1 < length ts" using g_host_length h Some by blast
    obtain v1 where run: "yyrun os dns ((q, v) # st, ts, ps, s) = yyrun os dns ((13, v1) # (q, v) # st, ts1, ps1, s)"
      using host Some by (auto simp: continues_def)
    show ?thesis
    proof (cases "yytranslate ts1 = 6")
      case False
      then have "r = Some ts1" "ps' = ps1"
        using less.prems(5)
        by (auto simp: g_hosts.simps [of dns ts] h Some yytranslate_iff split: list.splits token.splits)
      then show ?thesis
        using yyrun_reduce [of 13 ts1 8 "(q, v) # st" os dns v1 ps1 s] less.prems len False
        by (auto simp: yybackups tables run continues_def)
    next
      case True
      then obtain w ts2 where ts1: "ts1 = T_WHITE w # ts2" by (auto simp: yytranslate_iff)
      have run2: "yyrun os dns ((q, v) # st, ts, ps, s) =
          yyrun os dns ((19, w) # (13, v1) # (q, v) # st, ts2, ps1, s)"
        unfolding run ts1 using less.prems len by (subst yyrun_shift) (auto simp: yybackups ts1)
      have len2: "length ts2 + 1 < length ts" using len ts1 by simp
      show ?thesis
      proof (cases "host_start ts2")
        case False
        then have "r = Some ts2" "ps' = ps1"
          using less.prems(5) by (auto simp: g_hosts.simps [of dns ts] h Some ts1)
        then show ?thesis
          using yyrun_reduce [of 19 ts2 10 "(13, v1) # (q, v) # st" os dns w ps1 s] less.prems len2 False
          by (auto simp: yybackups tables run2 continues_def host_start_def)
      next
        case True
        have g: "g_hosts dns ts2 ps1 = (r, ps')"
          using less.prems(5) True by (simp add: g_hosts.simps [of dns ts] h Some ts1)
        have IH: "continues os dns 24 ((19, w) # (13, v1) # (q, v) # st) (r, ps', s)
            (yyrun os dns ((19, w) # (13, v1) # (q, v) # st, ts2, ps1, s))"
          using less.hyps [of ts2 19 "(13, v1) # (q, v) # st" ps1 w] less.prems len2 True g
          by (auto simp: tables)
        show ?thesis
        proof (cases r)
          case None
          with IH show ?thesis by (simp add: run2 continues_def)
        next
          case (Some ts3)
          have len3: "length ts3 < length ts2" using g_hosts_length g Some by blast
          obtain v2 where "yyrun os dns ((19, w) # (13, v1) # (q, v) # st, ts2, ps1, s) =
              yyrun os dns ((24, v2) # (19, w) # (13, v1) # (q, v) # st, ts3, ps', s)"
            using IH Some by (auto simp: continues_def)
          then show ?thesis
            using yyrun_reduce [of 24 ts3 9 "(19, w) # (13, v1) # (q, v) # st" os dns v2 ps' s] less.prems len2 len3
            by (auto simp: yybackups tables run2 continues_def Some)
        qed
      qed
    qed
  qed
qed

lemma run_export:
  assumes q: "q \<in> {0, 6}" and len: "length st + length ts + 11 < YYMAXDEPTH" and st: "stk st"
    and g: "g_export os dns p ts (ps, s) = (r, ps', s')"
  shows "continues os dns 3 ((q, v) # st) (r, ps', s') (yyrun os dns ((1, p) # (q, v) # st, ts, ps, s))"
proof (cases "yytranslate ts = 6")
  case False
  then have "r = Some ts" "add_item os p (ps, s) = (ps', s')"
    using g by (auto simp: g_export_def yytranslate_iff split: list.splits token.splits)
  then show ?thesis
    using yyrun_reduce [of 1 ts 5 "(q, v) # st" os dns p ps s] q len False
    by (auto simp: yybackups tables continues_def)
next
  case True
  then obtain w ts1 where ts: "ts = T_WHITE w # ts1" by (auto simp: yytranslate_iff)
  have run: "yyrun os dns ((1, p) # (q, v) # st, ts, ps, s) =
      yyrun os dns ((4, w) # (1, p) # (q, v) # st, ts1, ps, s)"
    unfolding ts using len by (subst yyrun_shift) (auto simp: yybackups ts)
  have len1: "length ts1 < length ts" by (simp add: ts)
  show ?thesis
  proof (cases "host_start ts1")
    case False
    then have "r = Some ts1" "add_item os p (ps, s) = (ps', s')" using g by (simp_all add: g_export_def ts)
    then show ?thesis
      using yyrun_reduce [of 4 ts1 7 "(1, p) # (q, v) # st" os dns w ps s] q len len1 False
      by (auto simp: yybackups tables run continues_def host_start_def simp del: One_nat_def)
  next
    case True
    obtain r1 ps1 where h: "g_hosts dns ts1 ps = (r1, ps1)" by fastforce
    have hosts: "continues os dns 12 ((4, w) # (1, p) # (q, v) # st) (r1, ps1, s)
        (yyrun os dns ((4, w) # (1, p) # (q, v) # st, ts1, ps, s))"
      using run_hosts [OF _ _ _ True h, of 4 "(1, p) # (q, v) # st" os w s] q len len1 st
      by (auto simp: tables)
    show ?thesis
    proof (cases r1)
      case None
      then have "r = None" "ps' = ps1" "s' = s" using g True by (simp_all add: g_export_def ts h)
      with hosts None show ?thesis by (simp add: run continues_def del: One_nat_def)
    next
      case (Some ts2)
      then have r: "r = Some ts2" "add_item os p (ps1, s) = (ps', s')" using g True by (simp_all add: g_export_def ts h)
      have len2: "length ts2 < length ts1" using g_hosts_length h Some by blast
      obtain v1 where "yyrun os dns ((4, w) # (1, p) # (q, v) # st, ts1, ps, s) =
          yyrun os dns ((12, v1) # (4, w) # (1, p) # (q, v) # st, ts2, ps1, s)"
        using hosts Some by (auto simp: continues_def)
      then show ?thesis
        using yyrun_reduce [of 12 ts2 6 "(4, w) # (1, p) # (q, v) # st" os dns v1 ps1 s] q len len1 len2 r
        by (auto simp: yybackups tables run continues_def simp del: One_nat_def)
    qed
  qed
qed

lemma run_exports:
  assumes "q \<in> {0, 6}" "length st + length ts + 11 < YYMAXDEPTH" "stk st"
    "g_exports os dns ts (ps, s) = (r, ps', s')"
  shows "continues os dns (yygoto q 2) ((q, v) # st) (r, ps', s') (yyrun os dns ((q, v) # st, ts, ps, s))"
  using assms
proof (induction "length ts" arbitrary: ts ps s q v st rule: less_induct)
  case less
  show ?case
  proof (cases "yytranslate ts = 3")
    case False
    then have "r = Some ts" "ps' = ps" "s' = s"
      using less.prems(4)
      by (auto simp: g_exports.simps [of os dns ts] yytranslate_iff split: list.splits token.splits)
    then show ?thesis
      using yyrun_reduce [of q ts 4 st os dns v ps s] less.prems False
      by (auto simp: yybackups tables continues_def)
  next
    case True
    then obtain p ts1 where ts: "ts = T_PATH p # ts1" by (auto simp: yytranslate_iff)
    have len1: "length ts1 < length ts" by (simp add: ts)
    have run: "yyrun os dns ((q, v) # st, ts, ps, s) = yyrun os dns ((1, p) # (q, v) # st, ts1, ps, s)"
      unfolding ts using less.prems by (subst yyrun_shift) (auto simp: yybackups ts)
    obtain r1 ps1 s1 where e: "g_export os dns p ts1 (ps, s) = (r1, ps1, s1)" by (metis prod_cases3)
    have export: "continues os dns 3 ((q, v) # st) (r1, ps1, s1)
        (yyrun os dns ((1, p) # (q, v) # st, ts1, ps, s))"
      using run_export [OF less.prems(1) _ less.prems(3) e] less.prems(2) len1 by simp
    have g: "(case (r1, ps1, s1) of
        (Some (T_CHAR i # ts2), x) \<Rightarrow> if i = 10 then g_exports os dns ts2 x else (Some (T_CHAR i # ts2), x)
      | r \<Rightarrow> r) = (r, ps', s')"
      using less.prems(4) by (subst (asm) g_exports.simps) (simp add: ts e)
    show ?thesis
    proof (cases r1)
      case None
      with g export show ?thesis by (simp add: run continues_def del: One_nat_def)
    next
      case (Some ts2)
      have len2: "length ts2 \<le> length ts1" using g_export_length e Some by blast
      obtain v1 where run1: "yyrun os dns ((q, v) # st, ts, ps, s) =
          yyrun os dns ((3, v1) # (q, v) # st, ts2, ps1, s1)"
        using export Some by (auto simp: continues_def run simp del: One_nat_def)
      show ?thesis
      proof (cases "yytranslate ts2 = 10")
        case False
        then have "r = Some ts2" "ps' = ps1" "s' = s1"
          using g by (auto simp: Some yytranslate_iff split: list.splits token.splits if_splits)
        then show ?thesis
          using yyrun_reduce [of 3 ts2 2 "(q, v) # st" os dns v1 ps1 s1] less.prems len1 len2 False
          by (auto simp: yybackups tables run1 continues_def)
      next
        case True
        then obtain ts3 where ts2: "ts2 = T_CHAR 10 # ts3" by (auto simp: yytranslate_iff)
        have len3: "length ts3 + 1 < length ts" using len1 len2 ts2 by simp
        have g3: "g_exports os dns ts3 (ps1, s1) = (r, ps', s')" using g by (simp add: Some ts2)
        have run2: "yyrun os dns ((q, v) # st, ts, ps, s) =
            yyrun os dns ((6, []) # (3, v1) # (q, v) # st, ts3, ps1, s1)"
          unfolding run1 ts2 using less.prems len3 True by (subst yyrun_shift) (auto simp: yybackups ts2)
        have IH: "continues os dns 15 ((6, []) # (3, v1) # (q, v) # st) (r, ps', s')
            (yyrun os dns ((6, []) # (3, v1) # (q, v) # st, ts3, ps1, s1))"
          using less.hyps [of ts3 6 "(3, v1) # (q, v) # st" ps1 s1 "[]"] less.prems len3 g3
          by (auto simp: tables)
        show ?thesis
        proof (cases r)
          case None
          with IH show ?thesis by (simp add: run2 continues_def)
        next
          case (Some ts4)
          then obtain v2 where "yyrun os dns ((6, []) # (3, v1) # (q, v) # st, ts3, ps1, s1) =
              yyrun os dns ((15, v2) # (6, []) # (3, v1) # (q, v) # st, ts4, ps', s')"
            using IH by (auto simp: continues_def)
          then show ?thesis
            using yyrun_reduce [of 15 ts4 3 "(6, []) # (3, v1) # (q, v) # st" os dns v2 ps' s'] less.prems len3
            by (auto simp: yybackups tables run2 continues_def Some)
        qed
      qed
    qed
  qed
qed

lemma yyparse_eq:
  assumes "length ts + 12 < YYMAXDEPTH"
  obtains rest where "yyparse os dns ts x = Some (fst (g_file os dns ts x), rest, snd (g_file os dns ts x))"
    and "\<And>ts'. fst (g_exports os dns ts x) = Some ts' \<Longrightarrow> yytranslate ts' = 0 \<Longrightarrow> rest = ts'"
proof -
  obtain ps s where x: "x = (ps, s)" by fastforce
  obtain r ps' s' where g: "g_exports os dns ts (ps, s) = (r, ps', s')" by (metis prod_cases3)
  have run: "continues os dns 2 [(0, [])] (r, ps', s') (yyrun os dns ([(0, [])], ts, ps, s))"
    using run_exports [OF _ _ _ g, of 0 "[]" "[]"] assms by (simp add: tables)
  show thesis
  proof (cases r)
    case None
    with run obtain rest where "yyrun os dns ([(0, [])], ts, ps, s) = Some (1, rest, yyerror ps', s')"
      by (auto simp: continues_def)
    with None show ?thesis by (intro that [of rest]) (simp_all add: yyparse_def x g_file_def g)
  next
    case (Some ts1)
    with run obtain v where v: "yyrun os dns ([(0, [])], ts, ps, s) = yyrun os dns ([(2, v), (0, [])], ts1, ps', s')"
      by (auto simp: continues_def)
    show ?thesis
    proof (cases "yytranslate ts1 = 0")
      case True
      then have "yyrun os dns ([(2, v), (0, [])], ts1, ps', s') = Some (0, ts1, ps', s')"
        using assms by (subst yyrun.simps) (simp add: yyround_def yybackups YYFINAL_def)
      with True v show ?thesis by (intro that [of ts1]) (simp_all add: yyparse_def x g_file_def g Some)
    next
      case False
      with v assms have "yyparse os dns ts x = Some (1, ts1, yyerror ps', s')"
        by (simp add: yyparse_def x yyrun_error yybackups)
      with False show ?thesis by (intro that [of ts1]) (simp_all add: x g_file_def g Some)
    qed
  qed
qed

text \<open>
  C8: the generated automaton returns on every list of tokens short enough for its stack, and has then
  done what the grammar says: the same actions in the same order, and the same verdict.
\<close>

theorem yyparse_runs_grammar:
  assumes "length ts + 12 < YYMAXDEPTH"
  shows "map_option (apsnd snd) (yyparse os dns ts x) = Some (g_file os dns ts x)"
  by (rule yyparse_eq [OF assms, of os dns x]) simp

end
