(* ===== verification/Collection.thy ===== *)
theory Collection
  imports Rods Config
begin

text \<open>
  \<open>listCollection\<close> of \<open>rodscapi.c\<close>, which makes the local directory a picture of an iRODS collection
  before a READDIR, with what it calls: the recursive functions of \<open>utils.c\<close> on local directories,
  \<open>fileMode\<close>, and \<open>genQuery\<close> of \<open>rodscapi_utils.c\<close>. \<open>None\<close> is the end of the daemon: a call of
  \<open>exit\<close>, a null pointer followed, or the use of a result that was never stored. A directory is the
  list of the names and types that reading it delivers.
\<close>

definition PATH_MAX :: nat where "PATH_MAX = 4096"
definition S_IRWXU :: uint32 where "S_IRWXU = 0x1C0"

subsection \<open>Local directories\<close>

text \<open>
  \<open>rec_mkdir\<close> cuts its argument to a buffer of 256 bytes and creates the directory of every prefix that
  ends before a slash. It is called with a path that is not empty.
\<close>

definition mkdir_path :: "path \<Rightarrow> path" where
  "mkdir_path dir =
     (let tmp = take 255 dir in if tmp \<noteq> [] \<and> last tmp = CHR ''/'' then butlast tmp else tmp)"

definition mkdir_prefixes :: "path \<Rightarrow> path list" where
  "mkdir_prefixes tmp = [take i tmp. i \<leftarrow> [1..<length tmp], tmp ! i = CHR ''/'']"

definition rec_mkdir :: "'w os \<Rightarrow> path \<Rightarrow> ('w, 'z) sys_scheme \<Rightarrow> ('w, 'z) sys_scheme" where
  "rec_mkdir os dir s =
     (let tmp = mkdir_path dir;
          s = fold (\<lambda>p s. snd (backend_mkdir os p S_IRWXU s)) (mkdir_prefixes tmp) s
      in snd (backend_mkdir os tmp S_IRWXU s))"

definition entry_path :: "path \<Rightarrow> string \<Rightarrow> path" where
  "entry_path dirname d_name = take (PATH_MAX - 1) (dirname @ ''/'' @ d_name)"

text \<open>
  The recursion goes as deep as the tree does; the number bounds its depth, and \<open>None\<close> is a tree that
  is deeper.
\<close>

function (sequential) removedirectoryrecursively ::
  "'w os \<Rightarrow> nat \<Rightarrow> path \<Rightarrow> ('w, 'z) sys_scheme \<Rightarrow> (int \<times> ('w, 'z) sys_scheme) option"
and remove_entries ::
  "'w os \<Rightarrow> nat \<Rightarrow> path \<Rightarrow> (string \<times> bool) list \<Rightarrow> ('w, 'z) sys_scheme \<Rightarrow> ('w, 'z) sys_scheme option" where
  "removedirectoryrecursively os 0 dirname s = None"
| "removedirectoryrecursively os (Suc n) dirname s =
     (case sys_call (os_dirents os dirname) s of
        (None, s) \<Rightarrow> Some (0, s)
      | (Some es, s) \<Rightarrow>
          (case remove_entries os n dirname es s of
             None \<Rightarrow> None
           | Some s \<Rightarrow> Some (1, snd (backend_rmdir os dirname s))))"
| "remove_entries os n dirname [] s = Some s"
| "remove_entries os n dirname ((d_name, is_dir) # es) s =
     (if d_name = ''.'' \<or> d_name = ''..'' then remove_entries os n dirname es s
      else (let p = entry_path dirname d_name
            in case (if is_dir then map_option snd (removedirectoryrecursively os n p s) else Some s) of
                 None \<Rightarrow> None
               | Some s \<Rightarrow> remove_entries os n dirname es (snd (backend_remove os p s))))"
  by pat_completeness auto
termination
  by (relation "inv_image (less_than <*lex*> less_than)
        (\<lambda>x. case x of Inl (_, n, _, _) \<Rightarrow> (n, 0) | Inr (_, n, _, es, _) \<Rightarrow> (n, Suc (length es)))") auto

subsection \<open>Queries\<close>

definition CAT_NO_ROWS_FOUND :: int where "CAT_NO_ROWS_FOUND = -808000"

text \<open>
  \<open>resultValues\<close> starts as memory that was never written (\<open>None\<close>); a round with a row stores a value
  for every attribute.
\<close>

definition store_values :: "genQueryOut \<Rightarrow> string option list \<Rightarrow> string option list" where
  "store_values out vals =
     (if gq_rowCnt out = 0 then vals
      else map Some (gq_values out) @ drop (length (gq_values out)) vals)"

partial_function (option) genQuery_rounds ::
  "'w rods \<Rightarrow> rcComm \<Rightarrow> query \<Rightarrow> genQueryOut \<Rightarrow> string option list \<Rightarrow> ('w, 'z) sys_scheme
   \<Rightarrow> (int \<times> string option list \<times> ('w, 'z) sys_scheme) option" where
  "genQuery_rounds ro conn q out vals s =
     (let vals = store_values out vals
      in if gq_continueInx out = 0 then Some (0, vals, s)
         else (case rc ro (rc_GenQuery ro conn q (gq_continueInx out)) s of
                 ((status, out'), s) \<Rightarrow>
                   if status = 0 then genQuery_rounds ro conn q out' vals s
                   else Some (status, vals, s)))"

text \<open>The status and the values of \<open>outputQuery\<close>, which is not touched where the first query fails.\<close>

definition genQuery ::
  "'w rods \<Rightarrow> rcComm \<Rightarrow> query \<Rightarrow> ('w, 'z) sys_scheme
   \<Rightarrow> ((int \<times> string option list option) \<times> ('w, 'z) sys_scheme) option" where
  "genQuery ro conn q s =
     (let found = (\<lambda>status :: int. if status = CAT_NO_ROWS_FOUND then 0 else status)
      in case rc ro (rc_GenQuery ro conn q 0) s of
           ((status, out), s) \<Rightarrow>
             if status = 0
             then (case genQuery_rounds ro conn q out (replicate (length (fst q)) None) s of
                     None \<Rightarrow> None
                   | Some (status, vals, s) \<Rightarrow> Some ((found status, Some vals), s))
             else Some ((found status, None), s))"

subsection \<open>The mode of an object\<close>

fun last_index_from :: "string \<Rightarrow> nat \<Rightarrow> nat" where
  "last_index_from p 0 = 0"
| "last_index_from p (Suc i) =
     (if Suc i < length p \<and> p ! Suc i = CHR ''/'' then Suc i else last_index_from p i)"

definition fileNameLastIndex :: "string \<Rightarrow> nat" where
  "fileNameLastIndex p = last_index_from p (length p)"

text \<open>
  \<open>strncpy\<close> into a buffer: the bytes of the string up to the count, then zeros up to the count; the
  bytes behind stay. A buffer read as a string ends at its first zero.
\<close>

definition strncpy :: "string \<Rightarrow> string \<Rightarrow> nat \<Rightarrow> string" where
  "strncpy buf src n = take n (src @ replicate n (CHR 0x00)) @ drop n buf"

definition c_str :: "string \<Rightarrow> string" where "c_str buf = takeWhile (\<lambda>c. c \<noteq> CHR 0x00) buf"

text \<open>The two conditions of the query: the name of the object and the name of its collection.\<close>

definition mode_query :: "path \<Rightarrow> query" where
  "mode_query p =
     (let n = length p;
          k = fileNameLastIndex p;
          substr = strncpy (replicate n (CHR 0x00)) (drop (k + 1) p) n;
          filename = take (n - 1) ([CHR ''='', CHR 0x27] @ c_str substr @ [CHR 0x27]);
          substr = strncpy substr p k;
          pathname = take (n + 9) ([CHR ''='', CHR 0x27] @ c_str substr @ [CHR 0x27])
      in ([700], [(403, filename), (501, pathname)]))"

definition fileMode ::
  "'w rods \<Rightarrow> path \<Rightarrow> rcComm \<Rightarrow> ('w, 'z) sys_scheme \<Rightarrow> (int \<times> ('w, 'z) sys_scheme) option" where
  "fileMode ro p comm s =
     (case genQuery ro comm (mode_query p) s of
        None \<Rightarrow> None
      | Some ((status, out), s) \<Rightarrow>
          if status < 0 then Some (-1, s)
          else (case out of
                  Some (Some v # _) \<Rightarrow> Some (sint (atoi v), s)
                | _ \<Rightarrow> None))"

subsection \<open>Listing a collection\<close>

definition touch_command :: "path \<Rightarrow> string" where
  "touch_command p = concat_str (''echo '' @ [CHR 0x22, CHR '' '', CHR 0x22] @ '' > '') p"

definition chmod_command :: "int \<Rightarrow> string" where
  "chmod_command dataMode =
     (if dataMode = 1200 then ''chmod 600 '' else if dataMode = 1120 then ''chmod 200 ''
      else if dataMode = 1050 then ''chmod 400 '' else ''chmod 000 '')"

definition basename :: "path \<Rightarrow> string" where
  "basename p = (case strrchr_split p (CHR ''/'') of None \<Rightarrow> p | Some (_, b) \<Rightarrow> tl b)"

text \<open>One entry: the next state and whether the loop goes on.\<close>

definition list_entry ::
  "'w os \<Rightarrow> 'w rods \<Rightarrow> path \<Rightarrow> path \<Rightarrow> rcComm \<Rightarrow> collEnt \<Rightarrow> ('w, 'z) sys_scheme
   \<Rightarrow> (bool \<times> ('w, 'z) sys_scheme) option" where
  "list_entry os ro remoteFolder localFolder comm ent s =
     (if ce_is_data ent
      then (case ce_dataName ent of
              None \<Rightarrow> Some (False, s)
            | Some n \<Rightarrow>
                (let p = concat_str (concat_str localFolder ''/'') n;
                     (_, s) = sys_int (os_system os (touch_command p)) s
                 in case fileMode ro (concat_str (concat_str remoteFolder ''/'') n) comm s of
                      None \<Rightarrow> None
                    | Some (dataMode, s) \<Rightarrow>
                        Some (True, snd (sys_int (os_system os (concat_str (chmod_command dataMode) p)) s))))
      else (case ce_collName ent of
              None \<Rightarrow> None
            | Some c \<Rightarrow>
                if length c = length remoteFolder then Some (True, s)
                else Some (True, snd (backend_mkdir os (concat_str (concat_str localFolder ''/'') (basename c)) S_IRWXU s))))"

partial_function (option) list_rounds ::
  "'w os \<Rightarrow> 'w rods \<Rightarrow> path \<Rightarrow> path \<Rightarrow> rcComm \<Rightarrow> int \<Rightarrow> ('w, 'z) sys_scheme \<Rightarrow> ('w, 'z) sys_scheme option" where
  "list_rounds os ro remoteFolder localFolder comm handleInx s =
     (case rc ro (rc_ReadCollection ro comm handleInx) s of
        ((status, ent), s) \<Rightarrow>
          if status < 0 then Some s
          else (case list_entry os ro remoteFolder localFolder comm ent s of
                  None \<Rightarrow> None
                | Some (goes_on, s) \<Rightarrow>
                    if goes_on then list_rounds os ro remoteFolder localFolder comm handleInx s else Some s))"

definition listCollection ::
  "'w os \<Rightarrow> 'w rods \<Rightarrow> path \<Rightarrow> path \<Rightarrow> rcComm \<Rightarrow> ('w, 'z) sys_scheme \<Rightarrow> (int \<times> ('w, 'z) sys_scheme) option" where
  "listCollection os ro remoteFolder localFolder comm s =
     do {
       (_, s) \<leftarrow> removedirectoryrecursively os PATH_MAX localFolder s;
       s \<leftarrow> (case sys_call (os_stat os localFolder) s of
               (Some _, s) \<Rightarrow> Some s
             | (None, s) \<Rightarrow> if errno s = ENOENT then Some (rec_mkdir os localFolder s) else None);
       let (handleInx, s) = rc ro (rc_OpenCollection ro comm remoteFolder) s;
       s \<leftarrow> list_rounds os ro remoteFolder localFolder comm handleInx s;
       Some (rc ro (rc_CloseCollection ro comm handleInx) s)
     }"

subsection \<open>What listing leaves alone\<close>

lemma genQuery_rounds_only:
  "genQuery_rounds ro conn q out vals s = Some y \<Longrightarrow> sys_only s (snd (snd y))"
proof (induction rule: genQuery_rounds.raw_induct [rotated, consumes 1, case_names round])
  case (round f ro conn q out vals s y)
  from round(2) show ?case
    by (auto simp: Let_def split: if_splits prod.splits dest!: rc_only round(1) intro: sys_only_trans)
qed

lemma genQuery_only: "genQuery ro conn q s = Some (r, s') \<Longrightarrow> sys_only s s'"
  by (auto simp: genQuery_def Let_def split: if_splits prod.splits option.splits
      dest!: rc_only genQuery_rounds_only intro: sys_only_trans)

lemma fileMode_only: "fileMode ro p comm s = Some (r, s') \<Longrightarrow> sys_only s s'"
  by (auto simp: fileMode_def split: if_splits prod.splits option.splits list.splits dest: genQuery_only)

lemma list_entry_only: "list_entry os ro rf lf comm ent s = Some (r, s') \<Longrightarrow> sys_only s s'"
  by (auto simp: list_entry_def Let_def split: if_splits prod.splits option.splits
      dest!: sys_int_only fileMode_only intro: sys_only_trans
      intro!: sys_int_only [OF prod.collapse [symmetric]] backend_only [OF prod.collapse [symmetric]])

lemma list_rounds_only: "list_rounds os ro rf lf comm h s = Some s' \<Longrightarrow> sys_only s s'"
proof (induction rule: list_rounds.raw_induct [rotated, consumes 1, case_names round])
  case (round f os ro rf lf comm h s s')
  from round(2) show ?case
    by (auto split: if_splits prod.splits option.splits dest!: rc_only list_entry_only round(1)
        intro: sys_only_trans)
qed

lemma rec_mkdir_only: "sys_only s (rec_mkdir os dir s)"
proof -
  have "sys_only s (fold (\<lambda>p s. snd (backend_mkdir os p S_IRWXU s)) ps s)" for ps
  proof (induction ps arbitrary: s)
    case (Cons p ps)
    have "sys_only s (snd (backend_mkdir os p S_IRWXU s))" by (rule backend_only [OF prod.collapse [symmetric]])
    with Cons show ?case by (auto intro: sys_only_trans)
  qed simp
  then show ?thesis
    unfolding rec_mkdir_def Let_def
    by (rule sys_only_trans) (rule backend_only [OF prod.collapse [symmetric]])
qed

text \<open>
  The removal keeps every property that reading directories keeps and that removing a path of a
  certain kind keeps, where the paths it forms below a path of that kind are again of that kind.
\<close>

lemma removal_keeps:
  assumes look: "\<And>d s. J s \<Longrightarrow> J (snd (sys_call (os_dirents os d) s))"
    and rm: "\<And>p s. K p \<Longrightarrow> J s \<Longrightarrow> J (snd (backend_remove os p s)) \<and> J (snd (backend_rmdir os p s))"
    and K: "\<And>d n. K d \<Longrightarrow> K (entry_path d n)"
  shows "removedirectoryrecursively os n d s = Some x \<Longrightarrow> K d \<Longrightarrow> J s \<Longrightarrow> J (snd x)"
    and "remove_entries os n d es s = Some s' \<Longrightarrow> K d \<Longrightarrow> J s \<Longrightarrow> J s'"
  using look rm
proof (induction os n d s and os n d es s arbitrary: x and s' rule: removedirectoryrecursively_remove_entries.induct)
  case (2 os n d s)
  obtain r t where t: "sys_call (os_dirents os d) s = (r, t)" by fastforce
  with 2(5) [OF 2(4), of d] have "J t" by simp
  with t 2 show ?case by (auto split: option.splits)
next
  case (4 os n d nm isd es s)
  let ?p = "entry_path d nm"
  have p: "K ?p" using 4(5) by (rule K)
  show ?case
  proof (cases "nm = ''.'' \<or> nm = ''..''")
    case True
    with 4 show ?thesis by auto
  next
    case False
    from False 4(4) obtain t where t: "(if isd then map_option snd (removedirectoryrecursively os n ?p s) else Some s) = Some t"
      and rest: "remove_entries os n d es (snd (backend_remove os ?p t)) = Some s'"
      by (auto simp: Let_def split: option.splits)
    have "J t"
    proof (cases isd)
      case True
      with t obtain x where x: "removedirectoryrecursively os n ?p s = Some x" "t = snd x" by auto
      from 4(2) [OF False refl True x(1) p 4(6-8)] x(2) show ?thesis by simp
    next
      case False
      with t 4(6) show ?thesis by simp
    qed
    with 4(8) [OF p] have "J (snd (backend_remove os ?p t))" by blast
    from 4(3) [OF False refl t rest 4(5) this 4(7,8)] show ?thesis .
  qed
qed simp_all

lemma removedirectory_only:
  "removedirectoryrecursively os n d s = Some x \<Longrightarrow> sys_only s (snd x)"
  by (rule removal_keeps(1) [where J = "sys_only s" and K = "\<lambda>_. True"])
    (auto intro: sys_only_trans backend_only [OF prod.collapse [symmetric]] sys_call_only [OF prod.collapse [symmetric]])

lemma listCollection_only:
  assumes "listCollection os ro rf lf comm s = Some (r, s')"
  shows "sys_only s s'"
proof -
  obtain x where x: "removedirectoryrecursively os PATH_MAX lf s = Some x"
    using assms by (auto simp: listCollection_def bind_eq_Some_conv)
  obtain b t where t: "sys_call (os_stat os lf) (snd x) = (b, t)" by fastforce
  obtain u where u: "sys_only t u" and rest: "(case rc ro (rc_OpenCollection ro comm rf) u of (h, s) \<Rightarrow>
      list_rounds os ro rf lf comm h s \<bind> (\<lambda>s. Some (rc ro (rc_CloseCollection ro comm h) s))) = Some (r, s')"
    using assms x t rec_mkdir_only
    by (fastforce simp: listCollection_def Let_def case_prod_beta split: option.splits if_splits)
  obtain h v where v: "rc ro (rc_OpenCollection ro comm rf) u = (h, v)" by fastforce
  with rest obtain w where w: "list_rounds os ro rf lf comm h v = Some w" "rc ro (rc_CloseCollection ro comm h) w = (r, s')"
    by (auto simp: bind_eq_Some_conv)
  note [trans] = sys_only_trans
  have "sys_only s (snd x)" by (rule removedirectory_only [OF x])
  also have "sys_only (snd x) t" by (rule sys_call_only [OF t])
  also note u also have "sys_only u v" by (rule rc_only [OF v])
  also have "sys_only v w" by (rule list_rounds_only [OF w(1)])
  also have "sys_only w s'" by (rule rc_only [OF w(2)])
  finally show ?thesis .
qed


subsection \<open>The removal\<close>


text \<open>
  No directory of the file system holds a directory whose path is too long for a path buffer.
\<close>

definition short_names :: "path \<Rightarrow> (string \<times> bool) list \<Rightarrow> bool" where
  "short_names d es \<longleftrightarrow>
     (\<forall>x. (x, True) \<in> set es \<and> x \<noteq> ''.'' \<and> x \<noteq> ''..'' \<longrightarrow> length d + 1 + length x < PATH_MAX)"

definition paths_fit :: "'w os \<Rightarrow> bool" where
  "paths_fit os \<longleftrightarrow> (\<forall>d c w es w'. os_dirents os d c w = (Inr es, w') \<longrightarrow> short_names d es)"

lemma removal_returns:
  shows "paths_fit os \<Longrightarrow> PATH_MAX \<le> length d + n \<Longrightarrow> 0 < n \<Longrightarrow>
      \<exists>y. removedirectoryrecursively os n d s = Some y"
    and "paths_fit os \<Longrightarrow> PATH_MAX \<le> length d + n + 1 \<Longrightarrow> short_names d es \<Longrightarrow>
      \<exists>y. remove_entries os n d es s = Some y"
proof (induction os n d s and os n d es s rule: removedirectoryrecursively_remove_entries.induct)
  case (2 os n d s)
  obtain r t where t: "sys_call (os_dirents os d) s = (r, t)" by fastforce
  show ?case
  proof (cases r)
    case (Some es)
    have "short_names d es"
      using t Some 2(2) unfolding sys_call_def paths_fit_def by (fastforce split: prod.splits sum.splits)
    with 2(1) [OF t [symmetric] Some 2(2)] 2(3) obtain y where "remove_entries os n d es t = Some y" by auto
    with t Some show ?thesis by simp
  qed (simp add: t)
next
  case (4 os n d nm isd es s)
  have es: "short_names d es" using 4(6) by (auto simp: short_names_def)
  show ?case
  proof (cases "nm = ''.'' \<or> nm = ''..''")
    case True
    with 4(1) [OF True 4(4,5) es] show ?thesis by simp
  next
    case False
    let ?p = "entry_path d nm"
    have "\<exists>t. (if isd then map_option snd (removedirectoryrecursively os n ?p s) else Some s) = Some t"
    proof (cases isd)
      case True
      with False 4(6) have l: "length d + 1 + length nm < PATH_MAX" by (auto simp: short_names_def)
      then have "length ?p = length d + 1 + length nm" by (simp add: entry_path_def)
      with l 4(5) have "PATH_MAX \<le> length ?p + n" "0 < n" by simp_all
      with 4(2) [OF False refl True 4(4)] True show ?thesis by auto
    qed simp
    then obtain t where t: "(if isd then map_option snd (removedirectoryrecursively os n ?p s) else Some s) = Some t" ..
    from 4(3) [OF False refl t 4(4,5) es] t False show ?thesis by simp
  qed
qed simp_all

text \<open>
  Emptying a directory always ends where no directory of the file system lies deeper than a path
  can name: the recursion is then less deep than a path is long.
\<close>

lemma removal_ends:
  assumes "paths_fit os"
  shows "\<exists>r s'. removedirectoryrecursively os PATH_MAX d s = Some (r, s')"
  using removal_returns(1) [OF assms, of d PATH_MAX s] by (auto simp: PATH_MAX_def)

subsection \<open>The mode of an object\<close>

lemma last_index_from_eq:
  "k \<le> i \<Longrightarrow> 0 < k \<Longrightarrow> k < length p \<Longrightarrow> p ! k = CHR ''/'' \<Longrightarrow> (\<And>j. k < j \<Longrightarrow> j < length p \<Longrightarrow> p ! j \<noteq> CHR ''/'') \<Longrightarrow>
   last_index_from p i = k"
proof (induction i)
  case (Suc i)
  show ?case
  proof (cases "Suc i = k")
    case False
    with Suc have "last_index_from p i = k" by simp
    with False Suc show ?thesis by auto
  qed (use Suc in auto)
qed simp

lemma fileNameLastIndex_eq:
  assumes "dir \<noteq> []" "CHR ''/'' \<notin> set n"
  shows "fileNameLastIndex (dir @ ''/'' @ n) = length dir"
  unfolding fileNameLastIndex_def
proof (rule last_index_from_eq)
  fix j assume j: "length dir < j" "j < length (dir @ ''/'' @ n)"
  then have "(dir @ ''/'' @ n) ! j = n ! (j - length dir - 1)" "j - length dir - 1 < length n"
    by (auto simp: nth_append nth_Cons')
  with assms(2) show "(dir @ ''/'' @ n) ! j \<noteq> CHR ''/''" by (metis nth_mem)
qed (use assms(1) in auto)

definition quoted :: "string \<Rightarrow> string" where "quoted x = [CHR ''='', CHR 0x27] @ x @ [CHR 0x27]"

lemma c_str_pad: "CHR 0x00 \<notin> set x \<Longrightarrow> c_str (x @ replicate n (CHR 0x00) @ y) = x @ (if n = 0 then c_str y else [])"
  by (induction x) (auto simp: c_str_def takeWhile_append gr0_conv_Suc)

lemma mode_query_eq:
  assumes "dir \<noteq> []" "CHR ''/'' \<notin> set n" "CHR 0x00 \<notin> set dir" "CHR 0x00 \<notin> set n"
  shows "mode_query (dir @ ''/'' @ n) =
    ([700], [(403, take (length dir + length n) (quoted n)),
             (501, quoted (dir @ drop (length dir) n))])"
proof -
  let ?p = "dir @ ''/'' @ n" and ?z = "\<lambda>k. replicate k (CHR 0x00)"
  have k: "fileNameLastIndex ?p = length dir" by (rule fileNameLastIndex_eq) fact+
  have one: "strncpy (?z (length ?p)) (drop (length dir + 1) ?p) (length ?p) = n @ ?z (length dir + 1)"
    by (simp add: strncpy_def)
  have two: "strncpy (n @ ?z (length dir + 1)) ?p (length dir) =
      dir @ drop (length dir) n @ ?z (length dir + 1 - (length dir - length n))"
    by (simp add: strncpy_def flip: replicate_Suc)
  have "c_str (n @ ?z (length dir + 1)) = n" using c_str_pad [of n "length dir + 1" "[]"] assms(4) by simp
  moreover have tail: "CHR 0x00 \<notin> set (dir @ drop (length dir) n)"
    using assms(3,4) set_drop_subset [of "length dir" n] by auto
  have "c_str (dir @ drop (length dir) n @ ?z (length dir + 1 - (length dir - length n))) = dir @ drop (length dir) n"
    using c_str_pad [OF tail, of "length dir + 1 - (length dir - length n)" "[]"] by simp
  moreover have "take (length ?p + 9) (quoted (dir @ drop (length dir) n)) = quoted (dir @ drop (length dir) n)"
    by (simp add: quoted_def)
  ultimately show ?thesis
    unfolding mode_query_def k one Let_def two by (simp add: quoted_def)
qed

text \<open>
  The query for the mode of an object asks about this object exactly when its name is not longer than
  the name of its collection. The buffer the two names share keeps the end of a longer name.
\<close>

lemma mode_query_right:
  assumes "3 \<le> length dir" "CHR ''/'' \<notin> set n" "CHR 0x00 \<notin> set dir" "CHR 0x00 \<notin> set n"
  shows "mode_query (dir @ ''/'' @ n) = ([700], [(403, quoted n), (501, quoted dir)]) \<longleftrightarrow> length n \<le> length dir"
proof -
  have "dir \<noteq> []" using assms(1) by auto
  moreover have "take (length dir + length n) (quoted n) = quoted n" using assms(1) by (simp add: quoted_def)
  ultimately have "mode_query (dir @ ''/'' @ n) = ([700], [(403, quoted n), (501, quoted (dir @ drop (length dir) n))])"
    using mode_query_eq [of dir n] assms(2-4) by simp
  then show ?thesis by (simp add: quoted_def)
qed

lemma genQuery_no_rows:
  assumes "rc_GenQuery ro conn q 0 (world s) = ((CAT_NO_ROWS_FOUND, out), w)"
  shows "\<exists>s'. genQuery ro conn q s = Some ((0, None), s')"
  using assms by (simp add: genQuery_def rc_def CAT_NO_ROWS_FOUND_def)

text \<open>
  An object whose mode query finds no row ends the daemon while its collection is listed: the query
  counts as a success, and the result it did not store is used.
\<close>

lemma unlisted_object_fatal:
  assumes "ce_is_data ent" "ce_dataName ent = Some n"
    and "\<forall>w. \<exists>out w'. rc_GenQuery ro comm (mode_query (concat_str (concat_str rf ''/'') n)) 0 w = ((CAT_NO_ROWS_FOUND, out), w')"
  shows "list_entry os ro rf lf comm ent s = None"
proof -
  let ?p = "concat_str (concat_str rf ''/'') n"
  have "fileMode ro ?p comm t = None" for t :: "('a, 'b) sys_scheme"
  proof -
    obtain out w where "rc_GenQuery ro comm (mode_query ?p) 0 (world t) = ((CAT_NO_ROWS_FOUND, out), w)"
      using assms(3) by blast
    from genQuery_no_rows [OF this] show ?thesis by (auto simp: fileMode_def)
  qed
  with assms(1,2) show ?thesis by (simp add: list_entry_def case_prod_beta)
qed

subsection \<open>Making directories\<close>

lemma mkdir_prefixes_iff: "q \<in> set (mkdir_prefixes p) \<longleftrightarrow> q \<noteq> [] \<and> prefix (q @ ''/'') p"
proof -
  have "prefix (q @ ''/'') p \<longleftrightarrow> (\<exists>i<length p. q = take i p \<and> p ! i = CHR ''/'')"
  proof
    assume "prefix (q @ ''/'') p"
    then show "\<exists>i<length p. q = take i p \<and> p ! i = CHR ''/''"
      by (intro exI [of _ "length q"]) (auto simp: prefix_def nth_append)
  next
    assume "\<exists>i<length p. q = take i p \<and> p ! i = CHR ''/''"
    then obtain i where "i < length p" "q = take i p" "p ! i = CHR ''/''" by blast
    then have "p = (q @ ''/'') @ drop (Suc i) p" by (metis append_Cons append_Nil append_assoc id_take_nth_drop)
    then show "prefix (q @ ''/'') p" by (metis prefixI)
  qed
  then show ?thesis by (auto simp: mkdir_prefixes_def)
qed

lemma mkdir_prefixes_sorted: "sorted_wrt strict_prefix (mkdir_prefixes p)"
proof -
  have "sorted_wrt strict_prefix (concat (map (\<lambda>i. if p ! i = CHR ''/'' then [take i p] else []) is))"
    if "sorted_wrt (<) is" "\<forall>i\<in>set is. i < length p" for "is"
    using that
  proof (induction "is")
    case (Cons i "is")
    have "strict_prefix (take i p) (take j p)" if "j \<in> set is" for j
    proof -
      have "i < j" "j < length p" using Cons.prems that by auto
      then have "prefix (take i p) (take j p)" by (metis less_imp_le_nat min.absorb1 take_is_prefix take_take)
      with \<open>i < j\<close> \<open>j < length p\<close> show ?thesis by (auto simp: strict_prefix_def dest: arg_cong [of _ _ length])
    qed
    with Cons show ?case by (auto simp: sorted_wrt_append)
  qed simp
  then show ?thesis by (simp add: mkdir_prefixes_def)
qed

text \<open>
  The directories made before the directory itself are its ancestors, all of them, an outer one before an
  inner one; this holds for paths of up to 255 characters, while a longer one is cut.
\<close>

lemma rec_mkdir_ancestors:
  assumes "length p \<le> 255" "p \<noteq> []" "last p \<noteq> CHR ''/''"
  shows "\<exists>qs. rec_mkdir os p s = fold (\<lambda>q s. snd (backend_mkdir os q S_IRWXU s)) (qs @ [p]) s \<and>
    (\<forall>q. q \<in> set qs \<longleftrightarrow> q \<noteq> [] \<and> prefix (q @ ''/'') p) \<and> sorted_wrt strict_prefix qs"
proof (intro exI conjI)
  have "mkdir_path p = p" using assms by (simp add: mkdir_path_def)
  then show "rec_mkdir os p s = fold (\<lambda>q s. snd (backend_mkdir os q S_IRWXU s)) (mkdir_prefixes p @ [p]) s"
    by (simp add: rec_mkdir_def)
qed (use mkdir_prefixes_iff mkdir_prefixes_sorted in auto)

subsection \<open>Trimming\<close>

text \<open>\<open>trim\<close>: the second loop starts at the byte behind the text, which is zero.\<close>

fun trim_end :: "string \<Rightarrow> nat \<Rightarrow> string" where
  "trim_end buf 0 = buf"
| "trim_end buf (Suc i) =
     (if isspace (buf ! Suc i) then trim_end (buf[Suc i := CHR 0x00]) i else buf)"

definition trim :: "string \<Rightarrow> string option" where
  "trim str =
     (let i = length (takeWhile isspace str)
      in if i = length str then None
         else Some (c_str (drop i (trim_end (str @ [CHR 0x00]) (length str)))))"

lemma trim_keeps_end:
  assumes "CHR 0x00 \<notin> set str" "\<exists>c\<in>set str. \<not> isspace c"
  shows "trim str = Some (dropWhile isspace str)"
proof -
  have zero: "\<not> isspace (CHR 0x00)" by (simp add: isspace_def)
  have "str \<noteq> []" using assms(2) by auto
  then obtain k where "length str = Suc k" by (cases str) auto
  then have stop: "trim_end (str @ [CHR 0x00]) (length str) = str @ [CHR 0x00]"
    using zero by (simp add: nth_append)
  have "length (takeWhile isspace str) < length str"
    using assms(2) length_takeWhile_le [of isspace str] by (metis le_neq_implies_less takeWhile_eq_all_conv takeWhile_eq_take take_all)
  moreover have "drop (length (takeWhile isspace str)) str = dropWhile isspace str"
    by (simp add: dropWhile_eq_drop)
  moreover have "CHR 0x00 \<notin> set (dropWhile isspace str)" using assms(1) by (auto dest: set_dropWhileD)
  then have "c_str (dropWhile isspace str @ [CHR 0x00]) = dropWhile isspace str"
    using c_str_pad [of _ 1 "[]"] by simp
  ultimately show ?thesis by (simp add: trim_def stop)
qed

end
