(* ===== verification/Nfs.thy ===== *)
theory Nfs
  imports Collection
begin

text \<open>
  \<open>nfs.c\<close>: the NFS version 3 procedures. Each takes the request and returns the reply with the
  next state, or \<open>None\<close> where the daemon ends (a failed switch of user, or the abort described
  in \<open>Rods\<close>). A procedure works on the local tree and mirrors the operation in iRODS.

  The record \<open>junk\<close> holds what uninitialised memory contains where a procedure reads it: the
  stat buffer of \<open>fh_rec\<close>, the buffers for a user name and for an object path, the bytes behind
  a path in its buffer, the count of a failed READ and the attributes of an exclusive CREATE.
  Debug output has no effect on the state and is left out.
\<close>

record junk =
  j_stat :: stat
  j_name :: string
  j_obj :: string
  j_mem :: "path \<Rightarrow> string"
  j_int :: int
  j_sattr :: sattr3

subsection \<open>Resolution and access control\<close>

text \<open>\<open>PREP\<close>: the path of the handle, or the status of the zeroed reply.\<close>

definition prep ::
  "'w os \<Rightarrow> junk \<Rightarrow> nfs_fh3 \<Rightarrow> svc_req \<Rightarrow> ('w, 'z) nfs_scheme
   \<Rightarrow> ((nfsstat3 + path) \<times> svc_req \<times> ('w, 'z) nfs_scheme) option" where
  "prep os jk f req s =
     (let s = switch_to_root s;
          (p, s) = fh_decomp os (j_stat jk) f s;
          (r, _, _, s) = exports_options p req s
      in if r = -1 then Some (Inl (if p \<noteq> None then NFS3ERR_ACCES else NFS3ERR_STALE), req, s)
         else if fh_pwhash (fh_cast f) \<noteq> export_password_hash s
         then Some (Inl NFS3ERR_STALE, req, s)
         else (case switch_user req s of
                 (None, s) \<Rightarrow> None
               | (Some req, s) \<Rightarrow> Some (Inr (case p of Some p \<Rightarrow> p | None \<Rightarrow> []), req, s)))"

definition getUID :: "svc_req \<Rightarrow> uint32" where "getUID req = aup_uid (rq_clntcred req)"
definition getGID :: "svc_req \<Rightarrow> uint32" where "getGID req = aup_gid (rq_clntcred req)"

definition export_root :: "('w, 'z) nfs_scheme \<Rightarrow> path" where
  "export_root s = (case export_path s of Some p \<Rightarrow> p | None \<Rightarrow> [])"

definition getNFSDirectory :: "svc_req \<Rightarrow> ('w, 'z) nfs_scheme \<Rightarrow> string" where
  "getNFSDirectory req s = (if isPublic s then ''public'' else dec_int (sint (getUID req)))"

definition getRealPathNFS :: "junk \<Rightarrow> path \<Rightarrow> svc_req \<Rightarrow> ('w, 'z) nfs_scheme \<Rightarrow> path" where
  "getRealPathNFS jk userPath req s =
     (if isPublic s then userPath
      else (let p = concat_str (export_root s) ''/'';
                p = concat_str p (getNFSDirectory req s)
            in if strstr userPath p \<noteq> None then userPath
               else concat_str p (substring (j_mem jk userPath) userPath
                                    (length (export_root s) + 1) (length userPath))))"

definition getIRODSpathGetAttr :: "junk \<Rightarrow> path \<Rightarrow> uint32 \<Rightarrow> ('w, 'z) nfs_scheme \<Rightarrow> string" where
  "getIRODSpathGetAttr jk p uid s =
     (if isPublic s then substring (j_mem jk p) p (length (export_root s) + 1) (length p)
      else substring (j_mem jk p) p (length (export_root s) + length (dec_int (sint uid)) + 2) (length p))"

definition cat_name :: "path option \<Rightarrow> string \<Rightarrow> nfsstat3 \<times> path option" where
  "cat_name po n =
     (case po of
        None \<Rightarrow> (NFS3ERR_STALE, None)
      | Some p \<Rightarrow>
          if n = [] \<or> strchr n CHR ''/'' \<noteq> None then (NFS3ERR_ACCES, None)
          else if NFS_MAXPATHLEN < length p + length n + 2 then (NFS3ERR_NAMETOOLONG, None)
          else if n = ''.'' then (NFS3_OK, Some p)
          else if n = ''..''
          then (case strrchr_split p CHR ''/'' of
                  None \<Rightarrow> (NFS3_OK, Some ''/'')
                | Some (a, _) \<Rightarrow> (NFS3_OK, Some (if a = [] then ''/'' else a)))
          else (NFS3_OK, Some (p @ ''/'' @ n)))"

definition obj_buf :: "junk \<Rightarrow> path option \<Rightarrow> path" where
  "obj_buf jk o' = (case o' of Some p \<Rightarrow> p | None \<Rightarrow> j_obj jk)"

text \<open>Connecting as the client's user and logging in, and the iRODS name of a local path.\<close>

definition rods_session ::
  "'w os \<Rightarrow> 'w rods \<Rightarrow> junk \<Rightarrow> svc_req \<Rightarrow> ('w, 'z) nfs_scheme \<Rightarrow> (rcComm \<times> ('w, 'z) nfs_scheme) option" where
  "rods_session os ro jk req s =
     do {
       (comm, s) \<leftarrow> rodsConnecUser os ro (j_name jk) (getUID req) s;
       Some (comm, snd (rodsLogin ro comm s))
     }"

definition rods_name ::
  "'w os \<Rightarrow> junk \<Rightarrow> path \<Rightarrow> svc_req \<Rightarrow> ('w, 'z) nfs_scheme \<Rightarrow> (string \<times> ('w, 'z) nfs_scheme) option" where
  "rods_name os jk p req s =
     getRodsPath os (j_name jk) (getUID req) (getIRODSpathGetAttr jk p (getUID req) s) s"

text \<open>The owner, group and size shown for a regular file.\<close>

definition rods_size :: "int \<Rightarrow> svc_req \<Rightarrow> fattr3 \<Rightarrow> fattr3" where
  "rods_size sz req a =
     a\<lparr>fa_size := word_of_int sz, fa_used := word_of_int sz, fa_uid := getUID req,
       fa_gid := getGID req\<rparr>"

subsection \<open>Attributes\<close>

definition nfsproc3_getattr ::
  "'w os \<Rightarrow> 'w rods \<Rightarrow> junk \<Rightarrow> nfs_fh3 \<Rightarrow> svc_req \<Rightarrow> ('w, 'z) nfs_scheme
   \<Rightarrow> ((nfsstat3 \<times> fattr3) \<times> ('w, 'z) nfs_scheme) option" where
  "nfsproc3_getattr os ro jk object req s =
     do {
       (p, req, s) \<leftarrow> prep os jk object req s;
       case p of
         Inl e \<Rightarrow> Some ((e, zero_fattr), s)
       | Inr path \<Rightarrow>
           do {
             (name, s) \<leftarrow> rods_name os jk path req s;
             let (post, s) = get_post_cached os req s;
             if fa_type (attributes post) = NF3REG
             then do {
               (comm, s) \<leftarrow> rods_session os ro jk req s;
               let (sz, s) = fileSize ro name comm s;
               Some ((NFS3_OK, rods_size sz req (attributes post)), rcDisconnect ro comm s)
             }
             else Some ((NFS3_OK, attributes post), s)
           }
     }"

text \<open>The guard of SETATTR is an optional change time.\<close>

definition in_sync :: "nfstime3 option \<Rightarrow> pre_op_attr \<Rightarrow> nfsstat3" where
  "in_sync guard pre = NFS3_OK"

definition zero_wcc :: wcc_data where
  "zero_wcc = \<lparr>before = None, after = error_attr\<rparr>"

definition nfsproc3_setattr ::
  "'w os \<Rightarrow> 'w rods \<Rightarrow> junk \<Rightarrow> nfs_fh3 \<Rightarrow> sattr3 \<Rightarrow> nfstime3 option \<Rightarrow> svc_req \<Rightarrow> ('w, 'z) nfs_scheme
   \<Rightarrow> ((nfsstat3 \<times> wcc_data) \<times> ('w, 'z) nfs_scheme) option" where
  "nfsproc3_setattr os ro jk object new guard req s =
     do {
       (p, req, s) \<leftarrow> prep os jk object req s;
       case p of
         Inl e \<Rightarrow> Some ((e, zero_wcc), s)
       | Inr path \<Rightarrow>
           do {
             let path = getRealPathNFS jk path req s;
             let pre = get_pre_cached s;
             let status = join (in_sync guard pre) (exports_rw s);
             (status, s) \<leftarrow>
               (if status = NFS3_OK
                then do {
                  let (status, s) = set_attr os path object new s;
                  (comm, s) \<leftarrow> rods_session os ro jk req s;
                  (name, s) \<leftarrow> rods_name os jk path req s;
                  let ((resultUser, userName), s) = getUserName os (j_name jk) (getUID req) s;
                  let (status, s) =
                    (if resultUser < 0 then (NFS3ERR_PERM, s)
                     else (status, snd (set_attr_irods ro name new userName comm s)));
                  Some (status, rcDisconnect ro comm s)
                }
                else Some (status, s));
             let (post, s) = get_post_stat os (Some path) req s;
             Some ((status, \<lparr>before = pre, after = post\<rparr>), s)
           }
     }"

record LOOKUP3res =
  lk_status :: nfsstat3
  lk_object :: "nfs_fh3 option"
  lk_obj_attributes :: post_op_attr
  lk_dir_attributes :: post_op_attr

text \<open>
  The attributes of the object are part of a static reply: where the lookup fails they are what
  an earlier request left there, and the code looks at their type all the same.
\<close>

definition nfsproc3_lookup ::
  "'w os \<Rightarrow> 'w rods \<Rightarrow> junk \<Rightarrow> nfs_fh3 \<Rightarrow> string \<Rightarrow> svc_req \<Rightarrow> ('w, 'z) nfs_scheme
   \<Rightarrow> (LOOKUP3res \<times> ('w, 'z) nfs_scheme) option" where
  "nfsproc3_lookup os ro jk dir n req s =
     do {
       (p, req, s) \<leftarrow> prep os jk dir req s;
       case p of
         Inl e \<Rightarrow> Some (\<lparr>lk_status = e, lk_object = None, lk_obj_attributes = error_attr,
                         lk_dir_attributes = error_attr\<rparr>, s\<lparr>lookup_obj_attr := error_attr\<rparr>)
       | Inr path \<Rightarrow>
           do {
             (rodspath, s) \<leftarrow> getRodsPath os (j_name jk) (getUID req) path s;
             let path = getRealPathNFS jk path req s;
             let (status, obj) = cat_name (Some path) n;
             let (status, object, s) =
               (case obj of
                  None \<Rightarrow> (status, None, s)
                | Some obj \<Rightarrow>
                    (case backend_lstat os obj s of
                       (None, s) \<Rightarrow> (lookup_err (errno s), None, s)
                     | (Some buf, s) \<Rightarrow>
                         (let (fh, s) =
                            (if n = ''.'' \<or> n = ''..'' then fh_comp_ptr os obj (Some req) False s
                             else (let (fh, s) = fh_extend os dir (ucast (st_dev buf)) (st_ino buf)
                                                   (get_gen buf) s
                                   in (fh, snd (fh_cache_add (ucast (st_dev buf)) (st_ino buf) obj s))))
                          in case fh of
                               None \<Rightarrow> (NFS3ERR_NAMETOOLONG, None, s)
                             | Some fh \<Rightarrow>
                                 (let (post, s) = get_post_buf os buf req s
                                  in (NFS3_OK, Some (fh_bytes fh), s\<lparr>lookup_obj_attr := post\<rparr>)))));
             let (dattr, s) = get_post_stat os (Some path) req s;
             s \<leftarrow>
               (if fa_type (attributes (lookup_obj_attr s)) = NF3REG
                then do {
                  (comm, s) \<leftarrow> rods_session os ro jk req s;
                  let (sz, s) = fileSize ro rodspath comm s;
                  let oa = lookup_obj_attr s;
                  let s = s\<lparr>lookup_obj_attr := oa\<lparr>attributes := rods_size sz req (attributes oa)\<rparr>\<rparr>;
                  Some (rcDisconnect ro comm s)
                }
                else Some s);
             Some (\<lparr>lk_status = status, lk_object = object,
                    lk_obj_attributes = lookup_obj_attr s, lk_dir_attributes = dattr\<rparr>, s)
           }
     }"

subsection \<open>ACCESS\<close>

definition ACCESS3_READ :: uint32 where "ACCESS3_READ = 0x1"
definition ACCESS3_LOOKUP :: uint32 where "ACCESS3_LOOKUP = 0x2"
definition ACCESS3_MODIFY :: uint32 where "ACCESS3_MODIFY = 0x4"
definition ACCESS3_EXTEND :: uint32 where "ACCESS3_EXTEND = 0x8"
definition ACCESS3_DELETE :: uint32 where "ACCESS3_DELETE = 0x10"
definition ACCESS3_EXECUTE :: uint32 where "ACCESS3_EXECUTE = 0x20"

lemmas access_bits = ACCESS3_READ_def ACCESS3_LOOKUP_def ACCESS3_MODIFY_def ACCESS3_EXTEND_def
  ACCESS3_DELETE_def ACCESS3_EXECUTE_def

definition class_access :: "bool \<Rightarrow> uint32 \<Rightarrow> uint32 \<Rightarrow> uint32 \<Rightarrow> uint32 \<Rightarrow> uint32" where
  "class_access readable_exec m rbit wbit xbit =
     (let a = (if has_bits m rbit then ACCESS3_READ else 0);
          a = (if has_bits m wbit then a OR (ACCESS3_MODIFY OR ACCESS3_EXTEND) else a)
      in if has_bits m xbit
         then (let a = a OR ACCESS3_EXECUTE in if readable_exec then a OR ACCESS3_READ else a)
         else a)"

definition access_bits_for :: "post_op_attr \<Rightarrow> svc_req \<Rightarrow> ('w, 'z) nfs_scheme \<Rightarrow> uint32" where
  "access_bits_for post req s =
     (let m = fa_mode (attributes post);
          x = opt_readable_executables s;
          a = (if is_owner (st_uid (st_cache s)) req s then class_access x m S_IRUSR S_IWUSR S_IXUSR
               else if has_group (st_gid (st_cache s)) req s
               then class_access x m S_IRGRP S_IWGRP S_IXGRP
               else class_access x m S_IROTH S_IWOTH S_IXOTH);
          a = (if get_uid req s = 0 then a OR (ACCESS3_READ OR ACCESS3_MODIFY OR ACCESS3_EXTEND) else a);
          a = (if fa_type (attributes post) = NF3DIR
               then (let a = (if has_bits a (ACCESS3_READ OR ACCESS3_EXECUTE) then a OR ACCESS3_LOOKUP else a);
                         a = (if has_bits a ACCESS3_MODIFY then a OR ACCESS3_DELETE else a)
                     in a AND NOT ACCESS3_EXECUTE)
               else a)
      in a OR (ACCESS3_READ OR ACCESS3_MODIFY OR ACCESS3_EXTEND))"

definition nfsproc3_access ::
  "'w os \<Rightarrow> 'w rods \<Rightarrow> junk \<Rightarrow> nfs_fh3 \<Rightarrow> uint32 \<Rightarrow> svc_req \<Rightarrow> ('w, 'z) nfs_scheme
   \<Rightarrow> ((nfsstat3 \<times> uint32 \<times> post_op_attr) \<times> ('w, 'z) nfs_scheme) option" where
  "nfsproc3_access os ro jk object want req s =
     do {
       (p, req, s) \<leftarrow> prep os jk object req s;
       case p of
         Inl e \<Rightarrow> Some ((e, 0, error_attr), s)
       | Inr path \<Rightarrow>
           do {
             let path = getRealPathNFS jk path req s;
             (comm, s) \<leftarrow> rods_session os ro jk req s;
             (name, s) \<leftarrow> rods_name os jk path req s;
             let (_, s) = getFile ro path name False True comm s;
             let s = rcDisconnect ro comm s;
             let (post, s) = get_post_cached os req s;
             Some ((NFS3_OK, access_bits_for post req s AND want, post), s)
           }
     }"

subsection \<open>Reading and writing\<close>

definition maxdata_of :: "svc_req \<Rightarrow> uint32" where
  "maxdata_of req = (if get_socket_type req = SOCK_STREAM then NFS_MAXDATA_TCP else NFS_MAXDATA_UDP)"

record READ3res =
  rr_status :: nfsstat3
  rr_count :: uint32
  rr_data :: "byte list"
  rr_eof :: bool
  rr_attributes :: post_op_attr

definition nfsproc3_read ::
  "'w os \<Rightarrow> 'w rods \<Rightarrow> junk \<Rightarrow> nfs_fh3 \<Rightarrow> uint64 \<Rightarrow> uint32 \<Rightarrow> svc_req \<Rightarrow> ('w, 'z) nfs_scheme
   \<Rightarrow> (READ3res \<times> ('w, 'z) nfs_scheme) option" where
  "nfsproc3_read os ro jk file offset cnt req s =
     do {
       let maxdata = maxdata_of req;
       (p, req, s) \<leftarrow> prep os jk file req s;
       case p of
         Inl e \<Rightarrow> Some (\<lparr>rr_status = e, rr_count = 0, rr_data = [], rr_eof = False,
                         rr_attributes = error_attr\<rparr>, s)
       | Inr path \<Rightarrow>
           do {
             let status = is_reg s;
             let s = read_executable req (st_cache s) s;
             let s = read_by_owner req (st_cache s) s;
             let cnt = (if maxdata < cnt then maxdata else cnt);
             (status, bytesRead, data, s) \<leftarrow>
               (if status = NFS3_OK
                then do {
                  (comm, s) \<leftarrow> rods_session os ro jk req s;
                  (name, s) \<leftarrow> rods_name os jk path req s;
                  let (l1, s) = rc ro (rc_DataObjOpen ro comm name O_RDONLY) s;
                  if l1 < 0 then Some (read_err (errno s), j_int jk, [], s)
                  else
                    (let ((bytesRead, data), s) = rc ro (rc_DataObjRead ro comm l1 cnt offset) s
                     in if 0 < bytesRead then Some (NFS3_OK, bytesRead, data, s)
                        else Some (read_err (errno s), bytesRead, [], s))
                }
                else Some (status, j_int jk, [], s));
             let (post, s) = get_post_stat os (Some path) req s;
             let attr = (attributes post)\<lparr>fa_size := word_of_int bytesRead, fa_used := word_of_int bytesRead\<rparr>;
             Some (\<lparr>rr_status = status, rr_count = word_of_int bytesRead, rr_data = data,
                    rr_eof = (bytesRead < sint cnt), rr_attributes = post\<lparr>attributes := attr\<rparr>\<rparr>, s)
           }
     }"

text \<open>\<open>STABLE_HOW_OTHER\<close> is a value outside the enumeration, which \<open>xdr_stable_how\<close> lets through.\<close>

datatype stable_how = UNSTABLE | DATA_SYNC | FILE_SYNC | STABLE_HOW_OTHER int

record WRITE3res =
  wr_status :: nfsstat3
  wr_count :: uint32
  wr_committed :: stable_how
  wr_verf :: "byte list"
  wr_wcc :: wcc_data

definition wr_error :: "nfsstat3 \<Rightarrow> wcc_data \<Rightarrow> WRITE3res" where
  "wr_error e wcc = \<lparr>wr_status = e, wr_count = 0, wr_committed = UNSTABLE, wr_verf = [], wr_wcc = wcc\<rparr>"

definition nfsproc3_write ::
  "'w os \<Rightarrow> 'w rods \<Rightarrow> junk \<Rightarrow> nfs_fh3 \<Rightarrow> uint64 \<Rightarrow> stable_how \<Rightarrow> byte list \<Rightarrow> svc_req \<Rightarrow> ('w, 'z) nfs_scheme
   \<Rightarrow> (WRITE3res \<times> ('w, 'z) nfs_scheme) option" where
  "nfsproc3_write os ro jk file offset stab data req s =
     do {
       (p, req, s) \<leftarrow> prep os jk file req s;
       case p of
         Inl e \<Rightarrow> Some (wr_error e zero_wcc, s)
       | Inr path \<Rightarrow>
           do {
             let path = getRealPathNFS jk path req s;
             let status = join (is_reg s) (exports_rw s);
             let s = write_by_owner req (st_cache s) s;
             (reply, s) \<leftarrow>
               (if status = NFS3_OK
                then
                  (let (fd, s) = fd_open os path file UNFS3_FD_WRITE (stab = UNSTABLE) s
                   in if fd \<noteq> -1
                      then do {
                        let (res, s) = backend_pwrite os fd data offset s;
                        (comm, s) \<leftarrow> rods_session os ro jk req s;
                        (name, s) \<leftarrow> rods_name os jk path req s;
                        let (_, s) = iWrite ro name data (sint (ucast offset :: uint32)) comm s;
                        let s = rcDisconnect ro comm s;
                        let (res_close, s) = fd_close os fd UNFS3_FD_WRITE (stab \<noteq> UNSTABLE) s;
                        let stab = (if stab = DATA_SYNC then FILE_SYNC else stab);
                        if res \<noteq> -1 \<and> res_close \<noteq> -1
                        then Some (\<lparr>wr_status = NFS3_OK, wr_count = word_of_int res,
                                    wr_committed = stab, wr_verf = wverf s, wr_wcc = zero_wcc\<rparr>, s)
                        else Some (wr_error (write_write_err (errno s)) zero_wcc, s)
                      }
                      else Some (wr_error (write_open_err (errno s)) zero_wcc, s))
                else Some (wr_error status zero_wcc, s));
             let pre = get_pre_cached s;
             let (post, s) = get_post_stat os (Some path) req s;
             Some (reply\<lparr>wr_wcc := \<lparr>before = pre, after = post\<rparr>\<rparr>, s)
           }
     }"

subsection \<open>Creating objects\<close>

text \<open>
  The verifier of an exclusive CREATE is kept in the two times of the file. Its bytes are signed
  characters, sign-extended before they are shifted and combined.
\<close>

definition verf_half :: "byte list \<Rightarrow> int" where
  "verf_half v =
     sint (signed (v ! 0) OR push_bit 8 (signed (v ! 1)) OR push_bit 16 (signed (v ! 2)) OR
           push_bit 24 (signed (v ! 3)) :: uint32)"

definition store_create_verifier ::
  "'w os \<Rightarrow> path \<Rightarrow> byte list \<Rightarrow> ('w, 'z) nfs_scheme \<Rightarrow> int \<times> ('w, 'z) nfs_scheme" where
  "store_create_verifier os obj verf s =
     backend_utime os obj (verf_half verf) (verf_half (drop 4 verf)) s"

definition check_create_verifier :: "stat \<Rightarrow> byte list \<Rightarrow> bool" where
  "check_create_verifier buf verf \<longleftrightarrow>
     st_atime buf = verf_half verf \<and> st_mtime buf = verf_half (drop 4 verf)"

datatype createhow3 = UNCHECKED sattr3 | GUARDED sattr3 | EXCLUSIVE "byte list"

record CREATE3res =
  cr_status :: nfsstat3
  cr_obj :: "nfs_fh3 option"
  cr_obj_attributes :: post_op_attr
  cr_wcc :: wcc_data

definition cr_reply :: "nfsstat3 \<Rightarrow> nfs_fh3 option \<Rightarrow> post_op_attr \<Rightarrow> CREATE3res" where
  "cr_reply e fh post = \<lparr>cr_status = e, cr_obj = fh, cr_obj_attributes = post, cr_wcc = zero_wcc\<rparr>"

text \<open>Both successful ends of CREATE: enter the object into the cache, close it, reply.\<close>

definition create_done ::
  "'w os \<Rightarrow> nfs_fh3 \<Rightarrow> path \<Rightarrow> stat \<Rightarrow> int \<Rightarrow> svc_req \<Rightarrow> ('w, 'z) nfs_scheme
   \<Rightarrow> CREATE3res \<times> ('w, 'z) nfs_scheme" where
  "create_done os dir obj buf fd req s =
     (let s = snd (fh_cache_add (ucast (st_dev buf)) (st_ino buf) obj s);
          (_, s) = backend_close os fd s;
          (fh, s) = fh_extend_post os dir (ucast (st_dev buf)) (st_ino buf) (get_gen buf) s;
          (post, s) = get_post_buf os buf req s
      in (cr_reply NFS3_OK fh post, s))"

definition create_opened ::
  "'w os \<Rightarrow> nfs_fh3 \<Rightarrow> path \<Rightarrow> createhow3 \<Rightarrow> int \<Rightarrow> svc_req \<Rightarrow> ('w, 'z) nfs_scheme
   \<Rightarrow> CREATE3res \<times> ('w, 'z) nfs_scheme" where
  "create_opened os dir obj how fd req s =
     (let failed = (\<lambda>s. let (_, s) = backend_close os fd s in (cr_reply NFS3ERR_IO None error_attr, s))
      in case backend_fstat os fd s of
           (None, s) \<Rightarrow> failed s
         | (Some buf, s) \<Rightarrow>
             (let (res, s) = (case how of EXCLUSIVE verf \<Rightarrow> store_create_verifier os obj verf s
                                        | _ \<Rightarrow> (0, s))
              in if res \<noteq> -1 then create_done os dir obj buf fd req s else failed s))"

definition create_retry ::
  "'w os \<Rightarrow> nfs_fh3 \<Rightarrow> path \<Rightarrow> createhow3 \<Rightarrow> svc_req \<Rightarrow> ('w, 'z) nfs_scheme
   \<Rightarrow> CREATE3res \<times> ('w, 'z) nfs_scheme" where
  "create_retry os dir obj how req s =
     (let failed = (\<lambda>s. (cr_reply (create_err (errno s)) None error_attr, s))
      in case how of
           EXCLUSIVE verf \<Rightarrow>
             if errno s = EEXIST
             then (let (fd, s) = backend_open os obj O_NONBLOCK s
                   in if fd = -1 then failed s
                      else (case backend_fstat os fd s of
                              (None, s) \<Rightarrow> failed s
                            | (Some buf, s) \<Rightarrow>
                                if check_create_verifier buf verf
                                then create_done os dir obj buf fd req s
                                else (cr_reply NFS3ERR_EXIST None error_attr, s)))
             else failed s
         | _ \<Rightarrow> failed s)"

definition nfsproc3_create ::
  "'w os \<Rightarrow> 'w rods \<Rightarrow> junk \<Rightarrow> nfs_fh3 \<Rightarrow> string \<Rightarrow> createhow3 \<Rightarrow> svc_req \<Rightarrow> ('w, 'z) nfs_scheme
   \<Rightarrow> (CREATE3res \<times> ('w, 'z) nfs_scheme) option" where
  "nfsproc3_create os ro jk dir n how req s =
     do {
       (p, req, s) \<leftarrow> prep os jk dir req s;
       case p of
         Inl e \<Rightarrow> Some (cr_reply e None error_attr, s)
       | Inr path \<Rightarrow>
           do {
             let (cn, obj) = cat_name (Some path) n;
             let status = join cn (exports_rw s);
             let obj = getRealPathNFS jk (obj_buf jk obj) req s;
             let flags = O_RDWR OR O_CREAT OR O_TRUNC OR O_NONBLOCK;
             let flags = (case how of UNCHECKED _ \<Rightarrow> flags | _ \<Rightarrow> flags OR O_EXCL);
             let new_attr = (case how of UNCHECKED a \<Rightarrow> a | GUARDED a \<Rightarrow> a | EXCLUSIVE _ \<Rightarrow> j_sattr jk);
             let status = (case how of EXCLUSIVE _ \<Rightarrow> status | _ \<Rightarrow> join status (atomic_attr new_attr s));
             let (fd, s) = (if status = NFS3_OK
                            then backend_open_create os obj flags (create_mode new_attr) s
                            else (-1, s));
             (comm, s) \<leftarrow> rods_session os ro jk req s;
             (name, s) \<leftarrow> rods_name os jk obj req s;
             let (_, s) = createFile ro name comm s;
             let s = rcDisconnect ro comm s;
             let (reply, s) =
               (if fd \<noteq> -1 then create_opened os dir obj how fd req s
                else if status = NFS3_OK then create_retry os dir obj how req s
                else (cr_reply status None error_attr, s));
             let pre = get_pre_cached s;
             let (post, s) = get_post_stat os (Some path) req s;
             Some (reply\<lparr>cr_wcc := \<lparr>before = pre, after = post\<rparr>\<rparr>, s)
           }
     }"

definition nfsproc3_mkdir ::
  "'w os \<Rightarrow> 'w rods \<Rightarrow> junk \<Rightarrow> nfs_fh3 \<Rightarrow> string \<Rightarrow> sattr3 \<Rightarrow> svc_req \<Rightarrow> ('w, 'z) nfs_scheme
   \<Rightarrow> (CREATE3res \<times> ('w, 'z) nfs_scheme) option" where
  "nfsproc3_mkdir os ro jk dir n attr req s =
     do {
       (p, req, s) \<leftarrow> prep os jk dir req s;
       case p of
         Inl e \<Rightarrow> Some (cr_reply e None error_attr, s)
       | Inr path \<Rightarrow>
           do {
             let pre = get_pre_cached s;
             let (cn, obj) = cat_name (Some path) n;
             let status = join3 cn (atomic_attr attr s) (exports_rw s);
             let obj = getRealPathNFS jk (obj_buf jk obj) req s;
             (reply, s) \<leftarrow>
               (if status = NFS3_OK
                then do {
                  let (res, s) = backend_mkdir os obj (create_mode attr) s;
                  (comm, s) \<leftarrow> rods_session os ro jk req s;
                  (name, s) \<leftarrow> rods_name os jk obj req s;
                  let (_, s) = makeCollection ro name comm True s;
                  let s = rcDisconnect ro comm s;
                  if res = -1 then Some (cr_reply (mkdir_err (errno s)) None error_attr, s)
                  else
                    (let (fh, s) = fh_extend_type os dir obj S_IFDIR s;
                         (post, s) = get_post_cached os req s
                     in Some (cr_reply NFS3_OK fh post, s))
                }
                else Some (cr_reply status None error_attr, s));
             let (post, s) = get_post_attr os (Some path) dir req s;
             Some (reply\<lparr>cr_wcc := \<lparr>before = pre, after = post\<rparr>\<rparr>, s)
           }
     }"

subsection \<open>Removing and renaming\<close>

text \<open>
  REMOVE and RMDIR have the same shape: the local call is made only where the checks pass, the
  iRODS call in any case.
\<close>

definition remove_like ::
  "(path \<Rightarrow> ('w, 'z) nfs_scheme \<Rightarrow> int \<times> ('w, 'z) nfs_scheme) \<Rightarrow> (errno \<Rightarrow> nfsstat3) \<Rightarrow>
   (string \<Rightarrow> rcComm \<Rightarrow> ('w, 'z) nfs_scheme \<Rightarrow> int \<times> ('w, 'z) nfs_scheme) \<Rightarrow>
   'w os \<Rightarrow> 'w rods \<Rightarrow> junk \<Rightarrow> nfs_fh3 \<Rightarrow> string \<Rightarrow> svc_req \<Rightarrow> ('w, 'z) nfs_scheme
   \<Rightarrow> ((nfsstat3 \<times> wcc_data) \<times> ('w, 'z) nfs_scheme) option" where
  "remove_like local_remove err rods_remove os ro jk dir n req s =
     do {
       (p, req, s) \<leftarrow> prep os jk dir req s;
       case p of
         Inl e \<Rightarrow> Some ((e, zero_wcc), s)
       | Inr path \<Rightarrow>
           do {
             let (cn, obj) = cat_name (Some path) n;
             let status = join cn (exports_rw s);
             let obj = getRealPathNFS jk (obj_buf jk obj) req s;
             let (status, s) =
               (if status = NFS3_OK
                then (let s = change_readdir_cookie s;
                          (res, s) = local_remove obj s
                      in if res = -1 then (err (errno s), s) else (status, s))
                else (status, s));
             (comm, s) \<leftarrow> rods_session os ro jk req s;
             (name, s) \<leftarrow> rods_name os jk obj req s;
             let (_, s) = rods_remove name comm s;
             let s = rcDisconnect ro comm s;
             let pre = get_pre_cached s;
             let (post, s) = get_post_stat os (Some path) req s;
             Some ((status, \<lparr>before = pre, after = post\<rparr>), s)
           }
     }"

definition nfsproc3_remove ::
  "'w os \<Rightarrow> 'w rods \<Rightarrow> junk \<Rightarrow> nfs_fh3 \<Rightarrow> string \<Rightarrow> svc_req \<Rightarrow> ('w, 'z) nfs_scheme
   \<Rightarrow> ((nfsstat3 \<times> wcc_data) \<times> ('w, 'z) nfs_scheme) option" where
  "nfsproc3_remove os ro = remove_like (backend_remove os) remove_err (removeObj ro) os ro"

definition nfsproc3_rmdir ::
  "'w os \<Rightarrow> 'w rods \<Rightarrow> junk \<Rightarrow> nfs_fh3 \<Rightarrow> string \<Rightarrow> svc_req \<Rightarrow> ('w, 'z) nfs_scheme
   \<Rightarrow> ((nfsstat3 \<times> wcc_data) \<times> ('w, 'z) nfs_scheme) option" where
  "nfsproc3_rmdir os ro = remove_like (backend_rmdir os) rmdir_err (removeCollection ro) os ro"

record RENAME3res =
  rn_status :: nfsstat3
  rn_from_wcc :: wcc_data
  rn_to_wcc :: wcc_data

definition nfsproc3_rename ::
  "'w os \<Rightarrow> 'w rods \<Rightarrow> junk \<Rightarrow> nfs_fh3 \<Rightarrow> string \<Rightarrow> nfs_fh3 \<Rightarrow> string \<Rightarrow> svc_req \<Rightarrow> ('w, 'z) nfs_scheme
   \<Rightarrow> (RENAME3res \<times> ('w, 'z) nfs_scheme) option" where
  "nfsproc3_rename os ro jk from_dir from_name to_dir to_name req s =
     do {
       (p, req, s) \<leftarrow> prep os jk from_dir req s;
       case p of
         Inl e \<Rightarrow> Some (\<lparr>rn_status = e, rn_from_wcc = zero_wcc, rn_to_wcc = zero_wcc\<rparr>, s)
       | Inr from_path \<Rightarrow>
           do {
             let pre = get_pre_cached s;
             let (cn, from_obj) = cat_name (Some from_path) from_name;
             let status = join cn (exports_rw s);
             let (to_path, s) = fh_decomp os (j_stat jk) to_dir s;
             (status, s) \<leftarrow>
               (if status = NFS3_OK
                then do {
                  let (cn, to_obj) = cat_name to_path to_name;
                  let (ec, s) = exports_compat to_path req s;
                  let status = join cn ec;
                  let from_obj = getRealPathNFS jk (obj_buf jk from_obj) req s;
                  let to_obj = getRealPathNFS jk (obj_buf jk to_obj) req s;
                  if status = NFS3_OK
                  then do {
                    let s = change_readdir_cookie s;
                    (comm, s) \<leftarrow> rods_session os ro jk req s;
                    (from_rods, s) \<leftarrow> rods_name os jk from_obj req s;
                    (to_rods, s) \<leftarrow> rods_name os jk to_obj req s;
                    let (rstatus, s) = renameFile ro to_rods from_rods comm s;
                    let s = rcDisconnect ro comm s;
                    let (res, s) = backend_rename os from_obj to_obj s;
                    if res = -1 \<or> rstatus = -1 then Some (rename_err (errno s), s)
                    else Some (NFS3_OK, s)
                  }
                  else Some (status, s)
                }
                else Some (status, s));
             let (fpost, s) = get_post_attr os (Some from_path) from_dir req s;
             let tpre = get_pre_cached s;
             let (tpost, s) = get_post_stat os to_path req s;
             Some (\<lparr>rn_status = status, rn_from_wcc = \<lparr>before = pre, after = fpost\<rparr>,
                    rn_to_wcc = \<lparr>before = tpre, after = tpost\<rparr>\<rparr>, s)
           }
     }"

subsection \<open>Directories and file systems\<close>

definition nfsproc3_readdir ::
  "'w os \<Rightarrow> 'w rods \<Rightarrow> junk \<Rightarrow> nfs_fh3 \<Rightarrow> uint64 \<Rightarrow> uint32 \<Rightarrow> svc_req \<Rightarrow> ('w, 'z) nfs_scheme
   \<Rightarrow> ((READDIR3res \<times> post_op_attr) \<times> ('w, 'z) nfs_scheme) option" where
  "nfsproc3_readdir os ro jk dir cookie cnt req s =
     do {
       (p, req, s) \<leftarrow> prep os jk dir req s;
       case p of
         Inl e \<Rightarrow> Some ((rd_error e, error_attr), s)
       | Inr path \<Rightarrow>
           do {
             (rodspath, s) \<leftarrow> rods_name os jk path req s;
             let path = getRealPathNFS jk path req s;
             (comm, s) \<leftarrow> rods_session os ro jk req s;
             (_, s) \<leftarrow> listCollection os ro rodspath path comm s;
             let (r, s) = read_dir os path cookie cnt s;
             let (post, s) = get_post_stat os (Some path) req s;
             Some ((r, post), rcDisconnect ro comm s)
           }
     }"

record FSSTAT3res =
  fs_status :: nfsstat3
  fs_attributes :: post_op_attr
  tbytes :: uint64
  fbytes :: uint64
  abytes :: uint64
  tfiles :: uint64
  ffiles :: uint64
  afiles :: uint64
  invarsec :: uint32

definition fs_zero :: "nfsstat3 \<Rightarrow> post_op_attr \<Rightarrow> FSSTAT3res" where
  "fs_zero e post = \<lparr>fs_status = e, fs_attributes = post, tbytes = 0, fbytes = 0, abytes = 0,
     tfiles = 0, ffiles = 0, afiles = 0, invarsec = 0\<rparr>"

definition nfsproc3_fsstat ::
  "'w os \<Rightarrow> junk \<Rightarrow> nfs_fh3 \<Rightarrow> svc_req \<Rightarrow> ('w, 'z) nfs_scheme
   \<Rightarrow> (FSSTAT3res \<times> ('w, 'z) nfs_scheme) option" where
  "nfsproc3_fsstat os jk fsroot req s =
     do {
       (p, req, s) \<leftarrow> prep os jk fsroot req s;
       case p of
         Inl e \<Rightarrow> Some (fs_zero e error_attr, s)
       | Inr path \<Rightarrow>
           (let (post, s) = get_post_cached os req s
            in case backend_statvfs os path s of
                 (None, s) \<Rightarrow>
                   if has_bits (exports_opts s) OPT_REMOVABLE \<and> export_point path s
                   then Some (fs_zero NFS3_OK post, s)
                   else Some (fs_zero NFS3ERR_IO post, s)
               | (Some buf, s) \<Rightarrow>
                   Some (\<lparr>fs_status = NFS3_OK, fs_attributes = post,
                          tbytes = f_blocks buf * f_frsize buf,
                          fbytes = f_bfree buf * f_frsize buf,
                          abytes = f_bavail buf * f_frsize buf,
                          tfiles = f_files buf, ffiles = f_ffree buf, afiles = f_ffree buf,
                          invarsec = 0\<rparr>, s))
     }"

record FSINFO3res =
  fi_status :: nfsstat3
  fi_attributes :: post_op_attr
  rtmax :: uint32
  rtpref :: uint32
  rtmult :: uint32
  wtmax :: uint32
  wtpref :: uint32
  wtmult :: uint32
  dtpref :: uint32
  maxfilesize :: uint64
  time_delta :: nfstime3
  properties :: uint32

definition FSF3_HOMOGENEOUS :: uint32 where "FSF3_HOMOGENEOUS = 0x8"
definition FSF3_CANSETTIME :: uint32 where "FSF3_CANSETTIME = 0x10"

definition nfsproc3_fsinfo ::
  "'w os \<Rightarrow> junk \<Rightarrow> nfs_fh3 \<Rightarrow> svc_req \<Rightarrow> ('w, 'z) nfs_scheme
   \<Rightarrow> (FSINFO3res \<times> ('w, 'z) nfs_scheme) option" where
  "nfsproc3_fsinfo os jk fsroot req s =
     do {
       let maxdata = maxdata_of req;
       (p, req, s) \<leftarrow> prep os jk fsroot req s;
       case p of
         Inl e \<Rightarrow> Some (\<lparr>fi_status = e, fi_attributes = error_attr, rtmax = 0, rtpref = 0, rtmult = 0,
                         wtmax = 0, wtpref = 0, wtmult = 0, dtpref = 0, maxfilesize = 0,
                         time_delta = zero_time, properties = 0\<rparr>, s)
       | Inr path \<Rightarrow>
           (let (post, s) = get_post_cached os req s
            in Some (\<lparr>fi_status = NFS3_OK, fi_attributes = post, rtmax = maxdata, rtpref = maxdata,
                      rtmult = 4096, wtmax = maxdata, wtpref = maxdata, wtmult = 4096, dtpref = 4096,
                      maxfilesize = NOT 0, time_delta = \<lparr>seconds = 1, nseconds = 0\<rparr>,
                      properties = FSF3_HOMOGENEOUS OR FSF3_CANSETTIME\<rparr>, s))
     }"

record PATHCONF3res =
  pc_status :: nfsstat3
  pc_attributes :: post_op_attr
  linkmax :: uint32
  name_max :: uint32
  no_trunc :: bool
  chown_restricted :: bool
  case_insensitive :: bool
  case_preserving :: bool

definition nfsproc3_pathconf ::
  "'w os \<Rightarrow> junk \<Rightarrow> nfs_fh3 \<Rightarrow> svc_req \<Rightarrow> ('w, 'z) nfs_scheme
   \<Rightarrow> (PATHCONF3res \<times> ('w, 'z) nfs_scheme) option" where
  "nfsproc3_pathconf os jk object req s =
     do {
       (p, req, s) \<leftarrow> prep os jk object req s;
       case p of
         Inl e \<Rightarrow> Some (\<lparr>pc_status = e, pc_attributes = error_attr, linkmax = 0, name_max = 0,
                         no_trunc = False, chown_restricted = False, case_insensitive = False,
                         case_preserving = False\<rparr>, s)
       | Inr path \<Rightarrow>
           (let (post, s) = get_post_cached os req s
            in Some (\<lparr>pc_status = NFS3_OK, pc_attributes = post, linkmax = 0xFFFFFFFF,
                      name_max = of_nat NFS_MAXPATHLEN, no_trunc = True, chown_restricted = False,
                      case_insensitive = False, case_preserving = True\<rparr>, s))
     }"

subsection \<open>Procedures that are not supported\<close>

definition nfsproc3_null :: "('w, 'z) nfs_scheme \<Rightarrow> ('w, 'z) nfs_scheme" where "nfsproc3_null s = s"
definition nfsproc3_readlink :: "('w, 'z) nfs_scheme \<Rightarrow> nfsstat3 \<times> ('w, 'z) nfs_scheme" where
  "nfsproc3_readlink s = (NFS3ERR_NOTSUPP, s)"
definition nfsproc3_symlink :: "('w, 'z) nfs_scheme \<Rightarrow> nfsstat3 \<times> ('w, 'z) nfs_scheme" where
  "nfsproc3_symlink s = (NFS3ERR_NOTSUPP, s)"
definition nfsproc3_mknod :: "('w, 'z) nfs_scheme \<Rightarrow> nfsstat3 \<times> ('w, 'z) nfs_scheme" where
  "nfsproc3_mknod s = (NFS3ERR_NOTSUPP, s)"
definition nfsproc3_link :: "('w, 'z) nfs_scheme \<Rightarrow> nfsstat3 \<times> ('w, 'z) nfs_scheme" where
  "nfsproc3_link s = (NFS3ERR_NOTSUPP, s)"
definition nfsproc3_readdirplus :: "('w, 'z) nfs_scheme \<Rightarrow> (nfsstat3 \<times> post_op_attr) \<times> ('w, 'z) nfs_scheme" where
  "nfsproc3_readdirplus s = ((NFS3ERR_NOTSUPP, error_attr), s)"
definition nfsproc3_commit :: "('w, 'z) nfs_scheme \<Rightarrow> nfsstat3 \<times> ('w, 'z) nfs_scheme" where
  "nfsproc3_commit s = (NFS3ERR_NOTSUPP, s)"

end
