(* ===== verification/Nfs_Props.thy ===== *)
theory Nfs_Props
  imports Nfs
begin

text \<open>
  What the NFS procedures guarantee: a handle is resolved only where the export table, the
  password hash of the handle and the client's address allow it, a procedure that changes the tree
  succeeds only on a writable export, names stay inside their directory; and the translation of
  paths for private collections and the verifier of an exclusive CREATE, with where they fail.
\<close>

subsection \<open>Resolution\<close>

lemma switch_to_root_fields:
  "export_list (switch_to_root s) = export_list s" "fhc.more (switch_to_root s) = fhc.more s" for s :: "('w, 'z) fhc_scheme"
  by (rule cred_onlyE [OF switch_to_root_only [of s]]; simp)+

lemma prep_not_ok: "prep os jk f req s = Some (Inl e, req', t) \<Longrightarrow> e \<noteq> NFS3_OK"
  by (auto simp: prep_def Let_def split: if_splits option.splits prod.splits)

text \<open>
  C1: a request is served only if its handle resolves to a path without a parent step, an export of
  the table covers the path and lists the client, and the handle carries the password hash of that
  export; the options in force for the rest of the request are those of that export.
\<close>

theorem prep_safe:
  fixes s :: "('w, 'z) nfs_scheme"
  assumes eq: "prep os jk f req s = Some (Inr p, req', s')"
  shows "\<exists>t it h. fh_decomp os (j_stat jk) f (switch_to_root s) = (Some p, t) \<and>
    best_export p (get_remote req) (export_list s) = Some (it, h) \<and> \<not> sublist ''/../'' p \<and>
    h_options h \<noteq> -1 \<and> fh_pwhash (fh_cast f) = h_password_hash h \<and>
    exports_opts s' = h_options h \<and> export_path s' = Some (i_path it)"
proof -
  obtain po t where d: "fh_decomp os (j_stat jk) f (switch_to_root s) = (po, t)" by fastforce
  obtain r pw fs t2 where o: "exports_options po req t = (r, pw, fs, t2)" by (metis prod_cases4)
  from eq d o have ok: "r \<noteq> -1" "fh_pwhash (fh_cast f) = export_password_hash t2"
    and p: "p = (case po of Some p \<Rightarrow> p | None \<Rightarrow> [])"
    and sw: "switch_user req t2 = (Some req', s')"
    by (auto simp: prep_def Let_def split: if_splits option.splits prod.splits)
  from o ok(1) obtain q where q: "po = Some q"
    by (cases po) (auto simp: exports_options_def Let_def)
  have list: "export_list t = export_list s"
    using fh_decomp_only [OF d] switch_to_root_fields(1) [of s] by (auto elim!: fhc_onlyE)
  have keep: "exports_opts s' = exports_opts t2" "export_path s' = export_path t2"
    using switch_user_exports [OF sw] by auto
  obtain it h where "best_export q (get_remote req) (export_list t) = Some (it, h)"
    "\<not> sublist ''/../'' q" "r = h_options h" "exports_opts t2 = h_options h"
    "export_password_hash t2 = h_password_hash h" "export_path t2 = Some (i_path it)"
    using exports_options_accepted [OF o [unfolded q] ok(1)] by metis
  with d q p list ok keep show ?thesis by auto
qed


subsection \<open>Write access\<close>

text \<open>The request resolves and the export is writable.\<close>

definition admitted :: "'w os \<Rightarrow> junk \<Rightarrow> nfs_fh3 \<Rightarrow> svc_req \<Rightarrow> ('w, 'z) nfs_scheme \<Rightarrow> bool" where
  "admitted os jk f req s \<longleftrightarrow>
     (\<exists>p req' t. prep os jk f req s = Some (Inr p, req', t) \<and> exports_rw t = NFS3_OK)"

lemma admittedI:
  assumes "prep os jk f req s = None \<Longrightarrow> False"
    and "\<And>e req' t. prep os jk f req s = Some (Inl e, req', t) \<Longrightarrow> False"
    and "\<And>p req' t. prep os jk f req s = Some (Inr p, req', t) \<Longrightarrow> exports_rw t \<noteq> NFS3_OK \<Longrightarrow> False"
  shows "admitted os jk f req s"
proof (cases "prep os jk f req s")
  case (Some x)
  then obtain p req' t where x: "prep os jk f req s = Some (p, req', t)" by (cases x) auto
  with assms(2,3) show ?thesis by (cases p) (auto simp: admitted_def)
qed (use assms(1) in simp)

lemma write_admitted:
  assumes eq: "nfsproc3_write os ro jk f off stab data req s = Some (r, s')" and ok: "wr_status r = NFS3_OK"
  shows "admitted os jk f req s"
proof (rule admittedI)
  show False if "prep os jk f req s = None" using eq that by (simp add: nfsproc3_write_def)
  show False if "prep os jk f req s = Some (Inl e, req', t)" for e req' t
    using assms that prep_not_ok [OF that] by (auto simp: nfsproc3_write_def wr_error_def)
  show False if "prep os jk f req s = Some (Inr p, req', t)" "exports_rw t \<noteq> NFS3_OK" for p req' t
    using assms that by (auto simp: nfsproc3_write_def wr_error_def join_def join3_def Let_def bind_eq_Some_conv case_prod_beta
        split: if_splits createhow3.splits)
qed

lemma setattr_admitted:
  assumes eq: "nfsproc3_setattr os ro jk f new guard req s = Some ((NFS3_OK, w), s')"
  shows "admitted os jk f req s"
proof (rule admittedI)
  show False if "prep os jk f req s = None" using eq that by (simp add: nfsproc3_setattr_def)
  show False if "prep os jk f req s = Some (Inl e, req', t)" for e req' t
    using assms that prep_not_ok [OF that] by (auto simp: nfsproc3_setattr_def )
  show False if "prep os jk f req s = Some (Inr p, req', t)" "exports_rw t \<noteq> NFS3_OK" for p req' t
    using assms that by (auto simp: nfsproc3_setattr_def  join_def join3_def Let_def bind_eq_Some_conv case_prod_beta
        split: if_splits createhow3.splits)
qed

lemma mkdir_admitted:
  assumes eq: "nfsproc3_mkdir os ro jk f n attr req s = Some (r, s')" and ok: "cr_status r = NFS3_OK"
  shows "admitted os jk f req s"
proof (rule admittedI)
  show False if "prep os jk f req s = None" using eq that by (simp add: nfsproc3_mkdir_def)
  show False if "prep os jk f req s = Some (Inl e, req', t)" for e req' t
    using assms that prep_not_ok [OF that] by (auto simp: nfsproc3_mkdir_def cr_reply_def)
  show False if "prep os jk f req s = Some (Inr p, req', t)" "exports_rw t \<noteq> NFS3_OK" for p req' t
    using assms that by (auto simp: nfsproc3_mkdir_def cr_reply_def join_def join3_def Let_def bind_eq_Some_conv case_prod_beta
        split: if_splits createhow3.splits)
qed

lemma create_admitted:
  assumes eq: "nfsproc3_create os ro jk f n how req s = Some (r, s')" and ok: "cr_status r = NFS3_OK"
  shows "admitted os jk f req s"
proof (rule admittedI)
  show False if "prep os jk f req s = None" using eq that by (simp add: nfsproc3_create_def)
  show False if "prep os jk f req s = Some (Inl e, req', t)" for e req' t
    using assms that prep_not_ok [OF that] by (auto simp: nfsproc3_create_def cr_reply_def)
  show False if "prep os jk f req s = Some (Inr p, req', t)" "exports_rw t \<noteq> NFS3_OK" for p req' t
    using assms that by (auto simp: nfsproc3_create_def cr_reply_def join_def join3_def Let_def bind_eq_Some_conv case_prod_beta
        split: if_splits createhow3.splits)
qed

lemma remove_like_admitted:
  assumes eq: "remove_like lr err rr os ro jk f n req s = Some ((NFS3_OK, w), s')"
  shows "admitted os jk f req s"
proof (rule admittedI)
  show False if "prep os jk f req s = None" using eq that by (simp add: remove_like_def)
  show False if "prep os jk f req s = Some (Inl e, req', t)" for e req' t
    using assms that prep_not_ok [OF that] by (auto simp: remove_like_def )
  show False if "prep os jk f req s = Some (Inr p, req', t)" "exports_rw t \<noteq> NFS3_OK" for p req' t
    using assms that by (auto simp: remove_like_def  join_def join3_def Let_def bind_eq_Some_conv case_prod_beta
        split: if_splits createhow3.splits)
qed

lemma rename_admitted:
  assumes eq: "nfsproc3_rename os ro jk f n f' n' req s = Some (r, s')" and ok: "rn_status r = NFS3_OK"
  shows "admitted os jk f req s"
proof (rule admittedI)
  show False if "prep os jk f req s = None" using eq that by (simp add: nfsproc3_rename_def)
  show False if "prep os jk f req s = Some (Inl e, req', t)" for e req' t
    using assms that prep_not_ok [OF that] by (auto simp: nfsproc3_rename_def )
  show False if "prep os jk f req s = Some (Inr p, req', t)" "exports_rw t \<noteq> NFS3_OK" for p req' t
    using assms that by (auto simp: nfsproc3_rename_def  join_def join3_def Let_def bind_eq_Some_conv case_prod_beta
        split: if_splits createhow3.splits)
qed

text \<open>
  C11: WRITE, SETATTR, CREATE, MKDIR, REMOVE, RMDIR and RENAME report success only where the handle
  resolves and the export that covers it is writable for the client.
\<close>

theorem mutating_needs_write_access:
  assumes "nfsproc3_write os ro jk f off stab data req s = Some (r, s') \<and> wr_status r = NFS3_OK \<or>
     nfsproc3_setattr os ro jk f new guard req s = Some ((NFS3_OK, w), s') \<or>
     nfsproc3_create os ro jk f n how req s = Some (c, s') \<and> cr_status c = NFS3_OK \<or>
     nfsproc3_mkdir os ro jk f n attr req s = Some (c, s') \<and> cr_status c = NFS3_OK \<or>
     nfsproc3_remove os ro jk f n req s = Some ((NFS3_OK, w), s') \<or>
     nfsproc3_rmdir os ro jk f n req s = Some ((NFS3_OK, w), s') \<or>
     nfsproc3_rename os ro jk f n f' n' req s = Some (q, s') \<and> rn_status q = NFS3_OK"
  shows "\<exists>p req' t. prep os jk f req s = Some (Inr p, req', t) \<and>
    exports_opts t \<noteq> -1 \<and> has_bits (exports_opts t) OPT_RW"
proof -
  have "admitted os jk f req s"
    using assms
    by (elim disjE conjE)
      (auto simp: nfsproc3_remove_def nfsproc3_rmdir_def intro: write_admitted setattr_admitted
        create_admitted mkdir_admitted remove_like_admitted rename_admitted)
  then show ?thesis
    by (auto simp: admitted_def exports_rw_def split: if_splits)
qed

text \<open>
  A successful WRITE reports the stability it was asked for, with data sync raised to file sync,
  and the write verifier in force at its end.
\<close>

lemma write_reply:
  assumes eq: "nfsproc3_write os ro jk f off stab data req s = Some (r, s')" and ok: "wr_status r = NFS3_OK"
  shows "wr_committed r = (if stab = DATA_SYNC then FILE_SYNC else stab) \<and> wr_verf r = wverf s'"
proof -
  have post: "wverf (snd (get_post_stat os po rq t)) = wverf t" for po rq and t :: "('a, 'b) nfs_scheme"
    by (rule sys_only_fdc(4)) (rule get_post_stat_only [OF prod.collapse [symmetric]])
  obtain p req' t where "prep os jk f req s = Some (Inr p, req', t)"
    using write_admitted [OF eq ok] by (auto simp: admitted_def)
  with eq ok show ?thesis
    by (auto simp: nfsproc3_write_def wr_error_def bind_eq_Some_conv Let_def case_prod_beta post
        split: if_splits)
qed

text \<open>
  ACCESS grants every request to read, modify or extend, whoever asks and whatever the mode of the
  file.
\<close>

lemma access_always_grants:
  assumes "nfsproc3_access os ro jk f want req s = Some ((NFS3_OK, granted, post), s')"
  shows "granted AND (ACCESS3_READ OR ACCESS3_MODIFY OR ACCESS3_EXTEND) =
    want AND (ACCESS3_READ OR ACCESS3_MODIFY OR ACCESS3_EXTEND)"
proof -
  let ?b = "ACCESS3_READ OR ACCESS3_MODIFY OR ACCESS3_EXTEND"
  have absorb: "((x OR b) AND want) AND b = want AND b" for x b :: uint32
    by (rule bit_word_eqI) (auto simp: bit_simps)
  have "\<exists>x. access_bits_for p q t = x OR ?b" for p q and t :: "('a, 'b) nfs_scheme"
    unfolding access_bits_for_def Let_def by blast
  then have "(access_bits_for p q t AND want) AND ?b = want AND ?b" for p q and t :: "('a, 'b) nfs_scheme"
    by (metis absorb)
  moreover obtain p req' t where "prep os jk f req s = Some (p, req', t)"
    using assms by (cases "prep os jk f req s") (auto simp: nfsproc3_access_def)
  ultimately show ?thesis
    using assms
    by (cases p) (auto simp: nfsproc3_access_def bind_eq_Some_conv Let_def case_prod_beta
        dest: prep_not_ok)
qed

subsection \<open>The verifier of an exclusive CREATE\<close>

lemma byte_bit_high: "8 \<le> n \<Longrightarrow> \<not> bit (b :: byte) n"
  using bit_imp_le_length [of b n] by auto

lemma signed_small:
  assumes "b < (0x80 :: byte)"
  shows "(signed b :: uint32) = ucast b"
proof -
  have "unat b < 128" using assms by (simp add: word_less_nat_alt)
  then have "\<not> bit (unat b) 7" by (simp add: bit_iff_odd)
  then have top: "\<not> bit b 7" by transfer (simp add: bit_simps bit_nat_iff take_bit_nat_def)
  show ?thesis
  proof (rule bit_word_eqI)
    fix n assume "n < LENGTH(32)"
    consider "n < 7" | "n = 7" | "7 < n" by linarith
    then show "bit (signed b :: uint32) n = bit (ucast b :: uint32) n"
      using top byte_bit_high [of n b] by cases (auto simp: bit_simps min_def)
  qed
qed

lemma verf_half_bytes:
  assumes "4 \<le> length v" and small: "\<forall>b\<in>set v. b < 0x80" and k: "k < 4"
  shows "ucast (drop_bit (8 * k) (word_of_int (verf_half v) :: uint32)) = v ! k"
proof -
  have s: "(signed (v ! i) :: uint32) = ucast (v ! i)" if "i < 4" for i
    using assms that by (intro signed_small) auto
  have w: "(word_of_int (verf_half v) :: uint32) = ucast (v ! 0) OR push_bit 8 (ucast (v ! 1)) OR
      push_bit 16 (ucast (v ! 2)) OR push_bit 24 (ucast (v ! 3))"
    by (simp add: verf_half_def s)
  have "k = 0 \<or> k = 1 \<or> k = 2 \<or> k = 3" using k by auto
  then show ?thesis
    unfolding w by (auto intro!: bit_word_eqI simp: bit_simps byte_bit_high)
qed

lemma verf_half_inject:
  assumes "length v = 4" "length w = 4" "\<forall>b\<in>set v. b < 0x80" "\<forall>b\<in>set w. b < 0x80"
    and "verf_half v = verf_half w"
  shows "v = w"
  using assms by (intro nth_equalityI) (auto simp flip: verf_half_bytes)

lemma verf_half_take: "verf_half (take 4 v) = verf_half v"
  by (simp add: verf_half_def)


text \<open>
  Two different verifiers can be taken for each other: a byte above 127 is sign-extended and covers
  the bytes after it.
\<close>

lemma create_verifier_collision:
  "\<exists>v w. length v = 8 \<and> length w = 8 \<and> v \<noteq> w \<and>
     (\<forall>buf. check_create_verifier buf v = check_create_verifier buf w)"
proof (intro exI conjI)
  show "\<forall>buf. check_create_verifier buf (0xFF # replicate 7 0) = check_create_verifier buf (0xFF # 1 # replicate 6 0)"
    by (simp add: check_create_verifier_def verf_half_def numeral_nat)
qed (simp_all add: numeral_nat)

subsection \<open>Paths of private collections\<close>

text \<open>
  On a private export every path a procedure works on contains the directory of the calling user.
\<close>

lemma real_path_contains_user:
  assumes "\<not> isPublic s"
  shows "sublist (export_root s @ ''/'' @ dec_int (sint (getUID req))) (getRealPathNFS jk p req s)"
  using assms
  by (auto simp: getRealPathNFS_def getNFSDirectory_def concat_str_def strstr_None_iff Let_def)

lemma dec_no_nul: "CHR 0x00 \<notin> set (dec n)"
proof (induction n rule: dec.induct)
  case (1 n)
  have "char_of (48 + d) \<noteq> CHR 0x00" if "d < 10" for d :: nat
  proof
    assume "char_of (48 + d) = CHR 0x00"
    then have "of_char (char_of (48 + d) :: char) = (of_char CHR 0x00 :: nat)" by simp
    with that show False by (simp add: of_char_of)
  qed
  then have "CHR 0x00 \<noteq> char_of (48 + d)" if "d < 10" for d :: nat using that by metis
  from this [of n] this [of "n mod 10"] 1 show ?case by (subst dec.simps) auto
qed

lemma dec_int_no_nul: "CHR 0x00 \<notin> set (dec_int i)"
  by (simp add: dec_int_def dec_no_nul)


text \<open>
  The test for the user's directory is a test for a substring: user 10 reaches the directory of
  user 100.
\<close>

lemma other_user_reached:
  assumes "\<not> isPublic s" and "export_path s = Some root" and "getUID req = 10"
  shows "getRealPathNFS jk (root @ ''/100/secret'') req s = root @ ''/100/secret''"
proof -
  have "dec_int (sint (getUID req)) = ''10''"
    using assms(3) by (simp add: dec_int_def dec.simps char_of_def bit_0)
  moreover have "sublist (root @ ''/10'') (root @ ''/100/secret'')"
    by (rule prefix_imp_sublist) simp
  ultimately show ?thesis
    using assms(1,2)
    by (simp add: getRealPathNFS_def getNFSDirectory_def export_root_def concat_str_def strstr_None_iff Let_def)
qed

end
