(* ===== verification/Frames.thy ===== *)
theory Frames
  imports Nfs_Props
begin

text \<open>
  Frames: which fields of the state each component may change. A call to iRODS or to the operating
  system changes the world and the error number only, the file descriptor cache its own fields,
  the resolution of a handle the stat cache and the handle cache, the lookup of an export what the
  last lookup found.
\<close>

subsection \<open>What the components leave alone\<close>

lemma fd_cache_add_only: "fd_only s (fd_cache_add os fd ufh kind s)"
proof -
  obtain r t where u: "fd_cache_unused os s = (r, t)" by fastforce
  have "fd_only s t" by (rule fd_cache_unused_cases [OF u])
  then show ?thesis
    by (auto simp: fd_cache_add_def u Let_def split: option.splits prod.splits
        dest!: c_time_only intro!: fd_only_steps(1-6) intro: fd_only_steps(7) [rotated])
qed

lemma fd_open_only: "fd_open os p nfh kind caching s = (fd, s') \<Longrightarrow> fd_only s s'"
  by (erule fd_open_cases)
    (auto dest!: fd_cache_del_only sys_only_fd_only intro: fd_only_trans fd_cache_add_only)

lemma fd_close_only: "fd_close os fd kind really s = (r, s') \<Longrightarrow> fd_only s s'"
  unfolding fd_close_def Let_def
  by (auto split: option.splits if_splits prod.splits dest!: fd_cache_del_only backend_only c_time_only
      intro!: fd_only_steps(1) intro: fd_only_trans sys_only_fd_only fd_only_steps(1))

lemma close_inactive_step_only:
  "fd_only s (snd (snd x)) \<Longrightarrow> fd_only s (snd (snd (close_inactive_step os now i x)))"
  by (auto simp: close_inactive_step_def Let_def split: prod.splits
      intro: fd_only_trans fd_cache_del_only [OF prod.collapse [symmetric]])

lemma fd_only_fold: "(\<And>i t. fd_only t (f i t)) \<Longrightarrow> fd_only s (fold f is s)"
proof (induction "is" arbitrary: s)
  case (Cons i "is")
  show ?case using fd_only_trans [OF Cons.prems Cons.IH [OF Cons.prems]] by simp
qed simp

lemma fd_cache_close_inactive_only: "fd_only s (fd_cache_close_inactive os s)"
proof -
  obtain now s1 where t: "c_time os s = (now, s1)" by fastforce
  have s1: "fd_only s s1" by (rule sys_only_fd_only [OF c_time_only [OF t]])
  let ?x = "fold (close_inactive_step os now) [0..<FD_ENTRIES] (False, False, s1)"
  obtain fe ae s2 where x: "?x = (fe, ae, s2)" by (cases ?x)
  have "fd_only s (snd (snd ?x))"
    by (rule fold_invariant [where Q = "\<lambda>i. True"]) (auto simp: s1 intro: close_inactive_step_only)
  then have s2: "fd_only s s2" by (simp add: x)
  let ?f = "\<lambda>i s. if e_use (fd_cache s ! i) \<noteq> 0 \<and> e_fd (fd_cache s ! i) = -1
      then snd (fd_cache_del os i False s) else s"
  have "fd_only s2 (fold ?f [0..<FD_ENTRIES] s2)"
    by (rule fd_only_fold) (simp add: fd_cache_del_only [OF prod.collapse [symmetric]])
  then have "fd_only s (regenerate_write_verifier os (fold ?f [0..<FD_ENTRIES] s2))"
    using fd_only_trans [OF s2] by (intro fd_only_steps(3)) blast
  with s2 show ?thesis by (simp add: fd_cache_close_inactive_def t x)
qed

text \<open>\<open>fh_only s s'\<close>: only the world, the error number, the stat cache and the handle cache.\<close>

definition fh_only :: "('w, 'z) fhc_scheme \<Rightarrow> ('w, 'z) fhc_scheme \<Rightarrow> bool" where
  "fh_only s s' \<longleftrightarrow>
     s' = s\<lparr>world := world s', errno := errno s', st_cache_valid := st_cache_valid s',
            st_cache := st_cache s', fh_cache := fh_cache s', fh_cache_max := fh_cache_max s',
            fh_cache_use := fh_cache_use s', fh_cache_hit := fh_cache_hit s',
            fh_cache_time := fh_cache_time s', fh_last_entry := fh_last_entry s'\<rparr>"

lemma fh_onlyI:
  "s' = s\<lparr>world := w, errno := e, st_cache_valid := v, st_cache := b, fh_cache := c,
          fh_cache_max := m, fh_cache_use := u, fh_cache_hit := h, fh_cache_time := t,
          fh_last_entry := l\<rparr> \<Longrightarrow> fh_only s s'"
  by (simp add: fh_only_def)

lemma fh_onlyE:
  assumes "fh_only s s'"
  obtains w e v b c m u h t l where
    "s' = s\<lparr>world := w, errno := e, st_cache_valid := v, st_cache := b, fh_cache := c,
          fh_cache_max := m, fh_cache_use := u, fh_cache_hit := h, fh_cache_time := t,
          fh_last_entry := l\<rparr>"
  using assms by (auto simp: fh_only_def)

lemma fh_only_trans: "fh_only s s' \<Longrightarrow> fh_only s' s'' \<Longrightarrow> fh_only s s''"
  by (erule fh_onlyE, erule fh_onlyE, rule fh_onlyI) simp

lemma stat_only_fh_only: "stat_only s s' \<Longrightarrow> fh_only s s'"
  by (erule stat_onlyE) (simp add: fh_only_def)

lemma fh_only_refl [simp]: "fh_only s s"
  by (simp add: fh_only_def)

lemma fh_only_updates [simp]:
  "fh_only s (s\<lparr>st_cache_valid := v\<rparr>)" "fh_only s (s\<lparr>st_cache_valid := v, st_cache := b\<rparr>)"
  "fh_only s (s\<lparr>fh_cache_use := u\<rparr>)" "fh_only s (s\<lparr>fh_cache_use := u, fh_cache_hit := h\<rparr>)"
  "fh_only s (fh_cache_inval i s)"
  by (simp_all add: fh_only_def fh_cache_inval_def)

lemma fh_cache_add_fh_only: "fh_cache_add dev ino p s = (q, s') \<Longrightarrow> fh_only s s'"
  by (auto simp: fh_cache_add_def fh_cache_next_def fh_cache_lru_def Let_def fh_only_def
      split: option.splits if_splits)

lemma fh_cache_lookup_fh_only: "fh_cache_lookup os dev ino s = (r, s') \<Longrightarrow> fh_only s s'"
proof -
  have lookup: "fh_only s t" if "backend_lstat os p s = (b, t)" for b t p
    using backend_lstat_stat_only [OF that] by (rule stat_only_fh_only)
  have found: "fh_only t (t\<lparr>fh_cache_time := a, fh_cache := b, st_cache_valid := True, st_cache := c, fh_last_entry := d\<rparr>)"
    for t :: "('a, 'b) fhc_scheme" and a b c d by (simp add: fh_only_def)
  assume "fh_cache_lookup os dev ino s = (r, s')"
  then show ?thesis
    by (auto simp: fh_cache_lookup_def fh_cache_next_def Let_def split: option.splits prod.splits if_splits
        dest!: lookup intro: fh_only_trans found)
qed

lemma fh_decomp_fh_only:
  assumes "fh_decomp os junk fh s = (r, s')"
  shows "fh_only s s'"
proof -
  note use = fh_only_updates(3) [THEN fh_only_trans]
  have valid: "fh_only s t \<Longrightarrow> fh_only s (t\<lparr>st_cache_valid := v\<rparr>)" for t v
    by (erule fh_only_trans) simp
  have hit: "fh_only s t \<Longrightarrow> fh_only s (t\<lparr>fh_cache_use := u, fh_cache_hit := h\<rparr>)" for t u h
    by (erule fh_only_trans) simp
  note calls = fh_cache_lookup_fh_only fh_cache_add_fh_only stat_only_fh_only [OF fh_decomp_raw_stat_only]
    stat_only_fh_only [OF locate_file_stat_only]
  have chain: "fh_only s t1 \<Longrightarrow> fh_only t1 t2 \<Longrightarrow> fh_only t2 t3 \<Longrightarrow> fh_only s t3" for t1 t2 t3
    by (blast intro: fh_only_trans)
  show ?thesis
    using assms
    by (auto simp: fh_decomp_def Let_def split: option.splits prod.splits if_splits
        dest!: calls use intro!: valid hit)
      (blast intro: fh_only_trans chain)+
qed

text \<open>\<open>export_only s s'\<close>: only what the last lookup of an export found.\<close>

definition export_only :: "('w, 'z) expo_scheme \<Rightarrow> ('w, 'z) expo_scheme \<Rightarrow> bool" where
  "export_only s s' \<longleftrightarrow>
    s' = s\<lparr>exports_access := exports_access s', exports_opts := exports_opts s', export_path := export_path s',
       export_fsid := export_fsid s', export_password_hash := export_password_hash s',
       last_anonuid := last_anonuid s', last_anongid := last_anongid s'\<rparr>"

lemma export_onlyE:
  assumes "export_only s s'"
  obtains a o' p f h u g where
    "s' = s\<lparr>exports_access := a, exports_opts := o', export_path := p, export_fsid := f,
       export_password_hash := h, last_anonuid := u, last_anongid := g\<rparr>"
  using assms by (auto simp: export_only_def)

lemma export_only_trans: "export_only s s' \<Longrightarrow> export_only s' s'' \<Longrightarrow> export_only s s''"
  by (erule export_onlyE, erule export_onlyE) (simp add: export_only_def)

lemma exports_options_loop_only:
  "exports_options_loop p r its n pw fsid s = (pw', fsid', s') \<Longrightarrow> export_only s s'"
proof (induction its arbitrary: n pw fsid s)
  case (Cons it its)
  from Cons.prems show ?case
    by (auto split: option.splits if_splits dest!: Cons.IH elim!: export_only_trans [rotated])
      (simp_all add: export_only_def)
qed (simp add: export_only_def)

lemma exports_options_only:
  assumes "exports_options po req s = (a, b, c, s')"
  shows "export_only s s'"
proof -
  let ?r = "s\<lparr>exports_opts := -1, export_path := None, export_fsid := 0,
    last_anonuid := ANON_NOTSPECIAL, last_anongid := ANON_NOTSPECIAL\<rparr>"
  have start: "export_only s ?r" "export_only s (?r\<lparr>exports_access := True\<rparr>)" by (simp_all add: export_only_def)
  have stop: "export_only s (t\<lparr>exports_access := False\<rparr>)" if "export_only s t" for t
    using that by (elim export_onlyE) (simp add: export_only_def)
  show ?thesis
    using assms start
    by (auto simp: exports_options_def Let_def split: option.splits if_splits prod.splits
        dest!: exports_options_loop_only export_only_trans [OF start(2)] intro: stop)
qed

subsection \<open>Results that keep a property\<close>

text \<open>
  \<open>yields Q m\<close>: if \<open>m\<close> delivers a result, it has the property. \<open>good\<close>, \<open>good3\<close> and \<open>good4\<close> are for
  results whose last component is the state.
\<close>

definition yields :: "('a \<Rightarrow> bool) \<Rightarrow> 'a option \<Rightarrow> bool" where
  "yields Q m \<longleftrightarrow> (\<forall>x. m = Some x \<longrightarrow> Q x)"

definition good :: "('s \<Rightarrow> bool) \<Rightarrow> 'a \<times> 's \<Rightarrow> bool" where "good I x \<longleftrightarrow> I (snd x)"
definition good3 :: "('s \<Rightarrow> bool) \<Rightarrow> 'a \<times> 'b \<times> 's \<Rightarrow> bool" where "good3 I x \<longleftrightarrow> I (snd (snd x))"
definition good4 :: "('s \<Rightarrow> bool) \<Rightarrow> 'a \<times> 'b \<times> 'c \<times> 's \<Rightarrow> bool" where
  "good4 I x \<longleftrightarrow> I (snd (snd (snd x)))"

lemma good_simps [simp]:
  "good I (a, s) = I s" "good3 I (a, b, s) = I s" "good4 I (a, b, c, s) = I s"
  by (simp_all add: good_def good3_def good4_def)

lemma goodI: "(\<And>r s'. x = (r, s') \<Longrightarrow> I s') \<Longrightarrow> good I x"
  by (cases x) simp

lemma goodD: "good I x \<Longrightarrow> x = (r, s) \<Longrightarrow> I s"
  by simp

lemma yields_simps [simp]: "yields Q (Some x) = Q x" "yields Q None"
  by (simp_all add: yields_def)

lemma yields_bind: "yields P m \<Longrightarrow> (\<And>x. P x \<Longrightarrow> yields Q (f x)) \<Longrightarrow> yields Q (m \<bind> f)"
  by (auto simp: yields_def bind_eq_Some_conv)

lemma yields_if: "(b \<Longrightarrow> yields Q m) \<Longrightarrow> (\<not> b \<Longrightarrow> yields Q m') \<Longrightarrow> yields Q (if b then m else m')"
  by simp

lemma yields_sum:
  "(\<And>x. z = Inl x \<Longrightarrow> yields Q (f x)) \<Longrightarrow> (\<And>y. z = Inr y \<Longrightarrow> yields Q (g y)) \<Longrightarrow>
     yields Q (case z of Inl x \<Rightarrow> f x | Inr y \<Rightarrow> g y)"
  by (cases z) simp_all

lemma yields_split:
  "good I x \<Longrightarrow> (\<And>a s. I s \<Longrightarrow> yields Q (f a s)) \<Longrightarrow> yields Q (case x of (a, s) \<Rightarrow> f a s)"
  "good3 I y \<Longrightarrow> (\<And>a b s. I s \<Longrightarrow> yields Q (g a b s)) \<Longrightarrow> yields Q (case y of (a, b, s) \<Rightarrow> g a b s)"
  "good4 I z \<Longrightarrow> (\<And>a b c s. I s \<Longrightarrow> yields Q (h a b c s)) \<Longrightarrow> yields Q (case z of (a, b, c, s) \<Rightarrow> h a b c s)"
  by (cases x, simp) (cases y, simp, cases z, simp)

lemma good_split:
  "good I x \<Longrightarrow> (\<And>a s. I s \<Longrightarrow> good I (f a s)) \<Longrightarrow> good I (case x of (a, s) \<Rightarrow> f a s)"
  "good4 I z \<Longrightarrow> (\<And>a b c s. I s \<Longrightarrow> good I (h a b c s)) \<Longrightarrow> good I (case z of (a, b, c, s) \<Rightarrow> h a b c s)"
  "good I x \<Longrightarrow> (\<And>a s. I s \<Longrightarrow> good3 I (k a s)) \<Longrightarrow> good3 I (case x of (a, s) \<Rightarrow> k a s)"
  "good3 I y \<Longrightarrow> (\<And>a b s. I s \<Longrightarrow> good I (g a b s)) \<Longrightarrow> good I (case y of (a, b, s) \<Rightarrow> g a b s)"
  by (cases x, simp, cases z, simp, cases x, simp, cases y, simp)

subsection \<open>What the back end leaves alone\<close>

lemma getUserName_only: "getUserName os j uid s = (r, s') \<Longrightarrow> sys_only s s'"
  by (auto simp: getUserName_def split: if_splits option.splits prod.splits dest: sys_call_only)

lemma rodsConnectProxy_only: "rodsConnectProxy ro u z s = (r, s') \<Longrightarrow> sys_only s s'"
  by (auto simp: rodsConnectProxy_def rodsConnect_def split: if_splits prod.splits dest: rc_only)

lemma rcDisconnect_only: "sys_only s (rcDisconnect ro comm s)"
  unfolding rcDisconnect_def by (rule rc_only [OF prod.collapse [symmetric]])

lemma rodsLogin_only: "rodsLogin ro comm s = (r, s') \<Longrightarrow> sys_only s s'"
  by (auto simp: rodsLogin_def Let_def split: if_splits prod.splits
      dest!: rc_only intro: sys_only_trans rcDisconnect_only)

lemma getRodsPath_only: "getRodsPath os j uid p s = Some (r, s') \<Longrightarrow> sys_only s s'"
  by (auto simp: getRodsPath_def split: if_splits prod.splits dest: getUserName_only)

lemma rods_session_only: "rods_session os ro jk req s = Some (r, s') \<Longrightarrow> sys_only s s'"
  by (auto simp: rods_session_def rodsConnecUser_def bind_eq_Some_conv split: if_splits prod.splits
      dest!: getUserName_only rodsConnectProxy_only intro!: rodsLogin_only [OF prod.collapse [symmetric]]
      elim!: sys_only_trans)

lemma rods_name_only: "rods_name os jk p req s = Some (r, s') \<Longrightarrow> sys_only s s'"
  unfolding rods_name_def by (rule getRodsPath_only)

lemma fileSize_only: "fileSize ro p comm s = (r, s') \<Longrightarrow> sys_only s s'"
  by (auto simp: fileSize_def split: prod.splits dest: rc_only)

lemma iWrite_only: "iWrite ro p d off comm s = (r, s') \<Longrightarrow> sys_only s s'"
  by (auto simp: iWrite_def Let_def split: if_splits prod.splits dest!: rc_only intro: sys_only_trans)

lemma rods_op_only:
  "makeCollection ro p comm rec s = (r, s') \<Longrightarrow> sys_only s s'"
  "removeCollection ro p comm s = (r, s') \<Longrightarrow> sys_only s s'"
  "getFile ro l p v a comm s = (r, s') \<Longrightarrow> sys_only s s'"
  "removeObj ro p comm s = (r, s') \<Longrightarrow> sys_only s s'"
  "createFile ro p comm s2 = (r, s2') \<Longrightarrow> sys_only s2 s2'"
  "renameFile ro p q comm s = (r, s') \<Longrightarrow> sys_only s s'"
  "changeAttr ro p u lev comm s2 = (r, s2') \<Longrightarrow> sys_only s2 s2'"
  unfolding makeCollection_def removeCollection_def getFile_def removeObj_def createFile_def
    renameFile_def changeAttr_def by (erule rc_only)+

lemma set_attr_irods_only: "set_attr_irods ro p new owner comm s = (r, s') \<Longrightarrow> sys_only s s'"
  by (auto simp: set_attr_irods_def Let_def split: if_splits option.splits prod.splits
      dest: rods_op_only(7))

lemma chain: "sys_only s (snd x) \<Longrightarrow> sys_only s0 s \<Longrightarrow> good (sys_only s0) x"
  unfolding good_def by (rule sys_only_trans)

lemma set_steps_fd_only:
  "set_steps (backend_ftruncate os fd) (backend_fchown os fd) (backend_fchmod os fd) buf new s = (r, s') \<Longrightarrow> sys_only s s'"
  by (erule set_steps_only [rotated 3]) (erule backend_only)+

lemmas chains = backend_only [OF prod.collapse [symmetric], THEN chain]
  set_attr_unsafe_only [OF prod.collapse [symmetric], THEN chain]
  set_time_only [OF prod.collapse [symmetric], THEN chain]
  set_steps_fd_only [OF prod.collapse [symmetric], THEN chain]

lemma chain_close: "sys_only s0 s \<Longrightarrow> sys_only s0 (snd (backend_close os fd s))"
  using chains(11) by (auto simp: good_def)

lemma set_attr_only:
  assumes "set_attr os p nfh new s = (r, s')"
  shows "sys_only s s'"
proof -
  have "good (sys_only s) (set_attr os p nfh new s)"
    unfolding set_attr_def Let_def
    by (auto intro!: good_split chains chain_close split: option.splits)
  then show ?thesis using assms by simp
qed

end
