(* ===== verification/Server.thy ===== *)
theory Server
  imports Frames
begin

text \<open>
  What every request keeps. The locale \<open>kept\<close> states what a property of the server's state needs so
  that no procedure breaks it: a law for each group of fields the components change. The lemmas
  show once that every NFS and MOUNT procedure keeps such a property; the interpretations give the
  invariant of the server, and the facts that never change while it runs.
\<close>

subsection \<open>The laws and what follows from them\<close>

locale kept =
  fixes os :: "'w os" and I :: "('w, 'z) nfs_scheme \<Rightarrow> bool"
  assumes sys: "sys_only s s' \<Longrightarrow> I s \<Longrightarrow> I s'"
    and creds: "ruid c = ruid (cred s) \<Longrightarrow> suid c = suid (cred s) \<Longrightarrow> rgid c = rgid (cred s) \<Longrightarrow>
      sgid c = sgid (cred s) \<Longrightarrow> I s \<Longrightarrow> I (s\<lparr>cred := c\<rparr>)"
    and squash: "I s \<Longrightarrow> I (s\<lparr>squash_uid := u, squash_gid := g, can_switch := False\<rparr>)"
    and lookup: "exports_options po req s = (a, pw, fsid, s') \<Longrightarrow> I s \<Longrightarrow> I s'"
    and stats: "stat_only s s' \<Longrightarrow> I s \<Longrightarrow> I s'"
    and resolve: "fh_decomp os junk fh s = (po', s') \<Longrightarrow> I s \<Longrightarrow> I s'"
    and enter: "fh_cache_add dev ino p s = (q, s') \<Longrightarrow> I s \<Longrightarrow> I s'"
    and fdopen: "fd_open os p nfh kind caching s = (fd, s') \<Longrightarrow> I s \<Longrightarrow> I s'"
    and fdclose: "fd_close os fd kind really s = (r, s') \<Longrightarrow> fd \<noteq> -1 \<Longrightarrow> I s \<Longrightarrow> I s'"
    and purge: "I s \<Longrightarrow> I (fd_cache_purge os s)"
    and sweep: "I s \<Longrightarrow> I (fd_cache_close_inactive os s)"
    and cookie: "I s \<Longrightarrow> I (change_readdir_cookie s)"
    and reply: "I s \<Longrightarrow> I (s\<lparr>lookup_obj_attr := oa\<rparr>)"
    and fresh: "I s \<Longrightarrow> I (s\<lparr>nonce := nc\<rparr>)"
    and mount: "I s \<Longrightarrow> I (add_mount p req s)"
    and unmount: "I s \<Longrightarrow> I (remove_mount po req s)"
begin

lemma sys_good: "sys_only s (snd x) \<Longrightarrow> I s \<Longrightarrow> good I x"
  unfolding good_def by (rule sys)

lemma errno: "I s \<Longrightarrow> I (s\<lparr>errno := e\<rparr>)"
  by (rule sys [OF sys_only_errno])

lemma set_cred_kept:
  assumes "\<And>c. co = Some c \<Longrightarrow> ruid c = ruid (cred s) \<and> suid c = suid (cred s) \<and>
      rgid c = rgid (cred s) \<and> sgid c = sgid (cred s)" and "I s"
  shows "good I (set_cred co s)"
proof (cases co)
  case None
  then show ?thesis using errno [OF assms(2)] by (simp add: set_cred_def)
next
  case (Some c)
  then show ?thesis using assms(1) [OF Some] creds [OF _ _ _ _ assms(2)] by (simp add: set_cred_def)
qed

lemma set_ids:
  "I s \<Longrightarrow> good I (backend_seteuid u s)" "I s \<Longrightarrow> good I (backend_setegid u s)"
  "I s \<Longrightarrow> good I (backend_setgroups gs s)"
  unfolding backend_seteuid_def backend_setegid_def backend_setgroups_def
  by (rule set_cred_kept;
      auto simp: posix_seteuid_def posix_setegid_def posix_setgroups_def split: if_splits)+

lemma to_root_ids: "I s \<Longrightarrow> I (to_root_ids s)"
proof -
  assume "I s"
  obtain r s1 where a: "backend_setegid 0 s = (r, s1)" by fastforce
  obtain r' s2 where b: "backend_seteuid 0 s1 = (r', s2)" by fastforce
  have "I s1" using set_ids(2) [OF \<open>I s\<close>, of 0] a by simp
  then have "I s2" using set_ids(1) [of s1 0] b by simp
  then show "I (to_root_ids s)" by (simp add: to_root_ids_def a b)
qed

lemma switches:
  "I s \<Longrightarrow> I (switch_to_root s)" "I s \<Longrightarrow> I (read_executable req b s)"
  "I s \<Longrightarrow> I (read_by_owner req b s)" "I s \<Longrightarrow> I (write_by_owner req b s)"
  by (simp_all add: switch_to_root_def read_executable_def read_by_owner_def write_by_owner_def
      Let_def to_root_ids)


lemma switch_user_kept: "I s \<Longrightarrow> good I (switch_user req s)"
  unfolding switch_user_def switch_groups_def Let_def
  by (auto simp: squash intro!: good_split set_ids to_root_ids)

lemma lookup_good: "I s \<Longrightarrow> good4 I (exports_options po req s)"
  by (cases "exports_options po req s") (auto intro: lookup)

lemma compat_good: "I s \<Longrightarrow> good I (exports_compat po req s)"
  unfolding exports_compat_def Let_def by (auto intro!: good_split lookup_good)

lemmas calls = backend_only [OF prod.collapse [symmetric], THEN sys_good]
  get_post_buf_only [OF prod.collapse [symmetric], THEN sys_good]
  get_post_attr_only [OF prod.collapse [symmetric], THEN sys_good]
  get_post_stat_only [OF prod.collapse [symmetric], THEN sys_good]
  get_post_cached_only [OF prod.collapse [symmetric], THEN sys_good]
  read_dir_only [OF prod.collapse [symmetric], THEN sys_good]
  rc_only [OF prod.collapse [symmetric], THEN sys_good]
  getUserName_only [OF prod.collapse [symmetric], THEN sys_good]
  fileSize_only [OF prod.collapse [symmetric], THEN sys_good]
  iWrite_only [OF prod.collapse [symmetric], THEN sys_good]
  set_attr_only [OF prod.collapse [symmetric], THEN sys_good]
  set_attr_irods_only [OF prod.collapse [symmetric], THEN sys_good]
  rods_op_only [OF prod.collapse [symmetric], THEN sys_good]

lemma stat_goods:
  "backend_lstat os' p s = (r, s') \<Longrightarrow> I s \<Longrightarrow> I s'" "fh_comp_loop os' pre rest inos s = (r', s') \<Longrightarrow> I s \<Longrightarrow> I s'"
  by (rule stats, erule backend_lstat_stat_only, assumption) (rule stats, erule fh_comp_loop_stat_only, assumption)

lemma comp_raw_good: "I s \<Longrightarrow> good I (fh_comp_raw os' p rq nd s)"
  by (rule goodI)
    (auto simp: fh_comp_raw_def Let_def split: option.splits prod.splits if_splits
      dest: lookup stat_goods)

lemma extend_good: "I s \<Longrightarrow> good I (fh_extend os' nfh dev ino gen s)"
  unfolding fh_extend_def Let_def
  by (auto simp: comp_raw_good split: option.splits intro!: good_split)

lemma valid_cache: "I s \<Longrightarrow> I (s\<lparr>st_cache_valid := v\<rparr>)" "I s \<Longrightarrow> I (s\<lparr>st_cache_valid := v, st_cache := b\<rparr>)"
  by (rule stats [rotated], assumption, simp)+

lemma extend_post_good: "I s \<Longrightarrow> good I (fh_extend_post os' nfh dev ino gen s)"
  unfolding fh_extend_post_def by (auto intro!: good_split extend_good)

lemma extend_type_good: "I s \<Longrightarrow> good I (fh_extend_type os' nfh p ty s)"
  unfolding fh_extend_type_def
  by (rule goodI) (auto split: option.splits prod.splits if_splits
      dest: stat_goods goodD [OF extend_post_good, rotated] valid_cache)

lemma comp_good: "I s \<Longrightarrow> good I (fh_comp os' p rq nd s)"
  by (rule goodI) (auto simp: fh_comp_def Let_def split: prod.splits if_splits
      dest: goodD [OF comp_raw_good, rotated] enter [OF prod.collapse [symmetric]])

lemma comp_ptr_good: "I s \<Longrightarrow> good I (fh_comp_ptr os' p rq nd s)"
  unfolding fh_comp_ptr_def Let_def by (auto intro!: good_split comp_good)

lemma steps:
  "I s \<Longrightarrow> good I (fh_decomp os junk fh s)" "I s \<Longrightarrow> good I (fh_cache_add dev ino p s)"
  "I s \<Longrightarrow> good I (fd_open os p nfh kind caching s)"
  "I s \<Longrightarrow> fd \<noteq> -1 \<Longrightarrow> good I (fd_close os fd kind really s)"
  by (blast intro: goodI resolve enter fdopen fdclose)+

lemma prep_good: "I s \<Longrightarrow> yields (good3 I) (prep os jk f req s)"
  unfolding prep_def Let_def
  by (auto intro!: yields_split [where I = I] steps lookup_good switch_user_kept switches yields_if split: option.splits)

lemma session_good: "I s \<Longrightarrow> yields (good I) (rods_session os' ro jk req s)"
  unfolding yields_def by (auto simp: good_def dest: sys [OF rods_session_only])

lemma name_good: "I s \<Longrightarrow> yields (good I) (rods_name os' jk p req s)"
  unfolding yields_def by (auto simp: good_def dest: sys [OF rods_name_only])

lemma path_good: "I s \<Longrightarrow> yields (good I) (getRodsPath os' j uid p s)"
  unfolding yields_def by (auto simp: good_def dest: sys [OF getRodsPath_only])

lemma listing_good: "I s \<Longrightarrow> yields (good I) (listCollection os' ro rp p comm s)"
  unfolding yields_def by (auto simp: good_def dest: sys [OF listCollection_only])

lemma disconnect: "I s \<Longrightarrow> I (rcDisconnect ro comm s)"
  using sys [OF rcDisconnect_only] by blast

lemmas procedure_rules = prep_good session_good name_good path_good listing_good calls disconnect switches
  steps comp_ptr_good extend_good extend_post_good extend_type_good compat_good cookie reply

lemmas binds = yields_bind [where P = "good I"] yields_bind [where P = "good3 I"] yields_bind [where P = "good4 I"]
  yields_bind [where P = I]

lemma snd_kept: "good I x \<Longrightarrow> I (snd x)"
  unfolding good_def .

text \<open>A value that is not the state is only split.\<close>

lemma yields_plain:
  "(\<And>a b. yields Q (f a b)) \<Longrightarrow> yields Q (case x of (a, b :: path option) \<Rightarrow> f a b)"
  "(\<And>a b. yields Q (g a b)) \<Longrightarrow> yields Q (case y of (a, b :: string) \<Rightarrow> g a b)"
  "(\<And>a b. yields Q (h a b z)) \<Longrightarrow> yields Q ((case v of (a, b) \<Rightarrow> h a b) z)"
  by (cases x, simp, cases y, simp, cases v, simp)

lemma create_done_good: "I s \<Longrightarrow> good I (create_done os dir obj buf fd req s)"
  unfolding create_done_def Let_def
  by (auto intro!: good_split procedure_rules enter [OF prod.collapse [symmetric]])

lemma create_opened_good: "I s \<Longrightarrow> good I (create_opened os dir obj how fd req s)"
  unfolding create_opened_def store_create_verifier_def Let_def
  by (auto intro!: good_split procedure_rules create_done_good split: option.splits createhow3.splits)

lemma create_retry_good: "I s \<Longrightarrow> good I (create_retry os dir obj how req s)"
  unfolding create_retry_def Let_def
  by (auto intro!: good_split procedure_rules create_done_good split: option.splits createhow3.splits)

text \<open>The rules that walk through a procedure, one call at a time.\<close>

lemmas walk = binds yields_plain yields_split [where I = I] good_split procedure_rules create_opened_good
  create_retry_good yields_sum yields_if snd_kept

lemma getattr_kept: "I s \<Longrightarrow> yields (good I) (nfsproc3_getattr os ro jk f req s)"
  unfolding nfsproc3_getattr_def Let_def by (auto intro!: walk split: option.splits)

lemma setattr_kept: "I s \<Longrightarrow> yields (good I) (nfsproc3_setattr os ro jk f new guard req s)"
  unfolding nfsproc3_setattr_def Let_def by (auto intro!: walk split: option.splits)

lemma lookup_kept: "I s \<Longrightarrow> yields (good I) (nfsproc3_lookup os ro jk f n req s)"
  unfolding nfsproc3_lookup_def Let_def by (auto intro!: walk split: option.splits)

lemma access_kept: "I s \<Longrightarrow> yields (good I) (nfsproc3_access os ro jk f want req s)"
  unfolding nfsproc3_access_def Let_def by (auto intro!: walk split: option.splits)

lemma read_kept: "I s \<Longrightarrow> yields (good I) (nfsproc3_read os ro jk f off cnt req s)"
  unfolding nfsproc3_read_def Let_def by (auto intro!: walk split: option.splits)

lemma write_kept: "I s \<Longrightarrow> yields (good I) (nfsproc3_write os ro jk f off stab data req s)"
  unfolding nfsproc3_write_def Let_def by (auto intro!: walk split: option.splits)

lemma create_kept: "I s \<Longrightarrow> yields (good I) (nfsproc3_create os ro jk f n how req s)"
  unfolding nfsproc3_create_def Let_def by (auto intro!: walk split: option.splits)

lemma mkdir_kept: "I s \<Longrightarrow> yields (good I) (nfsproc3_mkdir os ro jk f n attr req s)"
  unfolding nfsproc3_mkdir_def Let_def by (auto intro!: walk split: option.splits)

lemma remove_like_kept:
  assumes "\<And>p t. I t \<Longrightarrow> good I (local_remove p t)" "\<And>p c t. I t \<Longrightarrow> good I (rods_remove p c t)" "I s"
  shows "yields (good I) (remove_like local_remove err rods_remove os ro jk f n req s)"
  using assms(3) unfolding remove_like_def Let_def
  by (auto intro!: walk assms(1,2) split: option.splits)

lemma remove_kept: "I s \<Longrightarrow> yields (good I) (nfsproc3_remove os ro jk f n req s)"
  unfolding nfsproc3_remove_def by (rule remove_like_kept) (rule calls, assumption)+

lemma rmdir_kept: "I s \<Longrightarrow> yields (good I) (nfsproc3_rmdir os ro jk f n req s)"
  unfolding nfsproc3_rmdir_def by (rule remove_like_kept) (rule calls, assumption)+

lemma rename_kept: "I s \<Longrightarrow> yields (good I) (nfsproc3_rename os ro jk f n f' n' req s)"
  unfolding nfsproc3_rename_def Let_def by (auto intro!: walk split: option.splits)

lemma fsstat_kept: "I s \<Longrightarrow> yields (good I) (nfsproc3_fsstat os jk f req s)"
  unfolding nfsproc3_fsstat_def Let_def by (auto intro!: walk split: option.splits)

lemma fsinfo_kept: "I s \<Longrightarrow> yields (good I) (nfsproc3_fsinfo os jk f req s)"
  unfolding nfsproc3_fsinfo_def Let_def by (auto intro!: walk split: option.splits)

lemma pathconf_kept: "I s \<Longrightarrow> yields (good I) (nfsproc3_pathconf os jk f req s)"
  unfolding nfsproc3_pathconf_def Let_def by (auto intro!: walk split: option.splits)

lemma readdir_kept: "I s \<Longrightarrow> yields (good I) (nfsproc3_readdir os ro jk f cookie' cnt req s)"
  unfolding nfsproc3_readdir_def Let_def by (auto intro!: walk)

lemma gen_nonce_kept: "I s \<Longrightarrow> good I (gen_nonce acc os s)"
  unfolding gen_nonce_def Let_def by (auto intro!: good_split calls fresh)

lemma mnt_command_kept: "I s \<Longrightarrow> good3 I (mnt_command acc os dpath req s)"
  unfolding mnt_command_def Let_def good3_def case_prod_beta
  by (auto intro: lookup_good [unfolded good4_def] gen_nonce_kept [unfolded good_def])

lemma mnt_kept: "I s \<Longrightarrow> good I (mountproc_mnt acc os p req s)"
  unfolding mountproc_mnt_def Let_def
  by (auto intro!: good_split calls lookup_good gen_nonce_kept mnt_command_kept comp_good mount
      split: option.splits)

lemma umnt_kept: "I s \<Longrightarrow> I (mountproc_umnt os p req s)" "I s \<Longrightarrow> I (mountproc_umntall os req s)"
  by (simp_all add: mountproc_umnt_def mountproc_umntall_def Let_def unmount purge)

end

subsection \<open>The invariant of the server\<close>

text \<open>
  The invariants of the two caches and of the mount list, the form of the directory cookie, and
  the real and saved ids of a daemon started by root, and the lexer's buffer.
\<close>

definition server_inv :: "('w, 'z) nfs_scheme \<Rightarrow> bool" where
  "server_inv s \<longleftrightarrow>
     fhc_inv s \<and> fdc_inv s \<and> mnt_inv s \<and> cookie_base (rcookie s) \<and> root_daemon s \<and>
     buffer_inv (yy_current_buffer s)"

text \<open>The fields the invariant reads.\<close>

lemma server_inv_cong:
  assumes "fh_cache s' = fh_cache s" "fh_cache_max s' = fh_cache_max s" "fd_cache s' = fd_cache s"
    "fd_cache_readers s' = fd_cache_readers s" "fd_cache_writers s' = fd_cache_writers s"
    "mount_list s' = mount_list s" "mount_cnt s' = mount_cnt s" "rcookie s' = rcookie s"
    "ruid (cred s') = ruid (cred s)" "suid (cred s') = suid (cred s)"
    "rgid (cred s') = rgid (cred s)" "sgid (cred s') = sgid (cred s)"
    "yy_current_buffer s' = yy_current_buffer s"
  shows "server_inv s' = server_inv s"
  using assms fhc_cong(1) [of s' s] fdc_inv_cong [of s' s]
  by (simp add: server_inv_def mnt_inv_def root_daemon_def)

lemma server_inv_frames:
  "sys_only s s' \<Longrightarrow> server_inv s' = server_inv s"
  "stat_only s s' \<Longrightarrow> server_inv s' = server_inv s"
  "export_only s s' \<Longrightarrow> server_inv s' = server_inv s"
  by (erule sys_onlyE, rule server_inv_cong, simp_all)
    (erule stat_onlyE, rule server_inv_cong, simp_all,
     erule export_onlyE, rule server_inv_cong, simp_all)

lemma server_inv_fh:
  assumes "fh_only s s'" "server_inv s" "fhc_inv s'"
  shows "server_inv s'"
  using assms fdc_inv_cong [of s' s]
  by (auto simp: server_inv_def mnt_inv_def root_daemon_def elim!: fh_onlyE)

lemma server_inv_fd:
  assumes "fd_only s s'" "server_inv s" "fdc_inv s'"
  shows "server_inv s'"
  using assms fhc_cong(1) [of s' s]
  by (auto simp: server_inv_def mnt_inv_def root_daemon_def elim!: fd_onlyE)

lemma server_inv_unmount: "server_inv s \<Longrightarrow> server_inv (remove_mount po req s)"
  by (simp add: server_inv_def remove_mount_eq)
    (simp add: fhc_inv_def fdc_inv_def mnt_inv_def root_daemon_def)

lemma server_inv_calls:
  assumes "server_inv s"
  shows "fh_decomp os junk fh s = (po, s') \<Longrightarrow> server_inv s'"
    and "fh_cache_add dev ino p s = (q, s') \<Longrightarrow> server_inv s'"
    and "clock_ok os \<Longrightarrow> fd_open os p nfh kind caching s = (fd, s') \<Longrightarrow> server_inv s'"
    and "clock_ok os \<Longrightarrow> fd_close os fd kind really s = (r, s') \<Longrightarrow> fd \<noteq> -1 \<Longrightarrow> server_inv s'"
    and "server_inv (fd_cache_purge os s)" and "server_inv (fd_cache_close_inactive os s)"
proof -
  have inv: "fhc_inv s" "fdc_inv s" using assms by (simp_all add: server_inv_def)
  note fh = server_inv_fh [OF _ assms] and fd = server_inv_fd [OF _ assms]
  show "fh_decomp os junk fh s = (po, s') \<Longrightarrow> server_inv s'"
    by (rule fh) (erule fh_decomp_fh_only, erule fh_decomp_inv [OF inv(1)])
  show "fh_cache_add dev ino p s = (q, s') \<Longrightarrow> server_inv s'"
    using fh_cache_add_inv [OF inv(1), of dev ino p] by (intro fh) (erule fh_cache_add_fh_only, simp)
  show "clock_ok os \<Longrightarrow> fd_open os p nfh kind caching s = (fd, s') \<Longrightarrow> server_inv s'"
    by (rule fd) (erule fd_open_only, erule (1) fd_open_inv [OF _ inv(2)])
  show "clock_ok os \<Longrightarrow> fd_close os fd kind really s = (r, s') \<Longrightarrow> fd \<noteq> -1 \<Longrightarrow> server_inv s'"
    by (rule fd) (erule fd_close_only, erule (2) fd_close_inv [OF _ inv(2)])
  show "server_inv (fd_cache_purge os s)"
    by (rule fd [OF fd_cache_purge_only fd_cache_purge_inv [OF inv(2)]])
  show "server_inv (fd_cache_close_inactive os s)"
    by (rule fd [OF fd_cache_close_inactive_only fd_cache_close_inactive_inv [OF inv(2)]])
qed

lemma server_inv_updates:
  assumes "server_inv s"
  shows "server_inv (s\<lparr>squash_uid := u, squash_gid := g, can_switch := False\<rparr>)"
    and "server_inv (change_readdir_cookie s)" and "server_inv (s\<lparr>lookup_obj_attr := oa\<rparr>)"
    and "server_inv (s\<lparr>nonce := nc\<rparr>)" and "server_inv (add_mount p req s)"
  using assms push_bit_cookie_base
  by (simp_all add: server_inv_def fhc_inv_def fdc_inv_def mnt_inv_def root_daemon_def add_mount_def
      change_readdir_cookie_def Let_def)

lemma server_inv_creds:
  "server_inv s \<Longrightarrow> ruid c = ruid (cred s) \<Longrightarrow> suid c = suid (cred s) \<Longrightarrow> rgid c = rgid (cred s) \<Longrightarrow>
     sgid c = sgid (cred s) \<Longrightarrow> server_inv (s\<lparr>cred := c\<rparr>)"
  using server_inv_cong [of "s\<lparr>cred := c\<rparr>" s] by simp

interpretation inv: kept os "\<lambda>s. clock_ok os \<longrightarrow> server_inv s"
  for os :: "'w os"
  by unfold_locales
    (auto simp: server_inv_frames server_inv_frames(3) [OF exports_options_only] server_inv_updates
      server_inv_creds server_inv_unmount intro: server_inv_calls)

text \<open>What was configured when the daemon started, or read the exports file again.\<close>

definition server_config ::
  "('w, 'z) nfs_scheme \<Rightarrow> e_item list \<times> (path \<times> string list) list \<times> bool \<times> bool \<times> bool \<times> string \<times> bool" where
  "server_config s =
     (export_list s, exports_nfslist s, opt_singleuser s, opt_brute_force s, opt_readable_executables s,
      ZONE s, NFS_RODS_PRIVATE_COLL s)"

lemma server_config_frames:
  "sys_only s s' \<Longrightarrow> server_config s' = server_config s"
  "stat_only s s' \<Longrightarrow> server_config s' = server_config s"
  "export_only s s' \<Longrightarrow> server_config s' = server_config s"
  "fh_only s s' \<Longrightarrow> server_config s' = server_config s"
  "fd_only s s' \<Longrightarrow> server_config s' = server_config s"
  by (auto simp: server_config_def
      elim!: sys_onlyE stat_onlyE export_onlyE fh_onlyE fd_onlyE)

lemma server_config_updates [simp]:
  "server_config (s\<lparr>cred := cr\<rparr>) = server_config s"
  "server_config (s\<lparr>squash_uid := u, squash_gid := g, can_switch := b\<rparr>) = server_config s"
  "server_config (change_readdir_cookie s) = server_config s"
  "server_config (s\<lparr>lookup_obj_attr := oa\<rparr>) = server_config s"
  "server_config (s\<lparr>nonce := nc\<rparr>) = server_config s"
  "server_config (add_mount p req s) = server_config s"
  "server_config (remove_mount po req s) = server_config s"
  by (simp_all add: server_config_def change_readdir_cookie_def Let_def add_mount_def remove_mount_def
      split: prod.splits)

interpretation config: kept os "\<lambda>s. server_config s = c"
  for os :: "'w os" and c
  by unfold_locales
    (simp_all add: server_config_frames server_config_frames(3) [OF exports_options_only]
      server_config_frames(4) [OF fh_decomp_fh_only] server_config_frames(4) [OF fh_cache_add_fh_only]
      server_config_frames(5) [OF fd_open_only] server_config_frames(5) [OF fd_close_only]
      server_config_frames(5) [OF fd_cache_purge_only]
      server_config_frames(5) [OF fd_cache_close_inactive_only])

end
