(* ===== verification/Xdr.thy ===== *)
theory Xdr
  imports Nfs
begin

text \<open>
  \<open>xdr.c\<close>: the external representation of the protocol data. A routine \<open>xdr_T\<close> of the sources
  works in both directions; here it is a record of the two: \<open>encode\<close> appends to the message,
  \<open>decode\<close> takes from the front of it, and \<open>None\<close> is the result \<open>FALSE\<close>. The first part models the
  primitives of the RPC library the sources build on; \<open>xdr_pair\<close> is the sequence of two calls,
  \<open>xdr_conv\<close> the access to the members of a structure, \<open>xdr_union\<close> the \<open>switch\<close> on a discriminant.
\<close>

record 'a xdr =
  encode :: "'a \<Rightarrow> byte list option"
  decode :: "byte list \<Rightarrow> ('a \<times> byte list) option"

subsection \<open>The library's primitives\<close>

definition xdr_void :: "unit xdr" where
  "xdr_void = \<lparr>encode = (\<lambda>_. Some []), decode = (\<lambda>bs. Some ((), bs))\<rparr>"

text \<open>Integers are sent with the most significant byte first.\<close>

definition xdr_word :: "nat \<Rightarrow> 'a::len word xdr" where
  "xdr_word n =
     \<lparr>encode = (\<lambda>w. Some (rev (bytes_le n w))),
      decode = (\<lambda>bs. if length bs < n then None else Some (word_le (rev (take n bs)), drop n bs))\<rparr>"

definition xdr_u_int :: "uint32 xdr" where "xdr_u_int = xdr_word 4"

definition xdr_enum :: "int xdr" where
  "xdr_enum =
     \<lparr>encode = (\<lambda>i. encode xdr_u_int (word_of_int i)),
      decode = (\<lambda>bs. map_option (\<lambda>(w, rest). (sint w, rest)) (decode xdr_u_int bs))\<rparr>"

definition xdr_bool :: "bool xdr" where
  "xdr_bool =
     \<lparr>encode = (\<lambda>b. encode xdr_u_int (if b then 1 else 0)),
      decode = (\<lambda>bs. map_option (\<lambda>(w, rest). (w \<noteq> 0, rest)) (decode xdr_u_int bs))\<rparr>"

text \<open>Bytes are padded to a multiple of four; what the padding holds is not looked at.\<close>

definition pad4 :: "nat \<Rightarrow> nat" where
  "pad4 n = (if n mod 4 = 0 then 0 else 4 - n mod 4)"

definition xdr_opaque :: "nat \<Rightarrow> byte list xdr" where
  "xdr_opaque n =
     \<lparr>encode = (\<lambda>v. if length v = n then Some (v @ replicate (pad4 n) 0) else None),
      decode = (\<lambda>bs. if length bs < n + pad4 n then None
                     else Some (take n bs, drop (n + pad4 n) bs))\<rparr>"

definition xdr_bytes :: "nat \<Rightarrow> byte list xdr" where
  "xdr_bytes maxsize =
     \<lparr>encode = (\<lambda>v. if maxsize < length v then None
                    else case (encode xdr_u_int (of_nat (length v)), encode (xdr_opaque (length v)) v) of
                      (Some a, Some b) \<Rightarrow> Some (a @ b) | _ \<Rightarrow> None),
      decode = (\<lambda>bs. case decode xdr_u_int bs of
                      None \<Rightarrow> None
                    | Some (n, rest) \<Rightarrow> if maxsize < unat n then None else decode (xdr_opaque (unat n)) rest)\<rparr>"

text \<open>
  The receiver of a string gets a C string, which ends at the first NUL. A length of \<open>2 ^ 32 - 1\<close>
  is refused: the size of the buffer would wrap around.
\<close>

definition bytes_string :: "byte list \<Rightarrow> string" where
  "bytes_string bs = map (\<lambda>b. char_of (unat b)) bs"

definition xdr_string :: "nat \<Rightarrow> string xdr" where
  "xdr_string maxsize =
     \<lparr>encode = (\<lambda>v. encode (xdr_bytes (min maxsize (2 ^ 32 - 2))) (string_bytes v)),
      decode = (\<lambda>bs. map_option (\<lambda>(v, rest). (takeWhile (\<lambda>c. c \<noteq> CHR 0x00) (bytes_string v), rest))
                       (decode (xdr_bytes (min maxsize (2 ^ 32 - 2))) bs))\<rparr>"

subsection \<open>Building routines\<close>

definition xdr_pair :: "'a xdr \<Rightarrow> 'b xdr \<Rightarrow> ('a \<times> 'b) xdr" where
  "xdr_pair c d =
     \<lparr>encode = (\<lambda>(x, y). case encode c x of
                  None \<Rightarrow> None
                | Some a \<Rightarrow> (case encode d y of None \<Rightarrow> None | Some b \<Rightarrow> Some (a @ b))),
      decode = (\<lambda>bs. case decode c bs of
                  None \<Rightarrow> None
                | Some (x, bs) \<Rightarrow> map_option (\<lambda>(y, bs). ((x, y), bs)) (decode d bs))\<rparr>"

definition xdr_conv :: "('a \<Rightarrow> 'b option) \<Rightarrow> ('b \<Rightarrow> 'a) \<Rightarrow> 'a xdr \<Rightarrow> 'b xdr" where
  "xdr_conv mk parts c =
     \<lparr>encode = (\<lambda>x. encode c (parts x)),
      decode = (\<lambda>bs. case decode c bs of
                  None \<Rightarrow> None
                | Some (y, bs) \<Rightarrow> map_option (\<lambda>x. (x, bs)) (mk y))\<rparr>"

definition xdr_union :: "'t xdr \<Rightarrow> ('a \<Rightarrow> 't) \<Rightarrow> ('t \<Rightarrow> 'a xdr) \<Rightarrow> 'a xdr" where
  "xdr_union disc tag arm =
     \<lparr>encode = (\<lambda>x. case encode disc (tag x) of
                  None \<Rightarrow> None
                | Some a \<Rightarrow> (case encode (arm (tag x)) x of None \<Rightarrow> None | Some b \<Rightarrow> Some (a @ b))),
      decode = (\<lambda>bs. case decode disc bs of None \<Rightarrow> None | Some (t, bs) \<Rightarrow> decode (arm t) bs)\<rparr>"

text \<open>An arm that returns \<open>FALSE\<close>, and one that holds nothing but a known value.\<close>

definition xdr_false :: "'a xdr" where
  "xdr_false = \<lparr>encode = (\<lambda>_. None), decode = (\<lambda>_. None)\<rparr>"

definition xdr_const :: "'a \<Rightarrow> 'a xdr" where
  "xdr_const x = xdr_conv (\<lambda>_. Some x) (\<lambda>_. ()) xdr_void"

text \<open>A value behind a flag.\<close>

definition xdr_optional :: "'a xdr \<Rightarrow> 'a option xdr" where
  "xdr_optional c =
     xdr_union xdr_bool (\<lambda>x. x \<noteq> None)
       (\<lambda>t. if t then xdr_conv (\<lambda>x. Some (Some x)) the c else xdr_const None)"

text \<open>
  A linked list, each node behind the flag of \<open>xdr_pointer\<close>. Every node takes at least the four
  bytes of its flag, so the length of the message bounds the number of nodes.
\<close>

fun encode_list :: "'a xdr \<Rightarrow> 'a list \<Rightarrow> byte list option" where
  "encode_list c [] = encode xdr_bool False"
| "encode_list c (x # xs) =
     (case (encode xdr_bool True, encode c x, encode_list c xs) of
        (Some a, Some b, Some d) \<Rightarrow> Some (a @ b @ d) | _ \<Rightarrow> None)"

fun decode_list :: "'a xdr \<Rightarrow> nat \<Rightarrow> byte list \<Rightarrow> ('a list \<times> byte list) option" where
  "decode_list c 0 bs = None"
| "decode_list c (Suc n) bs =
     (case decode xdr_bool bs of
        None \<Rightarrow> None
      | Some (False, bs) \<Rightarrow> Some ([], bs)
      | Some (True, bs) \<Rightarrow>
          (case decode c bs of
             None \<Rightarrow> None
           | Some (x, bs) \<Rightarrow> map_option (\<lambda>(xs, bs). (x # xs, bs)) (decode_list c n bs)))"

definition xdr_list :: "'a xdr \<Rightarrow> 'a list xdr" where
  "xdr_list c = \<lparr>encode = encode_list c, decode = (\<lambda>bs. decode_list c (length bs) bs)\<rparr>"

text \<open>A counted array of fixed-size elements.\<close>

fun encode_seq :: "'a xdr \<Rightarrow> 'a list \<Rightarrow> byte list option" where
  "encode_seq c [] = Some []"
| "encode_seq c (x # xs) =
     (case (encode c x, encode_seq c xs) of (Some a, Some b) \<Rightarrow> Some (a @ b) | _ \<Rightarrow> None)"

fun decode_seq :: "'a xdr \<Rightarrow> nat \<Rightarrow> byte list \<Rightarrow> ('a list \<times> byte list) option" where
  "decode_seq c 0 bs = Some ([], bs)"
| "decode_seq c (Suc n) bs =
     (case decode c bs of
        None \<Rightarrow> None
      | Some (x, bs) \<Rightarrow> map_option (\<lambda>(xs, bs). (x # xs, bs)) (decode_seq c n bs))"

definition xdr_array :: "nat \<Rightarrow> 'a xdr \<Rightarrow> 'a list xdr" where
  "xdr_array maxsize c =
     \<lparr>encode = (\<lambda>xs. if maxsize < length xs then None
                     else case encode xdr_u_int (of_nat (length xs)) of
                       None \<Rightarrow> None | Some a \<Rightarrow> map_option (\<lambda>b. a @ b) (encode_seq c xs)),
      decode = (\<lambda>bs. case decode xdr_u_int bs of
                       None \<Rightarrow> None
                     | Some (n, rest) \<Rightarrow> if maxsize < unat n then None else decode_seq c (unat n) rest)\<rparr>"

subsection \<open>What a routine promises\<close>

text \<open>
  The contract of a routine on the values \<open>P\<close>: it encodes each of them, to a multiple of four bytes,
  and takes exactly these bytes from the front of a message to give the value back.
\<close>

locale xdr_routine =
  fixes c :: "'a xdr" and P :: "'a \<Rightarrow> bool"
  assumes faithful: "P x \<Longrightarrow> \<exists>e. encode c x = Some e \<and> 4 dvd length e \<and>
    (\<forall>rest. decode c (e @ rest) = Some (x, rest))"
begin

lemma encodes: "P x \<Longrightarrow> \<exists>e. encode c x = Some e"
  using faithful by blast

lemma aligned: "P x \<Longrightarrow> encode c x = Some e \<Longrightarrow> 4 dvd length e"
  using faithful by fastforce

lemma decodes: "P x \<Longrightarrow> encode c x = Some e \<Longrightarrow> decode c (e @ rest) = Some (x, rest)"
  using faithful by fastforce

text \<open>No encoding is the beginning of another, so a message can be read in one way only.\<close>

lemma prefix_free:
  assumes "P x" "P y" "encode c x = Some e" "encode c y = Some e'" "prefix e e'"
  shows "x = y \<and> e = e'"
proof -
  from assms(5) obtain r where r: "e' = e @ r" by (auto simp: prefix_def)
  from decodes [OF assms(2,4), of "[]"] decodes [OF assms(1,3), of r] r show ?thesis
    using assms by auto
qed

lemma injective: "P x \<Longrightarrow> P y \<Longrightarrow> encode c x = encode c y \<Longrightarrow> x = y"
  using encodes [of x] prefix_free [of x y] by fastforce

end

lemma xdr_routineI:
  assumes "\<And>x. P x \<Longrightarrow> \<exists>e. encode c x = Some e \<and> 4 dvd length e \<and>
    (\<forall>rest. decode c (e @ rest) = Some (x, rest))"
  shows "xdr_routine c P"
  by (rule xdr_routine.intro) (rule assms)

named_theorems xdr_rules \<open>routines that meet their contract\<close>

lemma xdr_void_ok [xdr_rules]: "xdr_routine xdr_void (\<lambda>_. True)"
  by (rule xdr_routineI) (simp add: xdr_void_def)

lemma xdr_word_ok:
  assumes "LENGTH('a::len) \<le> 8 * n" "4 dvd n"
  shows "xdr_routine (xdr_word n :: 'a word xdr) (\<lambda>_. True)"
  using assms by (intro xdr_routineI) (simp add: xdr_word_def)

lemma xdr_u_int_ok [xdr_rules]: "xdr_routine xdr_u_int (\<lambda>_. True)"
  unfolding xdr_u_int_def by (rule xdr_word_ok) simp_all

lemma xdr_u_int_simps:
  "encode xdr_u_int w = Some (rev (bytes_le 4 w))"
  "decode xdr_u_int (rev (bytes_le 4 w) @ rest) = Some (w, rest)"
  by (simp_all add: xdr_u_int_def xdr_word_def)

text \<open>The range of an enumeration constant.\<close>

definition int32 :: "int \<Rightarrow> bool" where "int32 i \<longleftrightarrow> - (2 ^ 31) \<le> i \<and> i < 2 ^ 31"

lemma sint_of_int32: "int32 i \<Longrightarrow> sint (word_of_int i :: uint32) = i"
  by (simp add: int32_def sint_sbintrunc' signed_take_bit_int_eq_self)

lemma xdr_enum_ok [xdr_rules]: "xdr_routine xdr_enum int32"
  by (rule xdr_routineI) (simp add: xdr_enum_def xdr_u_int_simps sint_of_int32)

lemma xdr_bool_ok [xdr_rules]: "xdr_routine xdr_bool (\<lambda>_. True)"
  by (rule xdr_routineI) (auto simp: xdr_bool_def xdr_u_int_simps)

lemma pad4_dvd [simp]: "4 dvd n + pad4 n"
  unfolding pad4_def by presburger

lemma xdr_opaque_ok [xdr_rules]: "xdr_routine (xdr_opaque n) (\<lambda>v. length v = n)"
  by (rule xdr_routineI) (simp add: xdr_opaque_def)

lemma xdr_bytes_ok [xdr_rules]:
  assumes "m < 2 ^ 32"
  shows "xdr_routine (xdr_bytes m) (\<lambda>v. length v \<le> m)"
proof (rule xdr_routineI)
  fix v :: "byte list"
  assume v: "length v \<le> m"
  let ?n = "of_nat (length v) :: uint32"
  have n: "unat ?n = length v" using v assms by (simp add: unat_of_nat take_bit_nat_eq_self)
  from xdr_opaque_ok [of "length v"] obtain e where e: "encode (xdr_opaque (length v)) v = Some e"
    "4 dvd length e" "\<forall>rest. decode (xdr_opaque (length v)) (e @ rest) = Some (v, rest)"
    by (auto dest: xdr_routine.faithful)
  with v n show "\<exists>e. encode (xdr_bytes m) v = Some e \<and> 4 dvd length e \<and>
      (\<forall>rest. decode (xdr_bytes m) (e @ rest) = Some (v, rest))"
    by (simp add: xdr_bytes_def xdr_u_int_simps)
qed

lemma bytes_string_inverse [simp]: "bytes_string (string_bytes s) = s"
proof (induction s)
  case (Cons c s)
  have "unat (of_char c :: byte) = unat (of_nat (of_char c) :: byte)" by (simp only: of_nat_of_char)
  also have "\<dots> = of_char c" by (subst unat_of_nat) simp
  finally have "char_of (unat (of_char c :: byte)) = c" by simp
  with Cons show ?case by (simp add: bytes_string_def string_bytes_def)
qed (simp add: bytes_string_def string_bytes_def)

lemma xdr_string_ok [xdr_rules]:
  "xdr_routine (xdr_string m) (\<lambda>s. length s \<le> m \<and> length s \<le> 2 ^ 32 - 2 \<and> CHR 0x00 \<notin> set s)"
proof (rule xdr_routineI)
  fix s :: string
  let ?m = "min m (2 ^ 32 - 2)"
  assume s: "length s \<le> m \<and> length s \<le> 2 ^ 32 - 2 \<and> CHR 0x00 \<notin> set s"
  have "?m < 2 ^ 32" by (simp add: min_def)
  from xdr_routine.faithful [OF xdr_bytes_ok [OF this], of "string_bytes s"] s
  obtain e where "encode (xdr_bytes ?m) (string_bytes s) = Some e" "4 dvd length e"
      "\<forall>rest. decode (xdr_bytes ?m) (e @ rest) = Some (string_bytes s, rest)"
    by (auto simp: string_bytes_def)
  with s show "\<exists>e. encode (xdr_string m) s = Some e \<and> 4 dvd length e \<and>
      (\<forall>rest. decode (xdr_string m) (e @ rest) = Some (s, rest))"
    by (simp add: xdr_string_def)
qed

lemma xdr_pair_ok [xdr_rules]:
  assumes "xdr_routine c P" "xdr_routine d Q"
  shows "xdr_routine (xdr_pair c d) (\<lambda>(x, y). P x \<and> Q y)"
proof (rule xdr_routineI, clarify)
  fix x y
  assume "P x" "Q y"
  with xdr_routine.faithful [OF assms(1), of x] xdr_routine.faithful [OF assms(2), of y]
  show "\<exists>e. encode (xdr_pair c d) (x, y) = Some e \<and> 4 dvd length e \<and>
      (\<forall>rest. decode (xdr_pair c d) (e @ rest) = Some ((x, y), rest))"
    by (auto simp: xdr_pair_def)
qed

lemma xdr_conv_ok:
  assumes "xdr_routine c P" "\<And>x. Q x \<Longrightarrow> P (parts x) \<and> mk (parts x) = Some x"
  shows "xdr_routine (xdr_conv mk parts c) Q"
proof (rule xdr_routineI)
  fix x
  assume "Q x"
  with xdr_routine.faithful [OF assms(1), of "parts x"] assms(2) [of x]
  show "\<exists>e. encode (xdr_conv mk parts c) x = Some e \<and> 4 dvd length e \<and>
      (\<forall>rest. decode (xdr_conv mk parts c) (e @ rest) = Some (x, rest))"
    by (auto simp: xdr_conv_def)
qed

lemma xdr_union_ok:
  assumes "xdr_routine disc T" "\<And>x. P x \<Longrightarrow> T (tag x)" "\<And>t. xdr_routine (arm t) (\<lambda>x. P x \<and> tag x = t)"
  shows "xdr_routine (xdr_union disc tag arm) P"
proof (rule xdr_routineI)
  fix x
  assume "P x"
  with xdr_routine.faithful [OF assms(1), of "tag x"] xdr_routine.faithful [OF assms(3), of x "tag x"]
    assms(2) [of x]
  show "\<exists>e. encode (xdr_union disc tag arm) x = Some e \<and> 4 dvd length e \<and>
      (\<forall>rest. decode (xdr_union disc tag arm) (e @ rest) = Some (x, rest))"
    by (auto simp: xdr_union_def)
qed

lemma xdr_false_ok: "(\<And>x. \<not> P x) \<Longrightarrow> xdr_routine xdr_false P"
  by (rule xdr_routineI) simp

lemma xdr_const_ok: "(\<And>y. P y \<Longrightarrow> y = x) \<Longrightarrow> xdr_routine (xdr_const x) P"
  unfolding xdr_const_def by (rule xdr_conv_ok [OF xdr_void_ok]) auto

lemma xdr_optional_ok [xdr_rules]:
  assumes "xdr_routine c P"
  shows "xdr_routine (xdr_optional c) (pred_option P)"
  unfolding xdr_optional_def
proof (rule xdr_union_ok [OF xdr_bool_ok])
  fix t
  show "xdr_routine (if t then xdr_conv (\<lambda>x. Some (Some x)) the c else xdr_const None)
      (\<lambda>x. pred_option P x \<and> (x \<noteq> None) = t)"
    using assms by (cases t) (auto intro!: xdr_conv_ok xdr_const_ok simp: pred_option_def)
qed simp

lemma xdr_list_ok [xdr_rules]:
  assumes "xdr_routine c P"
  shows "xdr_routine (xdr_list c) (list_all P)"
proof -
  have node: "\<exists>e. encode xdr_bool b = Some e \<and> length e = 4 \<and> (\<forall>rest. decode xdr_bool (e @ rest) = Some (b, rest))" for b
    by (auto simp: xdr_bool_def xdr_u_int_simps)
  have "\<exists>e. encode_list c xs = Some e \<and> 4 dvd length e \<and> 4 \<le> length e \<and>
      (\<forall>n rest. length e \<le> n \<longrightarrow> decode_list c n (e @ rest) = Some (xs, rest))" if "list_all P xs" for xs
    using that
  proof (induction xs)
    case Nil
    from node [of False] obtain e where e: "encode xdr_bool False = Some e" "length e = 4"
      "\<And>rest. decode xdr_bool (e @ rest) = Some (False, rest)" by blast
    then have "decode_list c n (e @ rest) = Some ([], rest)" if "4 \<le> n" for n rest
      using that by (cases n) simp_all
    with e show ?case by simp
  next
    case (Cons x xs)
    from node [of True] obtain a where a: "encode xdr_bool True = Some a" "length a = 4"
      "\<And>rest. decode xdr_bool (a @ rest) = Some (True, rest)" by blast
    from Cons.prems xdr_routine.faithful [OF assms, of x] obtain b where
      b: "encode c x = Some b" "4 dvd length b" "\<And>rest. decode c (b @ rest) = Some (x, rest)" by auto
    from Cons.IH Cons.prems obtain d where d: "encode_list c xs = Some d" "4 dvd length d"
      "\<And>n rest. length d \<le> n \<Longrightarrow> decode_list c n (d @ rest) = Some (xs, rest)" by auto
    have "decode_list c n ((a @ b @ d) @ rest) = Some (x # xs, rest)" if "length (a @ b @ d) \<le> n" for n rest
      using that a b d by (cases n) simp_all
    with a b d show ?case by simp
  qed
  then show ?thesis
    by (intro xdr_routineI) (force simp: xdr_list_def)
qed

lemma xdr_array_ok [xdr_rules]:
  assumes "xdr_routine c P" "m < 2 ^ 32"
  shows "xdr_routine (xdr_array m c) (\<lambda>xs. length xs \<le> m \<and> list_all P xs)"
proof (rule xdr_routineI)
  fix xs
  assume xs: "length xs \<le> m \<and> list_all P xs"
  have "list_all P ys \<Longrightarrow> \<exists>e. encode_seq c ys = Some e \<and> 4 dvd length e \<and>
      (\<forall>rest. decode_seq c (length ys) (e @ rest) = Some (ys, rest))" for ys
  proof (induction ys)
    case (Cons y ys)
    then show ?case using xdr_routine.faithful [OF assms(1), of y] by auto
  qed simp
  with xs obtain e where "encode_seq c xs = Some e" "4 dvd length e"
    "\<forall>rest. decode_seq c (length xs) (e @ rest) = Some (xs, rest)" by blast
  moreover have "unat (of_nat (length xs) :: uint32) = length xs"
    using xs assms(2) by (simp add: unat_of_nat take_bit_nat_eq_self)
  ultimately show "\<exists>e. encode (xdr_array m c) xs = Some e \<and> 4 dvd length e \<and>
      (\<forall>rest. decode (xdr_array m c) (e @ rest) = Some (xs, rest))"
    using xs by (simp add: xdr_array_def xdr_u_int_simps)
qed

lemma xdr_struct_ok:
  assumes "xdr_routine c P" "\<And>x. mk (parts x) = Some x"
  shows "xdr_routine (xdr_conv mk parts c) (\<lambda>x. P (parts x))"
  by (rule xdr_conv_ok [OF assms(1)]) (simp add: assms(2))

lemma xdr_weaken: "xdr_routine c P \<Longrightarrow> (\<And>x. Q x \<Longrightarrow> P x) \<Longrightarrow> xdr_routine c Q"
  by (rule xdr_routineI) (blast dest: xdr_routine.faithful)

end
