(* ===== verification/Xdr_Nfs.thy ===== *)
theory Xdr_Nfs
  imports Xdr
begin

text \<open>
  \<open>xdr.c\<close>, the routines of the MOUNT and NFS protocols in the order of the source. A structure is
  the tuple of its members, or the record the server computes with; the reply of a procedure is
  the union of its two arms.
\<close>

subsection \<open>Numbers and names\<close>

definition NFS_MAXNAMLEN :: nat where "NFS_MAXNAMLEN = 255"
definition MNTPATHLEN :: nat where "MNTPATHLEN = 1024"
definition MNTNAMLEN :: nat where "MNTNAMLEN = 255"
definition FHSIZE3 :: nat where "FHSIZE3 = 64"
definition UINT_MAX :: nat where "UINT_MAX = 2 ^ 32 - 1"
definition NFS3_COOKIEVERFSIZE :: nat where "NFS3_COOKIEVERFSIZE = 8"
definition NFS3_CREATEVERFSIZE :: nat where "NFS3_CREATEVERFSIZE = 8"
definition NFS3_WRITEVERFSIZE :: nat where "NFS3_WRITEVERFSIZE = 8"

definition xdr_uint32 :: "uint32 xdr" where "xdr_uint32 = xdr_u_int"
definition xdr_uint64 :: "uint64 xdr" where "xdr_uint64 = xdr_word 8"

text \<open>
  Where the library has no 64-bit routine the sources bring their own: eight bytes shifted out of
  the number, and two network words put together.
\<close>

definition ntohl_bytes :: "byte list \<Rightarrow> uint32" where
  "ntohl_bytes bs = word_le (rev bs)"

definition xdr_uint64_own :: "uint64 xdr" where
  "xdr_uint64_own =
     \<lparr>encode = (\<lambda>w. encode (xdr_opaque 8)
         [ucast (drop_bit 56 w AND 0xFF), ucast (drop_bit 48 w AND 0xFF), ucast (drop_bit 40 w AND 0xFF),
          ucast (drop_bit 32 w AND 0xFF), ucast (drop_bit 24 w AND 0xFF), ucast (drop_bit 16 w AND 0xFF),
          ucast (drop_bit 8 w AND 0xFF), ucast (w AND 0xFF)]),
      decode = (\<lambda>bs. map_option (\<lambda>(buf, rest).
         (push_bit 32 (ucast (ntohl_bytes (take 4 buf))) OR ucast (ntohl_bytes (drop 4 buf)), rest))
         (decode (xdr_opaque 8) bs))\<rparr>"

definition xdr_filename :: "string xdr" where "xdr_filename = xdr_string NFS_MAXNAMLEN"
definition xdr_nfspath :: "string xdr" where "xdr_nfspath = xdr_string NFS_MAXPATHLEN"
definition xdr_filename3 :: "string xdr" where "xdr_filename3 = xdr_string UINT_MAX"
definition xdr_nfspath3 :: "string xdr" where "xdr_nfspath3 = xdr_string UINT_MAX"
definition xdr_fileid3 :: "uint64 xdr" where "xdr_fileid3 = xdr_uint64"
definition xdr_cookie3 :: "uint64 xdr" where "xdr_cookie3 = xdr_uint64"
definition xdr_cookieverf3 :: "byte list xdr" where "xdr_cookieverf3 = xdr_opaque NFS3_COOKIEVERFSIZE"
definition xdr_createverf3 :: "byte list xdr" where "xdr_createverf3 = xdr_opaque NFS3_CREATEVERFSIZE"
definition xdr_writeverf3 :: "byte list xdr" where "xdr_writeverf3 = xdr_opaque NFS3_WRITEVERFSIZE"
definition xdr_uid3 :: "uint32 xdr" where "xdr_uid3 = xdr_uint32"
definition xdr_gid3 :: "uint32 xdr" where "xdr_gid3 = xdr_uint32"
definition xdr_size3 :: "uint64 xdr" where "xdr_size3 = xdr_uint64"
definition xdr_offset3 :: "uint64 xdr" where "xdr_offset3 = xdr_uint64"
definition xdr_mode3 :: "uint32 xdr" where "xdr_mode3 = xdr_uint32"
definition xdr_count3 :: "uint32 xdr" where "xdr_count3 = xdr_uint32"

lemmas xdr_numbers = xdr_uint32_def xdr_filename3_def xdr_nfspath3_def xdr_fileid3_def xdr_cookie3_def
  xdr_cookieverf3_def xdr_createverf3_def xdr_writeverf3_def xdr_uid3_def xdr_gid3_def xdr_size3_def
  xdr_offset3_def xdr_mode3_def xdr_count3_def

subsection \<open>The MOUNT protocol\<close>

text \<open>
  The numbers of the status codes. The server only sends a status; reading back a number that is not
  a status fails in the model, where the C variable would hold the bare number.
\<close>

fun mountstat3_code :: "mountstat3 \<Rightarrow> int" where
  "mountstat3_code MNT3_OK = 0"
| "mountstat3_code MNT3ERR_PERM = 1"
| "mountstat3_code MNT3ERR_NOENT = 2"
| "mountstat3_code MNT3ERR_IO = 5"
| "mountstat3_code MNT3ERR_ACCES = 13"
| "mountstat3_code MNT3ERR_NOTDIR = 20"
| "mountstat3_code MNT3ERR_INVAL = 22"
| "mountstat3_code MNT3ERR_NAMETOOLONG = 63"
| "mountstat3_code MNT3ERR_NOTSUPP = 10004"
| "mountstat3_code MNT3ERR_SERVERFAULT = 10006"

definition mountstats :: "mountstat3 list" where
  "mountstats = [MNT3_OK, MNT3ERR_PERM, MNT3ERR_NOENT, MNT3ERR_IO, MNT3ERR_ACCES, MNT3ERR_NOTDIR,
     MNT3ERR_INVAL, MNT3ERR_NAMETOOLONG, MNT3ERR_NOTSUPP, MNT3ERR_SERVERFAULT]"

definition xdr_fhandle3 :: "byte list xdr" where "xdr_fhandle3 = xdr_bytes FHSIZE3"

definition xdr_mountstat3 :: "mountstat3 xdr" where
  "xdr_mountstat3 =
     xdr_conv (\<lambda>i. find (\<lambda>e. mountstat3_code e = i) mountstats) mountstat3_code
     xdr_enum"

definition xdr_mountres3_ok :: "(byte list \<times> int list) xdr" where
  "xdr_mountres3_ok = xdr_pair xdr_fhandle3 (xdr_array (UINT_MAX div 4) xdr_enum)"

datatype mountres3 = Mountinfo "byte list \<times> int list" | Mount_error mountstat3

fun fhs_status :: "mountres3 \<Rightarrow> mountstat3" where
  "fhs_status (Mountinfo x) = MNT3_OK"
| "fhs_status (Mount_error e) = e"

fun mountinfo :: "mountres3 \<Rightarrow> byte list \<times> int list" where
  "mountinfo (Mountinfo x) = x"
| "mountinfo (Mount_error e) = ([], [])"

definition xdr_mountres3 :: "mountres3 xdr" where
  "xdr_mountres3 =
     xdr_union xdr_mountstat3 fhs_status
       (\<lambda>st. if st = MNT3_OK then xdr_conv (\<lambda>x. Some (Mountinfo x)) mountinfo xdr_mountres3_ok
             else xdr_const (Mount_error st))"

definition xdr_dirpath :: "string xdr" where "xdr_dirpath = xdr_string MNTPATHLEN"
definition xdr_name :: "string xdr" where "xdr_name = xdr_string MNTNAMLEN"

definition xdr_mountbody :: "mountbody xdr" where
  "xdr_mountbody =
     xdr_conv (\<lambda>(h, d). Some \<lparr>ml_hostname = h, ml_directory = d\<rparr>) (\<lambda>m. (ml_hostname m, ml_directory m))
       (xdr_pair xdr_name xdr_dirpath)"

definition xdr_mountlist :: "mountbody list xdr" where "xdr_mountlist = xdr_list xdr_mountbody"
definition xdr_groupnode :: "string xdr" where "xdr_groupnode = xdr_name"
definition xdr_groups :: "string list xdr" where "xdr_groups = xdr_list xdr_groupnode"
definition xdr_exportnode :: "(string \<times> string list) xdr" where
  "xdr_exportnode = xdr_pair xdr_dirpath xdr_groups"
definition xdr_exports :: "(string \<times> string list) list xdr" where "xdr_exports = xdr_list xdr_exportnode"

subsection \<open>Attributes\<close>

definition nfsstats :: "nfsstat3 list" where
  "nfsstats = [NFS3_OK, NFS3ERR_PERM, NFS3ERR_NOENT, NFS3ERR_IO, NFS3ERR_NXIO, NFS3ERR_ACCES,
     NFS3ERR_EXIST, NFS3ERR_XDEV, NFS3ERR_NODEV, NFS3ERR_NOTDIR, NFS3ERR_ISDIR, NFS3ERR_INVAL,
     NFS3ERR_FBIG, NFS3ERR_NOSPC, NFS3ERR_ROFS, NFS3ERR_MLINK, NFS3ERR_NAMETOOLONG,
     NFS3ERR_NOTEMPTY, NFS3ERR_DQUOT, NFS3ERR_STALE, NFS3ERR_REMOTE, NFS3ERR_BADHANDLE,
     NFS3ERR_NOT_SYNC, NFS3ERR_BAD_COOKIE, NFS3ERR_NOTSUPP, NFS3ERR_TOOSMALL,
     NFS3ERR_SERVERFAULT, NFS3ERR_BADTYPE, NFS3ERR_JUKEBOX]"

definition xdr_nfsstat3 :: "nfsstat3 xdr" where
  "xdr_nfsstat3 =
     xdr_conv (\<lambda>i. find (\<lambda>e. nfsstat3_code e = i) nfsstats) nfsstat3_code xdr_enum"

fun ftype3_code :: "ftype3 \<Rightarrow> int" where
  "ftype3_code NF3NONE = 0"
| "ftype3_code NF3REG = 1"
| "ftype3_code NF3DIR = 2"
| "ftype3_code NF3BLK = 3"
| "ftype3_code NF3CHR = 4"
| "ftype3_code NF3LNK = 5"
| "ftype3_code NF3SOCK = 6"
| "ftype3_code NF3FIFO = 7"
| "ftype3_code (NF3OTHER i) = i"

definition ftype3_of :: "int \<Rightarrow> ftype3" where
  "ftype3_of i =
     (if i = 0 then NF3NONE else if i = 1 then NF3REG else if i = 2 then NF3DIR
      else if i = 3 then NF3BLK else if i = 4 then NF3CHR else if i = 5 then NF3LNK
      else if i = 6 then NF3SOCK else if i = 7 then NF3FIFO else NF3OTHER i)"

definition xdr_ftype3 :: "ftype3 xdr" where
  "xdr_ftype3 = xdr_conv (\<lambda>i. Some (ftype3_of i)) ftype3_code xdr_enum"

definition xdr_specdata3 :: "specdata3 xdr" where
  "xdr_specdata3 =
     xdr_conv (\<lambda>(a, b). Some \<lparr>specdata1 = a, specdata2 = b\<rparr>) (\<lambda>d. (specdata1 d, specdata2 d))
       (xdr_pair xdr_uint32 xdr_uint32)"

definition xdr_nfs_fh3 :: "nfs_fh3 xdr" where "xdr_nfs_fh3 = xdr_bytes NFS3_FHSIZE"

definition xdr_nfstime3 :: "nfstime3 xdr" where
  "xdr_nfstime3 =
     xdr_conv (\<lambda>(a, b). Some \<lparr>seconds = a, nseconds = b\<rparr>) (\<lambda>t. (seconds t, nseconds t))
       (xdr_pair xdr_uint32 xdr_uint32)"

definition xdr_fattr3 :: "fattr3 xdr" where
  "xdr_fattr3 =
     xdr_conv
       (\<lambda>(ty, mo, nl, u, g, sz, us, rd, fs, fi, at, mt, ct).
          Some \<lparr>fa_type = ty, fa_mode = mo, fa_nlink = nl, fa_uid = u, fa_gid = g, fa_size = sz,
                fa_used = us, fa_rdev = rd, fa_fsid = fs, fa_fileid = fi, fa_atime = at,
                fa_mtime = mt, fa_ctime = ct\<rparr>)
       (\<lambda>a. (fa_type a, fa_mode a, fa_nlink a, fa_uid a, fa_gid a, fa_size a, fa_used a, fa_rdev a,
             fa_fsid a, fa_fileid a, fa_atime a, fa_mtime a, fa_ctime a))
       (xdr_pair xdr_ftype3 (xdr_pair xdr_mode3 (xdr_pair xdr_uint32 (xdr_pair xdr_uid3
         (xdr_pair xdr_gid3 (xdr_pair xdr_size3 (xdr_pair xdr_size3 (xdr_pair xdr_specdata3
         (xdr_pair xdr_uint64 (xdr_pair xdr_fileid3 (xdr_pair xdr_nfstime3
         (xdr_pair xdr_nfstime3 xdr_nfstime3))))))))))))"

text \<open>What a reply carries of the optional attributes: the memory behind a cleared flag is not sent.\<close>

definition sent_attr :: "post_op_attr \<Rightarrow> fattr3 option" where
  "sent_attr p = (if attributes_follow p then Some (attributes p) else None)"

definition xdr_post_op_attr :: "fattr3 option xdr" where "xdr_post_op_attr = xdr_optional xdr_fattr3"

definition xdr_wcc_attr :: "wcc_attr xdr" where
  "xdr_wcc_attr =
     xdr_conv (\<lambda>(s, m, c). Some \<lparr>wcc_size = s, wcc_mtime = m, wcc_ctime = c\<rparr>)
       (\<lambda>w. (wcc_size w, wcc_mtime w, wcc_ctime w))
       (xdr_pair xdr_size3 (xdr_pair xdr_nfstime3 xdr_nfstime3))"

definition xdr_pre_op_attr :: "wcc_attr option xdr" where "xdr_pre_op_attr = xdr_optional xdr_wcc_attr"

type_synonym sent_wcc = "wcc_attr option \<times> fattr3 option"

definition sent_wcc :: "wcc_data \<Rightarrow> sent_wcc" where
  "sent_wcc w = (before w, sent_attr (after w))"

definition xdr_wcc_data :: "sent_wcc xdr" where
  "xdr_wcc_data = xdr_pair xdr_pre_op_attr xdr_post_op_attr"

definition xdr_post_op_fh3 :: "nfs_fh3 option xdr" where "xdr_post_op_fh3 = xdr_optional xdr_nfs_fh3"

definition xdr_time_how :: "int xdr" where "xdr_time_how = xdr_enum"

fun time_how :: "set_time_how \<Rightarrow> int" where
  "time_how DONT_CHANGE = 0"
| "time_how SET_TO_SERVER_TIME = 1"
| "time_how (SET_TO_CLIENT_TIME t) = 2"
| "time_how (TIME_HOW_OTHER i) = i"

fun client_time :: "set_time_how \<Rightarrow> nfstime3" where
  "client_time (SET_TO_CLIENT_TIME t) = t"
| "client_time _ = zero_time"

definition xdr_set_mode3 :: "uint32 option xdr" where "xdr_set_mode3 = xdr_optional xdr_mode3"
definition xdr_set_uid3 :: "uint32 option xdr" where "xdr_set_uid3 = xdr_optional xdr_uid3"
definition xdr_set_gid3 :: "uint32 option xdr" where "xdr_set_gid3 = xdr_optional xdr_gid3"
definition xdr_set_size3 :: "uint64 option xdr" where "xdr_set_size3 = xdr_optional xdr_size3"

definition xdr_set_atime :: "set_time_how xdr" where
  "xdr_set_atime =
     xdr_union xdr_time_how time_how
       (\<lambda>i. if i = 2 then xdr_conv (\<lambda>t. Some (SET_TO_CLIENT_TIME t)) client_time xdr_nfstime3
            else xdr_const (if i = 0 then DONT_CHANGE else if i = 1 then SET_TO_SERVER_TIME
                            else TIME_HOW_OTHER i))"

definition xdr_set_mtime :: "set_time_how xdr" where
  "xdr_set_mtime =
     xdr_union xdr_time_how time_how
       (\<lambda>i. if i = 2 then xdr_conv (\<lambda>t. Some (SET_TO_CLIENT_TIME t)) client_time xdr_nfstime3
            else xdr_const (if i = 0 then DONT_CHANGE else if i = 1 then SET_TO_SERVER_TIME
                            else TIME_HOW_OTHER i))"

definition xdr_sattr3 :: "sattr3 xdr" where
  "xdr_sattr3 =
     xdr_conv
       (\<lambda>(m, u, g, s, a, t). Some \<lparr>set_mode = m, set_uid = u, set_gid = g, set_size = s,
          set_atime = a, set_mtime = t\<rparr>)
       (\<lambda>n. (set_mode n, set_uid n, set_gid n, set_size n, set_atime n, set_mtime n))
       (xdr_pair xdr_set_mode3 (xdr_pair xdr_set_uid3 (xdr_pair xdr_set_gid3
         (xdr_pair xdr_set_size3 (xdr_pair xdr_set_atime xdr_set_mtime)))))"

type_synonym diropargs3 = "nfs_fh3 \<times> string"

definition xdr_diropargs3 :: "diropargs3 xdr" where
  "xdr_diropargs3 = xdr_pair xdr_nfs_fh3 xdr_filename3"

subsection \<open>Arguments and replies\<close>

text \<open>A reply: the arm of \<open>NFS3_OK\<close>, or a failure with the arm of the other status codes.\<close>

datatype ('a, 'b) reply3 = Resok 'a | Resfail nfsstat3 'b

fun reply_status :: "('a, 'b) reply3 \<Rightarrow> nfsstat3" where
  "reply_status (Resok x) = NFS3_OK"
| "reply_status (Resfail e y) = e"

fun the_resok :: "('a, 'b) reply3 \<Rightarrow> 'a" where "the_resok (Resok x) = x"
fun the_resfail :: "('a, 'b) reply3 \<Rightarrow> 'b" where "the_resfail (Resfail e y) = y"

definition xdr_reply3 :: "'a xdr \<Rightarrow> 'b xdr \<Rightarrow> ('a, 'b) reply3 xdr" where
  "xdr_reply3 resok resfail =
     xdr_union xdr_nfsstat3 reply_status
       (\<lambda>st. if st = NFS3_OK then xdr_conv (\<lambda>x. Some (Resok x)) the_resok resok
             else xdr_conv (\<lambda>y. Some (Resfail st y)) the_resfail resfail)"

text \<open>The reply of a procedure whose structure holds both arms.\<close>

definition reply3 :: "nfsstat3 \<Rightarrow> 'a \<Rightarrow> 'b \<Rightarrow> ('a, 'b) reply3" where
  "reply3 st ok fail = (if st = NFS3_OK then Resok ok else Resfail st fail)"

definition xdr_GETATTR3args :: "(nfs_fh3) xdr" where
  "xdr_GETATTR3args = xdr_nfs_fh3"

definition xdr_GETATTR3resok :: "(fattr3) xdr" where
  "xdr_GETATTR3resok = xdr_fattr3"

definition xdr_GETATTR3res :: "(fattr3, unit) reply3 xdr" where
  "xdr_GETATTR3res = xdr_reply3 xdr_GETATTR3resok xdr_void"

definition xdr_sattrguard3 :: "nfstime3 option xdr" where "xdr_sattrguard3 = xdr_optional xdr_nfstime3"

definition xdr_SETATTR3args :: "(nfs_fh3 \<times> sattr3 \<times> nfstime3 option) xdr" where
  "xdr_SETATTR3args = xdr_pair xdr_nfs_fh3 (xdr_pair xdr_sattr3 xdr_sattrguard3)"

definition xdr_SETATTR3resok :: "(sent_wcc) xdr" where
  "xdr_SETATTR3resok = xdr_wcc_data"

definition xdr_SETATTR3resfail :: "(sent_wcc) xdr" where
  "xdr_SETATTR3resfail = xdr_wcc_data"

definition xdr_SETATTR3res :: "(sent_wcc, sent_wcc) reply3 xdr" where
  "xdr_SETATTR3res = xdr_reply3 xdr_SETATTR3resok xdr_SETATTR3resfail"

definition xdr_LOOKUP3args :: "(diropargs3) xdr" where
  "xdr_LOOKUP3args = xdr_diropargs3"

definition xdr_LOOKUP3resok :: "(nfs_fh3 \<times> fattr3 option \<times> fattr3 option) xdr" where
  "xdr_LOOKUP3resok = xdr_pair xdr_nfs_fh3 (xdr_pair xdr_post_op_attr xdr_post_op_attr)"

definition xdr_LOOKUP3resfail :: "(fattr3 option) xdr" where
  "xdr_LOOKUP3resfail = xdr_post_op_attr"

definition xdr_LOOKUP3res :: "(nfs_fh3 \<times> fattr3 option \<times> fattr3 option, fattr3 option) reply3 xdr" where
  "xdr_LOOKUP3res = xdr_reply3 xdr_LOOKUP3resok xdr_LOOKUP3resfail"

definition xdr_ACCESS3args :: "(nfs_fh3 \<times> uint32) xdr" where
  "xdr_ACCESS3args = xdr_pair xdr_nfs_fh3 xdr_uint32"

definition xdr_ACCESS3resok :: "(fattr3 option \<times> uint32) xdr" where
  "xdr_ACCESS3resok = xdr_pair xdr_post_op_attr xdr_uint32"

definition xdr_ACCESS3resfail :: "(fattr3 option) xdr" where
  "xdr_ACCESS3resfail = xdr_post_op_attr"

definition xdr_ACCESS3res :: "(fattr3 option \<times> uint32, fattr3 option) reply3 xdr" where
  "xdr_ACCESS3res = xdr_reply3 xdr_ACCESS3resok xdr_ACCESS3resfail"

definition xdr_READLINK3args :: "(nfs_fh3) xdr" where
  "xdr_READLINK3args = xdr_nfs_fh3"

definition xdr_READLINK3resok :: "(fattr3 option \<times> string) xdr" where
  "xdr_READLINK3resok = xdr_pair xdr_post_op_attr xdr_nfspath3"

definition xdr_READLINK3resfail :: "(fattr3 option) xdr" where
  "xdr_READLINK3resfail = xdr_post_op_attr"

definition xdr_READLINK3res :: "(fattr3 option \<times> string, fattr3 option) reply3 xdr" where
  "xdr_READLINK3res = xdr_reply3 xdr_READLINK3resok xdr_READLINK3resfail"

definition xdr_READ3args :: "(nfs_fh3 \<times> uint64 \<times> uint32) xdr" where
  "xdr_READ3args = xdr_pair xdr_nfs_fh3 (xdr_pair xdr_offset3 xdr_count3)"

definition xdr_READ3resok :: "(fattr3 option \<times> uint32 \<times> bool \<times> byte list) xdr" where
  "xdr_READ3resok =
     xdr_pair xdr_post_op_attr (xdr_pair xdr_count3 (xdr_pair xdr_bool (xdr_bytes UINT_MAX)))"

definition xdr_READ3resfail :: "(fattr3 option) xdr" where
  "xdr_READ3resfail = xdr_post_op_attr"

definition xdr_READ3res :: "(fattr3 option \<times> uint32 \<times> bool \<times> byte list, fattr3 option) reply3 xdr" where
  "xdr_READ3res = xdr_reply3 xdr_READ3resok xdr_READ3resfail"

fun stable_code :: "stable_how \<Rightarrow> int" where
  "stable_code UNSTABLE = 0"
| "stable_code DATA_SYNC = 1"
| "stable_code FILE_SYNC = 2"
| "stable_code (STABLE_HOW_OTHER i) = i"

definition stable_of :: "int \<Rightarrow> stable_how" where
  "stable_of i = (if i = 0 then UNSTABLE else if i = 1 then DATA_SYNC else if i = 2 then FILE_SYNC
     else STABLE_HOW_OTHER i)"

definition xdr_stable_how :: "stable_how xdr" where
  "xdr_stable_how = xdr_conv (\<lambda>i. Some (stable_of i)) stable_code xdr_enum"

definition xdr_WRITE3args :: "(nfs_fh3 \<times> uint64 \<times> uint32 \<times> stable_how \<times> byte list) xdr" where
  "xdr_WRITE3args =
     xdr_pair xdr_nfs_fh3 (xdr_pair xdr_offset3 (xdr_pair xdr_count3 (xdr_pair xdr_stable_how
     (xdr_bytes UINT_MAX))))"

definition xdr_WRITE3resok :: "(sent_wcc \<times> uint32 \<times> stable_how \<times> byte list) xdr" where
  "xdr_WRITE3resok =
     xdr_pair xdr_wcc_data (xdr_pair xdr_count3 (xdr_pair xdr_stable_how xdr_writeverf3))"

definition xdr_WRITE3resfail :: "(sent_wcc) xdr" where
  "xdr_WRITE3resfail = xdr_wcc_data"

definition xdr_WRITE3res :: "(sent_wcc \<times> uint32 \<times> stable_how \<times> byte list, sent_wcc) reply3 xdr" where
  "xdr_WRITE3res = xdr_reply3 xdr_WRITE3resok xdr_WRITE3resfail"

definition xdr_createmode3 :: "int xdr" where "xdr_createmode3 = xdr_enum"

fun createmode :: "createhow3 \<Rightarrow> int" where
  "createmode (UNCHECKED a) = 0"
| "createmode (GUARDED a) = 1"
| "createmode (EXCLUSIVE v) = 2"

fun create_attributes :: "createhow3 \<Rightarrow> sattr3" where
  "create_attributes (UNCHECKED a) = a"
| "create_attributes (GUARDED a) = a"

fun create_verf :: "createhow3 \<Rightarrow> byte list" where
  "create_verf (EXCLUSIVE v) = v"

definition xdr_createhow3 :: "createhow3 xdr" where
  "xdr_createhow3 =
     xdr_union xdr_createmode3 createmode
       (\<lambda>i. if i = 0 then xdr_conv (\<lambda>a. Some (UNCHECKED a)) create_attributes xdr_sattr3
            else if i = 1 then xdr_conv (\<lambda>a. Some (GUARDED a)) create_attributes xdr_sattr3
            else if i = 2 then xdr_conv (\<lambda>v. Some (EXCLUSIVE v)) create_verf xdr_createverf3
            else xdr_false)"

definition xdr_CREATE3args :: "(diropargs3 \<times> createhow3) xdr" where
  "xdr_CREATE3args = xdr_pair xdr_diropargs3 xdr_createhow3"

definition xdr_CREATE3resok :: "(nfs_fh3 option \<times> fattr3 option \<times> sent_wcc) xdr" where
  "xdr_CREATE3resok = xdr_pair xdr_post_op_fh3 (xdr_pair xdr_post_op_attr xdr_wcc_data)"

definition xdr_CREATE3resfail :: "(sent_wcc) xdr" where
  "xdr_CREATE3resfail = xdr_wcc_data"

definition xdr_CREATE3res :: "(nfs_fh3 option \<times> fattr3 option \<times> sent_wcc, sent_wcc) reply3 xdr" where
  "xdr_CREATE3res = xdr_reply3 xdr_CREATE3resok xdr_CREATE3resfail"

definition xdr_MKDIR3args :: "(diropargs3 \<times> sattr3) xdr" where
  "xdr_MKDIR3args = xdr_pair xdr_diropargs3 xdr_sattr3"

definition xdr_MKDIR3resok :: "(nfs_fh3 option \<times> fattr3 option \<times> sent_wcc) xdr" where
  "xdr_MKDIR3resok = xdr_pair xdr_post_op_fh3 (xdr_pair xdr_post_op_attr xdr_wcc_data)"

definition xdr_MKDIR3resfail :: "(sent_wcc) xdr" where
  "xdr_MKDIR3resfail = xdr_wcc_data"

definition xdr_MKDIR3res :: "(nfs_fh3 option \<times> fattr3 option \<times> sent_wcc, sent_wcc) reply3 xdr" where
  "xdr_MKDIR3res = xdr_reply3 xdr_MKDIR3resok xdr_MKDIR3resfail"

definition xdr_symlinkdata3 :: "(sattr3 \<times> string) xdr" where
  "xdr_symlinkdata3 = xdr_pair xdr_sattr3 xdr_nfspath3"

definition xdr_SYMLINK3args :: "(diropargs3 \<times> sattr3 \<times> string) xdr" where
  "xdr_SYMLINK3args = xdr_pair xdr_diropargs3 xdr_symlinkdata3"

definition xdr_SYMLINK3resok :: "(nfs_fh3 option \<times> fattr3 option \<times> sent_wcc) xdr" where
  "xdr_SYMLINK3resok = xdr_pair xdr_post_op_fh3 (xdr_pair xdr_post_op_attr xdr_wcc_data)"

definition xdr_SYMLINK3resfail :: "(sent_wcc) xdr" where
  "xdr_SYMLINK3resfail = xdr_wcc_data"

definition xdr_SYMLINK3res :: "(nfs_fh3 option \<times> fattr3 option \<times> sent_wcc, sent_wcc) reply3 xdr" where
  "xdr_SYMLINK3res = xdr_reply3 xdr_SYMLINK3resok xdr_SYMLINK3resfail"

datatype mknoddata3 = Mk_device ftype3 "sattr3 \<times> specdata3" | Mk_pipe ftype3 sattr3 | Mk_other ftype3

fun mk_type :: "mknoddata3 \<Rightarrow> ftype3" where
  "mk_type (Mk_device t d) = t"
| "mk_type (Mk_pipe t a) = t"
| "mk_type (Mk_other t) = t"

fun mk_device :: "mknoddata3 \<Rightarrow> sattr3 \<times> specdata3" where "mk_device (Mk_device t d) = d"
fun mk_pipe :: "mknoddata3 \<Rightarrow> sattr3" where "mk_pipe (Mk_pipe t a) = a"

definition xdr_devicedata3 :: "(sattr3 \<times> specdata3) xdr" where
  "xdr_devicedata3 = xdr_pair xdr_sattr3 xdr_specdata3"

definition xdr_mknoddata3 :: "mknoddata3 xdr" where
  "xdr_mknoddata3 =
     xdr_union xdr_ftype3 mk_type
       (\<lambda>t. if t = NF3CHR \<or> t = NF3BLK then xdr_conv (\<lambda>d. Some (Mk_device t d)) mk_device xdr_devicedata3
            else if t = NF3SOCK \<or> t = NF3FIFO then xdr_conv (\<lambda>a. Some (Mk_pipe t a)) mk_pipe xdr_sattr3
            else xdr_const (Mk_other t))"

definition xdr_MKNOD3args :: "(diropargs3 \<times> mknoddata3) xdr" where
  "xdr_MKNOD3args = xdr_pair xdr_diropargs3 xdr_mknoddata3"

definition xdr_MKNOD3resok :: "(nfs_fh3 option \<times> fattr3 option \<times> sent_wcc) xdr" where
  "xdr_MKNOD3resok = xdr_pair xdr_post_op_fh3 (xdr_pair xdr_post_op_attr xdr_wcc_data)"

definition xdr_MKNOD3resfail :: "(sent_wcc) xdr" where
  "xdr_MKNOD3resfail = xdr_wcc_data"

definition xdr_MKNOD3res :: "(nfs_fh3 option \<times> fattr3 option \<times> sent_wcc, sent_wcc) reply3 xdr" where
  "xdr_MKNOD3res = xdr_reply3 xdr_MKNOD3resok xdr_MKNOD3resfail"

definition xdr_REMOVE3args :: "(diropargs3) xdr" where
  "xdr_REMOVE3args = xdr_diropargs3"

definition xdr_REMOVE3resok :: "(sent_wcc) xdr" where
  "xdr_REMOVE3resok = xdr_wcc_data"

definition xdr_REMOVE3resfail :: "(sent_wcc) xdr" where
  "xdr_REMOVE3resfail = xdr_wcc_data"

definition xdr_REMOVE3res :: "(sent_wcc, sent_wcc) reply3 xdr" where
  "xdr_REMOVE3res = xdr_reply3 xdr_REMOVE3resok xdr_REMOVE3resfail"

definition xdr_RMDIR3args :: "(diropargs3) xdr" where
  "xdr_RMDIR3args = xdr_diropargs3"

definition xdr_RMDIR3resok :: "(sent_wcc) xdr" where
  "xdr_RMDIR3resok = xdr_wcc_data"

definition xdr_RMDIR3resfail :: "(sent_wcc) xdr" where
  "xdr_RMDIR3resfail = xdr_wcc_data"

definition xdr_RMDIR3res :: "(sent_wcc, sent_wcc) reply3 xdr" where
  "xdr_RMDIR3res = xdr_reply3 xdr_RMDIR3resok xdr_RMDIR3resfail"

definition xdr_RENAME3args :: "(diropargs3 \<times> diropargs3) xdr" where
  "xdr_RENAME3args = xdr_pair xdr_diropargs3 xdr_diropargs3"

definition xdr_RENAME3resok :: "(sent_wcc \<times> sent_wcc) xdr" where
  "xdr_RENAME3resok = xdr_pair xdr_wcc_data xdr_wcc_data"

definition xdr_RENAME3resfail :: "(sent_wcc \<times> sent_wcc) xdr" where
  "xdr_RENAME3resfail = xdr_pair xdr_wcc_data xdr_wcc_data"

definition xdr_RENAME3res :: "(sent_wcc \<times> sent_wcc, sent_wcc \<times> sent_wcc) reply3 xdr" where
  "xdr_RENAME3res = xdr_reply3 xdr_RENAME3resok xdr_RENAME3resfail"

definition xdr_LINK3args :: "(nfs_fh3 \<times> diropargs3) xdr" where
  "xdr_LINK3args = xdr_pair xdr_nfs_fh3 xdr_diropargs3"

definition xdr_LINK3resok :: "(fattr3 option \<times> sent_wcc) xdr" where
  "xdr_LINK3resok = xdr_pair xdr_post_op_attr xdr_wcc_data"

definition xdr_LINK3resfail :: "(fattr3 option \<times> sent_wcc) xdr" where
  "xdr_LINK3resfail = xdr_pair xdr_post_op_attr xdr_wcc_data"

definition xdr_LINK3res :: "(fattr3 option \<times> sent_wcc, fattr3 option \<times> sent_wcc) reply3 xdr" where
  "xdr_LINK3res = xdr_reply3 xdr_LINK3resok xdr_LINK3resfail"

definition xdr_entry3 :: "entry3 xdr" where
  "xdr_entry3 =
     xdr_conv (\<lambda>(f, n, c). Some \<lparr>ent_fileid = f, ent_name = n, ent_cookie = c\<rparr>)
       (\<lambda>e. (ent_fileid e, ent_name e, ent_cookie e))
       (xdr_pair xdr_fileid3 (xdr_pair xdr_filename3 xdr_cookie3))"

definition xdr_dirlist3 :: "(entry3 list \<times> bool) xdr" where
  "xdr_dirlist3 = xdr_pair (xdr_list xdr_entry3) xdr_bool"

definition xdr_READDIR3args :: "(nfs_fh3 \<times> uint64 \<times> byte list \<times> uint32) xdr" where
  "xdr_READDIR3args = xdr_pair xdr_nfs_fh3 (xdr_pair xdr_cookie3 (xdr_pair xdr_cookieverf3 xdr_count3))"

definition xdr_READDIR3resok :: "(fattr3 option \<times> byte list \<times> entry3 list \<times> bool) xdr" where
  "xdr_READDIR3resok = xdr_pair xdr_post_op_attr (xdr_pair xdr_cookieverf3 xdr_dirlist3)"

definition xdr_READDIR3resfail :: "(fattr3 option) xdr" where
  "xdr_READDIR3resfail = xdr_post_op_attr"

definition xdr_READDIR3res :: "(fattr3 option \<times> byte list \<times> entry3 list \<times> bool, fattr3 option) reply3 xdr" where
  "xdr_READDIR3res = xdr_reply3 xdr_READDIR3resok xdr_READDIR3resfail"

type_synonym entryplus3 = "uint64 \<times> string \<times> uint64 \<times> fattr3 option \<times> nfs_fh3 option"

definition xdr_entryplus3 :: "entryplus3 xdr" where
  "xdr_entryplus3 =
     xdr_pair xdr_fileid3 (xdr_pair xdr_filename3 (xdr_pair xdr_cookie3
       (xdr_pair xdr_post_op_attr xdr_post_op_fh3)))"

definition xdr_dirlistplus3 :: "(entryplus3 list \<times> bool) xdr" where
  "xdr_dirlistplus3 = xdr_pair (xdr_list xdr_entryplus3) xdr_bool"

definition xdr_READDIRPLUS3args :: "(nfs_fh3 \<times> uint64 \<times> byte list \<times> uint32 \<times> uint32) xdr" where
  "xdr_READDIRPLUS3args =
     xdr_pair xdr_nfs_fh3 (xdr_pair xdr_cookie3 (xdr_pair xdr_cookieverf3 (xdr_pair xdr_count3
     xdr_count3)))"

definition xdr_READDIRPLUS3resok :: "(fattr3 option \<times> byte list \<times> entryplus3 list \<times> bool) xdr" where
  "xdr_READDIRPLUS3resok = xdr_pair xdr_post_op_attr (xdr_pair xdr_cookieverf3 xdr_dirlistplus3)"

definition xdr_READDIRPLUS3resfail :: "(fattr3 option) xdr" where
  "xdr_READDIRPLUS3resfail = xdr_post_op_attr"

definition xdr_READDIRPLUS3res :: "(fattr3 option \<times> byte list \<times> entryplus3 list \<times> bool, fattr3 option) reply3 xdr" where
  "xdr_READDIRPLUS3res = xdr_reply3 xdr_READDIRPLUS3resok xdr_READDIRPLUS3resfail"

definition xdr_FSSTAT3args :: "(nfs_fh3) xdr" where
  "xdr_FSSTAT3args = xdr_nfs_fh3"

definition xdr_FSSTAT3resok :: "(fattr3 option \<times> uint64 \<times> uint64 \<times> uint64 \<times> uint64 \<times> uint64 \<times> uint64 \<times> uint32) xdr" where
  "xdr_FSSTAT3resok =
     xdr_pair xdr_post_op_attr (xdr_pair xdr_size3 (xdr_pair xdr_size3 (xdr_pair xdr_size3 (xdr_pair
     xdr_size3 (xdr_pair xdr_size3 (xdr_pair xdr_size3 xdr_uint32))))))"

definition xdr_FSSTAT3resfail :: "(fattr3 option) xdr" where
  "xdr_FSSTAT3resfail = xdr_post_op_attr"

definition xdr_FSSTAT3res :: "(fattr3 option \<times> uint64 \<times> uint64 \<times> uint64 \<times> uint64 \<times> uint64 \<times> uint64 \<times> uint32, fattr3 option) reply3 xdr" where
  "xdr_FSSTAT3res = xdr_reply3 xdr_FSSTAT3resok xdr_FSSTAT3resfail"

definition xdr_FSINFO3args :: "(nfs_fh3) xdr" where
  "xdr_FSINFO3args = xdr_nfs_fh3"

definition xdr_FSINFO3resok :: "(fattr3 option \<times> uint32 \<times> uint32 \<times> uint32 \<times> uint32 \<times> uint32 \<times> uint32 \<times> uint32 \<times> uint64 \<times> nfstime3 \<times> uint32) xdr" where
  "xdr_FSINFO3resok =
     xdr_pair xdr_post_op_attr (xdr_pair xdr_uint32 (xdr_pair xdr_uint32 (xdr_pair xdr_uint32
     (xdr_pair xdr_uint32 (xdr_pair xdr_uint32 (xdr_pair xdr_uint32 (xdr_pair xdr_uint32 (xdr_pair
     xdr_size3 (xdr_pair xdr_nfstime3 xdr_uint32)))))))))"

definition xdr_FSINFO3resfail :: "(fattr3 option) xdr" where
  "xdr_FSINFO3resfail = xdr_post_op_attr"

definition xdr_FSINFO3res :: "(fattr3 option \<times> uint32 \<times> uint32 \<times> uint32 \<times> uint32 \<times> uint32 \<times> uint32 \<times> uint32 \<times> uint64 \<times> nfstime3 \<times> uint32, fattr3 option) reply3 xdr" where
  "xdr_FSINFO3res = xdr_reply3 xdr_FSINFO3resok xdr_FSINFO3resfail"

definition xdr_PATHCONF3args :: "(nfs_fh3) xdr" where
  "xdr_PATHCONF3args = xdr_nfs_fh3"

definition xdr_PATHCONF3resok :: "(fattr3 option \<times> uint32 \<times> uint32 \<times> bool \<times> bool \<times> bool \<times> bool) xdr" where
  "xdr_PATHCONF3resok =
     xdr_pair xdr_post_op_attr (xdr_pair xdr_uint32 (xdr_pair xdr_uint32 (xdr_pair xdr_bool (xdr_pair
     xdr_bool (xdr_pair xdr_bool xdr_bool)))))"

definition xdr_PATHCONF3resfail :: "(fattr3 option) xdr" where
  "xdr_PATHCONF3resfail = xdr_post_op_attr"

definition xdr_PATHCONF3res :: "(fattr3 option \<times> uint32 \<times> uint32 \<times> bool \<times> bool \<times> bool \<times> bool, fattr3 option) reply3 xdr" where
  "xdr_PATHCONF3res = xdr_reply3 xdr_PATHCONF3resok xdr_PATHCONF3resfail"

definition xdr_COMMIT3args :: "(nfs_fh3 \<times> uint64 \<times> uint32) xdr" where
  "xdr_COMMIT3args = xdr_pair xdr_nfs_fh3 (xdr_pair xdr_offset3 xdr_count3)"

definition xdr_COMMIT3resok :: "(sent_wcc \<times> byte list) xdr" where
  "xdr_COMMIT3resok = xdr_pair xdr_wcc_data xdr_writeverf3"

definition xdr_COMMIT3resfail :: "(sent_wcc) xdr" where
  "xdr_COMMIT3resfail = xdr_wcc_data"

definition xdr_COMMIT3res :: "(sent_wcc \<times> byte list, sent_wcc) reply3 xdr" where
  "xdr_COMMIT3res = xdr_reply3 xdr_COMMIT3resok xdr_COMMIT3resfail"

end
