(* ===== verification/Xdr_Laws.thy ===== *)
theory Xdr_Laws
  imports Xdr_Nfs
begin

text \<open>
  The contracts of the protocol routines: which values each of them carries without loss. The
  arguments of every procedure and its replies are interpretations of \<open>xdr_routine\<close>.
\<close>

subsection \<open>The values that can be sent\<close>

definition wire_fh :: "nfs_fh3 \<Rightarrow> bool" where "wire_fh v \<longleftrightarrow> length v \<le> NFS3_FHSIZE"

definition wire_name :: "string \<Rightarrow> bool" where
  "wire_name s \<longleftrightarrow> length s \<le> 2 ^ 32 - 2 \<and> CHR 0x00 \<notin> set s"

definition wire_data :: "byte list \<Rightarrow> bool" where "wire_data v \<longleftrightarrow> length v \<le> UINT_MAX"
definition wire_verf :: "byte list \<Rightarrow> bool" where "wire_verf v \<longleftrightarrow> length v = 8"

fun wire_time :: "set_time_how \<Rightarrow> bool" where
  "wire_time (TIME_HOW_OTHER i) \<longleftrightarrow> int32 i \<and> i \<notin> {0, 1, 2}"
| "wire_time _ \<longleftrightarrow> True"

definition wire_sattr :: "sattr3 \<Rightarrow> bool" where
  "wire_sattr a \<longleftrightarrow> wire_time (set_atime a) \<and> wire_time (set_mtime a)"

fun wire_ftype :: "ftype3 \<Rightarrow> bool" where
  "wire_ftype (NF3OTHER i) \<longleftrightarrow> int32 i \<and> i \<notin> {0..7}"
| "wire_ftype _ \<longleftrightarrow> True"

fun wire_stable :: "stable_how \<Rightarrow> bool" where
  "wire_stable (STABLE_HOW_OTHER i) \<longleftrightarrow> int32 i \<and> i \<notin> {0, 1, 2}"
| "wire_stable _ \<longleftrightarrow> True"

fun wire_createhow :: "createhow3 \<Rightarrow> bool" where
  "wire_createhow (UNCHECKED a) \<longleftrightarrow> wire_sattr a"
| "wire_createhow (GUARDED a) \<longleftrightarrow> wire_sattr a"
| "wire_createhow (EXCLUSIVE v) \<longleftrightarrow> wire_verf v"

fun wire_mknod :: "mknoddata3 \<Rightarrow> bool" where
  "wire_mknod (Mk_device t (a, d)) \<longleftrightarrow> (t = NF3CHR \<or> t = NF3BLK) \<and> wire_sattr a"
| "wire_mknod (Mk_pipe t a) \<longleftrightarrow> (t = NF3SOCK \<or> t = NF3FIFO) \<and> wire_sattr a"
| "wire_mknod (Mk_other t) \<longleftrightarrow> t \<notin> {NF3CHR, NF3BLK, NF3SOCK, NF3FIFO} \<and> wire_ftype t"

definition wire_fattr :: "fattr3 \<Rightarrow> bool" where "wire_fattr a \<longleftrightarrow> wire_ftype (fa_type a)"

definition wire_attr :: "fattr3 option \<Rightarrow> bool" where "wire_attr = pred_option wire_fattr"

definition wire_wcc :: "sent_wcc \<Rightarrow> bool" where "wire_wcc w \<longleftrightarrow> wire_attr (snd w)"

definition wire_dirop :: "diropargs3 \<Rightarrow> bool" where
  "wire_dirop d \<longleftrightarrow> wire_fh (fst d) \<and> wire_name (snd d)"

subsection \<open>Numbers and names\<close>

lemma xdr_uint64_ok [xdr_rules]: "xdr_routine xdr_uint64 (\<lambda>_. True)"
  unfolding xdr_uint64_def by (rule xdr_word_ok) simp_all

lemma xdr_number_oks [xdr_rules]:
  "xdr_routine xdr_uint32 (\<lambda>_. True)" "xdr_routine xdr_fileid3 (\<lambda>_. True)" "xdr_routine xdr_cookie3 (\<lambda>_. True)"
  "xdr_routine xdr_uid3 (\<lambda>_. True)" "xdr_routine xdr_gid3 (\<lambda>_. True)" "xdr_routine xdr_size3 (\<lambda>_. True)"
  "xdr_routine xdr_offset3 (\<lambda>_. True)" "xdr_routine xdr_mode3 (\<lambda>_. True)" "xdr_routine xdr_count3 (\<lambda>_. True)"
  unfolding xdr_numbers by (rule xdr_u_int_ok xdr_uint64_ok)+

lemma xdr_verf_oks [xdr_rules]:
  "xdr_routine xdr_cookieverf3 wire_verf" "xdr_routine xdr_createverf3 wire_verf"
  "xdr_routine xdr_writeverf3 wire_verf"
  unfolding xdr_numbers
  by (rule xdr_weaken [OF xdr_opaque_ok],
      simp add: wire_verf_def NFS3_COOKIEVERFSIZE_def NFS3_CREATEVERFSIZE_def NFS3_WRITEVERFSIZE_def)+

lemma xdr_name_oks [xdr_rules]:
  "xdr_routine xdr_filename3 wire_name" "xdr_routine xdr_nfspath3 wire_name"
  unfolding xdr_numbers
  by (rule xdr_weaken [OF xdr_string_ok], simp add: wire_name_def UINT_MAX_def)+

lemma xdr_nfs_fh3_ok [xdr_rules]: "xdr_routine xdr_nfs_fh3 wire_fh"
  unfolding xdr_nfs_fh3_def wire_fh_def by (rule xdr_bytes_ok) (simp add: NFS3_FHSIZE_def)

lemma xdr_data_ok [xdr_rules]: "xdr_routine (xdr_bytes UINT_MAX) wire_data"
  unfolding wire_data_def by (rule xdr_bytes_ok) (simp add: UINT_MAX_def)

subsection \<open>Enumerations and structures\<close>

lemma nfsstat3_found: "find (\<lambda>e. nfsstat3_code e = nfsstat3_code st) nfsstats = Some st"
  by (cases st) (simp_all add: nfsstats_def)

lemma xdr_nfsstat3_ok [xdr_rules]: "xdr_routine xdr_nfsstat3 (\<lambda>_. True)"
  unfolding xdr_nfsstat3_def
proof (rule xdr_conv_ok [OF xdr_enum_ok])
  fix st
  have "int32 (nfsstat3_code st)" by (cases st) (simp_all add: int32_def)
  with nfsstat3_found
  show "int32 (nfsstat3_code st) \<and> find (\<lambda>e. nfsstat3_code e = nfsstat3_code st) nfsstats = Some st"
    by blast
qed

lemma xdr_mountstat3_ok [xdr_rules]: "xdr_routine xdr_mountstat3 (\<lambda>_. True)"
  unfolding xdr_mountstat3_def
proof (rule xdr_conv_ok [OF xdr_enum_ok])
  show "int32 (mountstat3_code st) \<and> find (\<lambda>e. mountstat3_code e = mountstat3_code st) mountstats = Some st" for st
    by (cases st) (simp_all add: int32_def mountstats_def)
qed

lemma xdr_ftype3_ok [xdr_rules]: "xdr_routine xdr_ftype3 wire_ftype"
  unfolding xdr_ftype3_def
proof (rule xdr_conv_ok [OF xdr_enum_ok])
  show "wire_ftype t \<Longrightarrow> int32 (ftype3_code t) \<and> Some (ftype3_of (ftype3_code t)) = Some t" for t
    by (cases t) (auto simp: int32_def ftype3_of_def)
qed

lemma xdr_stable_how_ok [xdr_rules]: "xdr_routine xdr_stable_how wire_stable"
  unfolding xdr_stable_how_def
proof (rule xdr_conv_ok [OF xdr_enum_ok])
  show "wire_stable t \<Longrightarrow> int32 (stable_code t) \<and> Some (stable_of (stable_code t)) = Some t" for t
    by (cases t) (auto simp: int32_def stable_of_def)
qed

lemma xdr_nfstime3_ok [xdr_rules]: "xdr_routine xdr_nfstime3 (\<lambda>_. True)"
  unfolding xdr_nfstime3_def by (rule xdr_conv_ok, (rule xdr_rules)+) simp

lemma xdr_specdata3_ok [xdr_rules]: "xdr_routine xdr_specdata3 (\<lambda>_. True)"
  unfolding xdr_specdata3_def by (rule xdr_conv_ok, (rule xdr_rules)+) simp

lemma xdr_fattr3_ok [xdr_rules]: "xdr_routine xdr_fattr3 wire_fattr"
  unfolding xdr_fattr3_def by (rule xdr_conv_ok, (rule xdr_rules)+) (simp add: wire_fattr_def)

lemma xdr_post_op_attr_ok [xdr_rules]: "xdr_routine xdr_post_op_attr wire_attr"
  unfolding xdr_post_op_attr_def wire_attr_def by (rule xdr_rules)+

lemma xdr_wcc_attr_ok [xdr_rules]: "xdr_routine xdr_wcc_attr (\<lambda>_. True)"
  unfolding xdr_wcc_attr_def by (rule xdr_conv_ok, (rule xdr_rules)+) simp

lemma xdr_wcc_data_ok [xdr_rules]: "xdr_routine xdr_wcc_data wire_wcc"
  unfolding xdr_wcc_data_def xdr_pre_op_attr_def
  by (rule xdr_weaken, (rule xdr_rules)+) (auto simp: wire_wcc_def pred_option_def)

lemma xdr_post_op_fh3_ok [xdr_rules]: "xdr_routine xdr_post_op_fh3 (pred_option wire_fh)"
  unfolding xdr_post_op_fh3_def by (rule xdr_rules)+

lemma xdr_set_time_ok:
  "xdr_routine (xdr_union xdr_time_how time_how
     (\<lambda>i. if i = 2 then xdr_conv (\<lambda>t. Some (SET_TO_CLIENT_TIME t)) client_time xdr_nfstime3
          else xdr_const (if i = 0 then DONT_CHANGE else if i = 1 then SET_TO_SERVER_TIME
                          else TIME_HOW_OTHER i))) wire_time"
proof (rule xdr_union_ok)
  show "xdr_routine xdr_time_how int32" unfolding xdr_time_how_def by (rule xdr_rules)
  show "int32 (time_how h)" if "wire_time h" for h
    using that by (cases h) (auto simp: int32_def)
  show "xdr_routine (if i = 2 then xdr_conv (\<lambda>t. Some (SET_TO_CLIENT_TIME t)) client_time xdr_nfstime3
      else xdr_const (if i = 0 then DONT_CHANGE else if i = 1 then SET_TO_SERVER_TIME else TIME_HOW_OTHER i))
      (\<lambda>h. wire_time h \<and> time_how h = i)" for i
  proof (cases "i = 2")
    case True
    have "client_time h = client_time h \<and> Some (SET_TO_CLIENT_TIME (client_time h)) = Some h"
      if "wire_time h \<and> time_how h = i" for h
      using that True by (cases h) auto
    with True show ?thesis by (auto intro!: xdr_conv_ok [OF xdr_nfstime3_ok])
  next
    case False
    have "h = (if i = 0 then DONT_CHANGE else if i = 1 then SET_TO_SERVER_TIME else TIME_HOW_OTHER i)"
      if "wire_time h \<and> time_how h = i" for h
      using that False by (cases h) auto
    with False show ?thesis by (auto intro!: xdr_const_ok)
  qed
qed

lemma xdr_sattr3_ok [xdr_rules]: "xdr_routine xdr_sattr3 wire_sattr"
  unfolding xdr_sattr3_def xdr_set_mode3_def xdr_set_uid3_def xdr_set_gid3_def xdr_set_size3_def
    xdr_set_atime_def xdr_set_mtime_def
  by (rule xdr_conv_ok, (rule xdr_rules xdr_set_time_ok)+) (auto simp: wire_sattr_def pred_option_def)

lemma xdr_diropargs3_ok [xdr_rules]: "xdr_routine xdr_diropargs3 wire_dirop"
  unfolding xdr_diropargs3_def by (rule xdr_weaken, (rule xdr_rules)+) (auto simp: wire_dirop_def)

lemma xdr_sattrguard3_ok [xdr_rules]: "xdr_routine xdr_sattrguard3 (\<lambda>_. True)"
  unfolding xdr_sattrguard3_def by (rule xdr_weaken, (rule xdr_rules)+) (auto simp: pred_option_def)

lemma xdr_createhow3_ok [xdr_rules]: "xdr_routine xdr_createhow3 wire_createhow"
  unfolding xdr_createhow3_def
proof (rule xdr_union_ok)
  show "xdr_routine xdr_createmode3 int32" unfolding xdr_createmode3_def by (rule xdr_rules)
  show "int32 (createmode h)" for h by (cases h) (simp_all add: int32_def)
  fix i :: int
  have "wire_createhow h \<and> createmode h = 0 \<Longrightarrow> wire_sattr (create_attributes h) \<and> Some (UNCHECKED (create_attributes h)) = Some h"
    "wire_createhow h \<and> createmode h = 1 \<Longrightarrow> wire_sattr (create_attributes h) \<and> Some (GUARDED (create_attributes h)) = Some h"
    "wire_createhow h \<and> createmode h = 2 \<Longrightarrow> wire_verf (create_verf h) \<and> Some (EXCLUSIVE (create_verf h)) = Some h"
    "createmode h \<in> {0, 1, 2}" for h
    by (cases h; simp)+
  then show "xdr_routine
      (if i = 0 then xdr_conv (\<lambda>a. Some (UNCHECKED a)) create_attributes xdr_sattr3
       else if i = 1 then xdr_conv (\<lambda>a. Some (GUARDED a)) create_attributes xdr_sattr3
       else if i = 2 then xdr_conv (\<lambda>v. Some (EXCLUSIVE v)) create_verf xdr_createverf3 else xdr_false)
      (\<lambda>h. wire_createhow h \<and> createmode h = i)"
    by (auto intro!: xdr_conv_ok [OF xdr_sattr3_ok] xdr_conv_ok [OF xdr_verf_oks(2)] xdr_false_ok)
qed

lemma xdr_mknoddata3_ok [xdr_rules]: "xdr_routine xdr_mknoddata3 wire_mknod"
  unfolding xdr_mknoddata3_def
proof (rule xdr_union_ok [OF xdr_ftype3_ok])
  show "wire_ftype (mk_type m)" if "wire_mknod m" for m
    using that by (cases m rule: wire_mknod.cases) auto
  fix t
  have dev: "xdr_routine xdr_devicedata3 (\<lambda>(a, d). wire_sattr a)"
    unfolding xdr_devicedata3_def by (rule xdr_weaken, (rule xdr_rules)+) auto
  have "(\<lambda>(a, d). wire_sattr a) (mk_device m) \<and> Some (Mk_device t (mk_device m)) = Some m"
      if "wire_mknod m \<and> mk_type m = t" "t = NF3CHR \<or> t = NF3BLK" for m
    using that by (cases m rule: wire_mknod.cases) auto
  moreover have "wire_sattr (mk_pipe m) \<and> Some (Mk_pipe t (mk_pipe m)) = Some m"
      if "wire_mknod m \<and> mk_type m = t" "t = NF3SOCK \<or> t = NF3FIFO" for m
    using that by (cases m rule: wire_mknod.cases) auto
  moreover have "m = Mk_other t"
      if "wire_mknod m \<and> mk_type m = t" "\<not> (t = NF3CHR \<or> t = NF3BLK)" "\<not> (t = NF3SOCK \<or> t = NF3FIFO)" for m
    using that by (cases m rule: wire_mknod.cases) auto
  ultimately show "xdr_routine
      (if t = NF3CHR \<or> t = NF3BLK then xdr_conv (\<lambda>d. Some (Mk_device t d)) mk_device xdr_devicedata3
       else if t = NF3SOCK \<or> t = NF3FIFO then xdr_conv (\<lambda>a. Some (Mk_pipe t a)) mk_pipe xdr_sattr3
       else xdr_const (Mk_other t)) (\<lambda>m. wire_mknod m \<and> mk_type m = t)"
    by (simp add: xdr_conv_ok [OF dev] xdr_conv_ok [OF xdr_sattr3_ok] xdr_const_ok)
qed

subsection \<open>Arguments and replies\<close>

fun wire_reply :: "('a \<Rightarrow> bool) \<Rightarrow> ('b \<Rightarrow> bool) \<Rightarrow> ('a, 'b) reply3 \<Rightarrow> bool" where
  "wire_reply P Q (Resok x) \<longleftrightarrow> P x"
| "wire_reply P Q (Resfail e y) \<longleftrightarrow> e \<noteq> NFS3_OK \<and> Q y"

lemma xdr_reply3_ok [xdr_rules]:
  assumes "xdr_routine c P" "xdr_routine d Q"
  shows "xdr_routine (xdr_reply3 c d) (wire_reply P Q)"
  unfolding xdr_reply3_def
proof (rule xdr_union_ok [OF xdr_nfsstat3_ok])
  fix st
  have "wire_reply P Q r \<and> reply_status r = NFS3_OK \<Longrightarrow> P (the_resok r) \<and> Some (Resok (the_resok r)) = Some r"
    "wire_reply P Q r \<and> reply_status r = st \<Longrightarrow> st \<noteq> NFS3_OK \<Longrightarrow>
      Q (the_resfail r) \<and> Some (Resfail st (the_resfail r)) = Some r" for r
    by (cases r; simp)+
  then show "xdr_routine
      (if st = NFS3_OK then xdr_conv (\<lambda>x. Some (Resok x)) the_resok c
       else xdr_conv (\<lambda>y. Some (Resfail st y)) the_resfail d) (\<lambda>r. wire_reply P Q r \<and> reply_status r = st)"
    by (simp add: xdr_conv_ok [OF assms(1)] xdr_conv_ok [OF assms(2)])
qed simp

lemma xdr_entry3_ok [xdr_rules]: "xdr_routine xdr_entry3 (\<lambda>e. wire_name (ent_name e))"
  unfolding xdr_entry3_def by (rule xdr_conv_ok, (rule xdr_rules)+) simp

lemma xdr_entryplus3_ok [xdr_rules]:
  "xdr_routine xdr_entryplus3 (\<lambda>(f, n, c, a, h). wire_name n \<and> wire_attr a \<and> pred_option wire_fh h)"
  unfolding xdr_entryplus3_def by (rule xdr_weaken, (rule xdr_rules)+) auto

interpretation GETATTR3args: xdr_routine xdr_GETATTR3args "wire_fh"
  unfolding xdr_GETATTR3args_def by (rule xdr_weaken, (rule xdr_rules)+) (auto simp: pred_option_def)

interpretation SETATTR3args: xdr_routine xdr_SETATTR3args "\<lambda>(f, a, g). wire_fh f \<and> wire_sattr a"
  unfolding xdr_SETATTR3args_def by (rule xdr_weaken, (rule xdr_rules)+) (auto simp: pred_option_def)

interpretation LOOKUP3args: xdr_routine xdr_LOOKUP3args "wire_dirop"
  unfolding xdr_LOOKUP3args_def by (rule xdr_weaken, (rule xdr_rules)+) (auto simp: pred_option_def)

interpretation ACCESS3args: xdr_routine xdr_ACCESS3args "\<lambda>(f, a). wire_fh f"
  unfolding xdr_ACCESS3args_def by (rule xdr_weaken, (rule xdr_rules)+) (auto simp: pred_option_def)

interpretation READLINK3args: xdr_routine xdr_READLINK3args "wire_fh"
  unfolding xdr_READLINK3args_def by (rule xdr_weaken, (rule xdr_rules)+) (auto simp: pred_option_def)

interpretation READ3args: xdr_routine xdr_READ3args "\<lambda>(f, off, n). wire_fh f"
  unfolding xdr_READ3args_def by (rule xdr_weaken, (rule xdr_rules)+) (auto simp: pred_option_def)

interpretation WRITE3args: xdr_routine xdr_WRITE3args "\<lambda>(f, off, n, st, v). wire_fh f \<and> wire_stable st \<and> wire_data v"
  unfolding xdr_WRITE3args_def by (rule xdr_weaken, (rule xdr_rules)+) (auto simp: pred_option_def)

interpretation CREATE3args: xdr_routine xdr_CREATE3args "\<lambda>(d, h). wire_dirop d \<and> wire_createhow h"
  unfolding xdr_CREATE3args_def by (rule xdr_weaken, (rule xdr_rules)+) (auto simp: pred_option_def)

interpretation MKDIR3args: xdr_routine xdr_MKDIR3args "\<lambda>(d, a). wire_dirop d \<and> wire_sattr a"
  unfolding xdr_MKDIR3args_def by (rule xdr_weaken, (rule xdr_rules)+) (auto simp: pred_option_def)

interpretation SYMLINK3args: xdr_routine xdr_SYMLINK3args "\<lambda>(d, a, p). wire_dirop d \<and> wire_sattr a \<and> wire_name p"
  unfolding xdr_SYMLINK3args_def xdr_symlinkdata3_def by (rule xdr_weaken, (rule xdr_rules)+) (auto simp: pred_option_def)

interpretation MKNOD3args: xdr_routine xdr_MKNOD3args "\<lambda>(d, m). wire_dirop d \<and> wire_mknod m"
  unfolding xdr_MKNOD3args_def by (rule xdr_weaken, (rule xdr_rules)+) (auto simp: pred_option_def)

interpretation REMOVE3args: xdr_routine xdr_REMOVE3args "wire_dirop"
  unfolding xdr_REMOVE3args_def by (rule xdr_weaken, (rule xdr_rules)+) (auto simp: pred_option_def)

interpretation RMDIR3args: xdr_routine xdr_RMDIR3args "wire_dirop"
  unfolding xdr_RMDIR3args_def by (rule xdr_weaken, (rule xdr_rules)+) (auto simp: pred_option_def)

interpretation RENAME3args: xdr_routine xdr_RENAME3args "\<lambda>(d, e). wire_dirop d \<and> wire_dirop e"
  unfolding xdr_RENAME3args_def by (rule xdr_weaken, (rule xdr_rules)+) (auto simp: pred_option_def)

interpretation LINK3args: xdr_routine xdr_LINK3args "\<lambda>(f, d). wire_fh f \<and> wire_dirop d"
  unfolding xdr_LINK3args_def by (rule xdr_weaken, (rule xdr_rules)+) (auto simp: pred_option_def)

interpretation READDIR3args: xdr_routine xdr_READDIR3args "\<lambda>(f, k, v, n). wire_fh f \<and> wire_verf v"
  unfolding xdr_READDIR3args_def by (rule xdr_weaken, (rule xdr_rules)+) (auto simp: pred_option_def)

interpretation READDIRPLUS3args: xdr_routine xdr_READDIRPLUS3args "\<lambda>(f, k, v, n, m). wire_fh f \<and> wire_verf v"
  unfolding xdr_READDIRPLUS3args_def by (rule xdr_weaken, (rule xdr_rules)+) (auto simp: pred_option_def)

interpretation FSSTAT3args: xdr_routine xdr_FSSTAT3args "wire_fh"
  unfolding xdr_FSSTAT3args_def by (rule xdr_weaken, (rule xdr_rules)+) (auto simp: pred_option_def)

interpretation FSINFO3args: xdr_routine xdr_FSINFO3args "wire_fh"
  unfolding xdr_FSINFO3args_def by (rule xdr_weaken, (rule xdr_rules)+) (auto simp: pred_option_def)

interpretation PATHCONF3args: xdr_routine xdr_PATHCONF3args "wire_fh"
  unfolding xdr_PATHCONF3args_def by (rule xdr_weaken, (rule xdr_rules)+) (auto simp: pred_option_def)

interpretation COMMIT3args: xdr_routine xdr_COMMIT3args "\<lambda>(f, off, n). wire_fh f"
  unfolding xdr_COMMIT3args_def by (rule xdr_weaken, (rule xdr_rules)+) (auto simp: pred_option_def)

interpretation GETATTR3res: xdr_routine xdr_GETATTR3res
  "wire_reply wire_fattr (\<lambda>_. True)"
  unfolding xdr_GETATTR3res_def xdr_GETATTR3resok_def
  by (rule xdr_reply3_ok; rule xdr_weaken, (rule xdr_rules)+) auto

interpretation SETATTR3res: xdr_routine xdr_SETATTR3res
  "wire_reply wire_wcc wire_wcc"
  unfolding xdr_SETATTR3res_def xdr_SETATTR3resok_def xdr_SETATTR3resfail_def
  by (rule xdr_reply3_ok; rule xdr_weaken, (rule xdr_rules)+) auto

interpretation LOOKUP3res: xdr_routine xdr_LOOKUP3res
  "wire_reply (\<lambda>(f, a, d). wire_fh f \<and> wire_attr a \<and> wire_attr d) wire_attr"
  unfolding xdr_LOOKUP3res_def xdr_LOOKUP3resok_def xdr_LOOKUP3resfail_def
  by (rule xdr_reply3_ok; rule xdr_weaken, (rule xdr_rules)+) auto

interpretation ACCESS3res: xdr_routine xdr_ACCESS3res
  "wire_reply (\<lambda>(a, m). wire_attr a) wire_attr"
  unfolding xdr_ACCESS3res_def xdr_ACCESS3resok_def xdr_ACCESS3resfail_def
  by (rule xdr_reply3_ok; rule xdr_weaken, (rule xdr_rules)+) auto

interpretation READLINK3res: xdr_routine xdr_READLINK3res
  "wire_reply (\<lambda>(a, p). wire_attr a \<and> wire_name p) wire_attr"
  unfolding xdr_READLINK3res_def xdr_READLINK3resok_def xdr_READLINK3resfail_def
  by (rule xdr_reply3_ok; rule xdr_weaken, (rule xdr_rules)+) auto

interpretation READ3res: xdr_routine xdr_READ3res
  "wire_reply (\<lambda>(a, n, eof, v). wire_attr a \<and> wire_data v) wire_attr"
  unfolding xdr_READ3res_def xdr_READ3resok_def xdr_READ3resfail_def
  by (rule xdr_reply3_ok; rule xdr_weaken, (rule xdr_rules)+) auto

interpretation WRITE3res: xdr_routine xdr_WRITE3res
  "wire_reply (\<lambda>(w, n, st, v). wire_wcc w \<and> wire_stable st \<and> wire_verf v) wire_wcc"
  unfolding xdr_WRITE3res_def xdr_WRITE3resok_def xdr_WRITE3resfail_def
  by (rule xdr_reply3_ok; rule xdr_weaken, (rule xdr_rules)+) auto

interpretation CREATE3res: xdr_routine xdr_CREATE3res
  "wire_reply (\<lambda>(f, a, w). pred_option wire_fh f \<and> wire_attr a \<and> wire_wcc w) wire_wcc"
  unfolding xdr_CREATE3res_def xdr_CREATE3resok_def xdr_CREATE3resfail_def
  by (rule xdr_reply3_ok; rule xdr_weaken, (rule xdr_rules)+) auto

interpretation MKDIR3res: xdr_routine xdr_MKDIR3res
  "wire_reply (\<lambda>(f, a, w). pred_option wire_fh f \<and> wire_attr a \<and> wire_wcc w) wire_wcc"
  unfolding xdr_MKDIR3res_def xdr_MKDIR3resok_def xdr_MKDIR3resfail_def
  by (rule xdr_reply3_ok; rule xdr_weaken, (rule xdr_rules)+) auto

interpretation SYMLINK3res: xdr_routine xdr_SYMLINK3res
  "wire_reply (\<lambda>(f, a, w). pred_option wire_fh f \<and> wire_attr a \<and> wire_wcc w) wire_wcc"
  unfolding xdr_SYMLINK3res_def xdr_SYMLINK3resok_def xdr_SYMLINK3resfail_def
  by (rule xdr_reply3_ok; rule xdr_weaken, (rule xdr_rules)+) auto

interpretation MKNOD3res: xdr_routine xdr_MKNOD3res
  "wire_reply (\<lambda>(f, a, w). pred_option wire_fh f \<and> wire_attr a \<and> wire_wcc w) wire_wcc"
  unfolding xdr_MKNOD3res_def xdr_MKNOD3resok_def xdr_MKNOD3resfail_def
  by (rule xdr_reply3_ok; rule xdr_weaken, (rule xdr_rules)+) auto

interpretation REMOVE3res: xdr_routine xdr_REMOVE3res
  "wire_reply wire_wcc wire_wcc"
  unfolding xdr_REMOVE3res_def xdr_REMOVE3resok_def xdr_REMOVE3resfail_def
  by (rule xdr_reply3_ok; rule xdr_weaken, (rule xdr_rules)+) auto

interpretation RMDIR3res: xdr_routine xdr_RMDIR3res
  "wire_reply wire_wcc wire_wcc"
  unfolding xdr_RMDIR3res_def xdr_RMDIR3resok_def xdr_RMDIR3resfail_def
  by (rule xdr_reply3_ok; rule xdr_weaken, (rule xdr_rules)+) auto

interpretation RENAME3res: xdr_routine xdr_RENAME3res
  "wire_reply (\<lambda>(v, w). wire_wcc v \<and> wire_wcc w) (\<lambda>(v, w). wire_wcc v \<and> wire_wcc w)"
  unfolding xdr_RENAME3res_def xdr_RENAME3resok_def xdr_RENAME3resfail_def
  by (rule xdr_reply3_ok; rule xdr_weaken, (rule xdr_rules)+) auto

interpretation LINK3res: xdr_routine xdr_LINK3res
  "wire_reply (\<lambda>(a, w). wire_attr a \<and> wire_wcc w) (\<lambda>(a, w). wire_attr a \<and> wire_wcc w)"
  unfolding xdr_LINK3res_def xdr_LINK3resok_def xdr_LINK3resfail_def
  by (rule xdr_reply3_ok; rule xdr_weaken, (rule xdr_rules)+) auto

interpretation READDIR3res: xdr_routine xdr_READDIR3res
  "wire_reply (\<lambda>(a, v, es, eof). wire_attr a \<and> wire_verf v \<and> list_all (\<lambda>e. wire_name (ent_name e)) es) wire_attr"
  unfolding xdr_READDIR3res_def xdr_READDIR3resok_def xdr_READDIR3resfail_def xdr_dirlist3_def
  by (rule xdr_reply3_ok; rule xdr_weaken, (rule xdr_rules)+) auto

interpretation READDIRPLUS3res: xdr_routine xdr_READDIRPLUS3res
  "wire_reply (\<lambda>(a, v, es, eof). wire_attr a \<and> wire_verf v \<and>
      list_all (\<lambda>(f, n, c, a, h). wire_name n \<and> wire_attr a \<and> pred_option wire_fh h) es) wire_attr"
  unfolding xdr_READDIRPLUS3res_def xdr_READDIRPLUS3resok_def xdr_READDIRPLUS3resfail_def xdr_dirlistplus3_def
  by (rule xdr_reply3_ok; rule xdr_weaken, (rule xdr_rules)+) auto

interpretation FSSTAT3res: xdr_routine xdr_FSSTAT3res
  "wire_reply (\<lambda>x. wire_attr (fst x)) wire_attr"
  unfolding xdr_FSSTAT3res_def xdr_FSSTAT3resok_def xdr_FSSTAT3resfail_def
  by (rule xdr_reply3_ok; rule xdr_weaken, (rule xdr_rules)+) auto

interpretation FSINFO3res: xdr_routine xdr_FSINFO3res
  "wire_reply (\<lambda>x. wire_attr (fst x)) wire_attr"
  unfolding xdr_FSINFO3res_def xdr_FSINFO3resok_def xdr_FSINFO3resfail_def
  by (rule xdr_reply3_ok; rule xdr_weaken, (rule xdr_rules)+) auto

interpretation PATHCONF3res: xdr_routine xdr_PATHCONF3res
  "wire_reply (\<lambda>x. wire_attr (fst x)) wire_attr"
  unfolding xdr_PATHCONF3res_def xdr_PATHCONF3resok_def xdr_PATHCONF3resfail_def
  by (rule xdr_reply3_ok; rule xdr_weaken, (rule xdr_rules)+) auto

interpretation COMMIT3res: xdr_routine xdr_COMMIT3res
  "wire_reply (\<lambda>(w, v). wire_wcc w \<and> wire_verf v) wire_wcc"
  unfolding xdr_COMMIT3res_def xdr_COMMIT3resok_def xdr_COMMIT3resfail_def
  by (rule xdr_reply3_ok; rule xdr_weaken, (rule xdr_rules)+) auto

subsection \<open>The MOUNT protocol\<close>

definition wire_path :: "nat \<Rightarrow> string \<Rightarrow> bool" where
  "wire_path n s \<longleftrightarrow> length s \<le> n \<and> CHR 0x00 \<notin> set s"

lemma xdr_dirpath_ok [xdr_rules]: "xdr_routine xdr_dirpath (wire_path MNTPATHLEN)"
  unfolding xdr_dirpath_def
  by (rule xdr_weaken [OF xdr_string_ok]) (simp add: wire_path_def MNTPATHLEN_def)

lemma xdr_name_ok [xdr_rules]: "xdr_routine xdr_name (wire_path MNTNAMLEN)"
  unfolding xdr_name_def
  by (rule xdr_weaken [OF xdr_string_ok]) (simp add: wire_path_def MNTNAMLEN_def)

lemma xdr_mountbody_ok [xdr_rules]:
  "xdr_routine xdr_mountbody
     (\<lambda>m. wire_path MNTNAMLEN (ml_hostname m) \<and> wire_path MNTPATHLEN (ml_directory m))"
  unfolding xdr_mountbody_def by (rule xdr_conv_ok, (rule xdr_rules)+) simp

interpretation dirpath: xdr_routine xdr_dirpath "wire_path MNTPATHLEN"
  by (rule xdr_rules)

interpretation mountlist: xdr_routine xdr_mountlist
  "list_all (\<lambda>m. wire_path MNTNAMLEN (ml_hostname m) \<and> wire_path MNTPATHLEN (ml_directory m))"
  unfolding xdr_mountlist_def by (rule xdr_rules)+

interpretation exports: xdr_routine xdr_exports
  "list_all (\<lambda>(d, gs). wire_path MNTPATHLEN d \<and> list_all (wire_path MNTNAMLEN) gs)"
  unfolding xdr_exports_def xdr_exportnode_def xdr_groups_def xdr_groupnode_def by (rule xdr_rules)+

fun wire_mountres :: "mountres3 \<Rightarrow> bool" where
  "wire_mountres (Mountinfo (fh, fl)) \<longleftrightarrow>
     length fh \<le> FHSIZE3 \<and> length fl \<le> UINT_MAX div 4 \<and> list_all int32 fl"
| "wire_mountres (Mount_error e) \<longleftrightarrow> e \<noteq> MNT3_OK"

interpretation mountres3: xdr_routine xdr_mountres3 wire_mountres
  unfolding xdr_mountres3_def
proof (rule xdr_union_ok [OF xdr_mountstat3_ok])
  have ok: "xdr_routine xdr_mountres3_ok
      (\<lambda>(fh, fl). length fh \<le> FHSIZE3 \<and> length fl \<le> UINT_MAX div 4 \<and> list_all int32 fl)"
    unfolding xdr_mountres3_ok_def xdr_fhandle3_def
    by (rule xdr_pair_ok, rule xdr_bytes_ok, simp add: FHSIZE3_def, rule xdr_array_ok [OF xdr_enum_ok])
      (simp add: UINT_MAX_def)
  fix st
  have "(\<lambda>(fh, fl). length fh \<le> FHSIZE3 \<and> length fl \<le> UINT_MAX div 4 \<and> list_all int32 fl) (mountinfo r) \<and>
      Some (Mountinfo (mountinfo r)) = Some r" if "wire_mountres r \<and> fhs_status r = MNT3_OK" for r
    using that by (cases r rule: wire_mountres.cases) auto
  moreover have "r = Mount_error st" if "wire_mountres r \<and> fhs_status r = st" "st \<noteq> MNT3_OK" for r
    using that by (cases r rule: wire_mountres.cases) auto
  ultimately show "xdr_routine
      (if st = MNT3_OK then xdr_conv (\<lambda>x. Some (Mountinfo x)) mountinfo xdr_mountres3_ok
       else xdr_const (Mount_error st)) (\<lambda>r. wire_mountres r \<and> fhs_status r = st)"
    by (simp add: xdr_conv_ok [OF ok] xdr_const_ok)
qed simp

subsection \<open>The size of a reply\<close>

text \<open>Routines whose encodings all have the same length.\<close>

definition fixed :: "'a xdr \<Rightarrow> nat \<Rightarrow> bool" where
  "fixed c n \<longleftrightarrow> (\<forall>x e. encode c x = Some e \<longrightarrow> length e = n)"

named_theorems fixed_rules \<open>lengths of encodings\<close>

lemma fixed_numbers [fixed_rules]:
  "fixed (xdr_word n) n" "fixed xdr_enum 4" "fixed xdr_bool 4" "fixed (xdr_opaque n) (n + pad4 n)"
  by (auto simp: fixed_def xdr_word_def xdr_enum_def xdr_bool_def xdr_u_int_def xdr_opaque_def
      split: if_splits)

lemma fixed_pair [fixed_rules]: "fixed c n \<Longrightarrow> fixed d m \<Longrightarrow> fixed (xdr_pair c d) (n + m)"
  by (force simp: fixed_def xdr_pair_def split: option.splits)

lemma fixed_conv [fixed_rules]: "fixed c n \<Longrightarrow> fixed (xdr_conv mk parts c) n"
  by (simp add: fixed_def xdr_conv_def)

lemma fixed_alias [fixed_rules]:
  "fixed xdr_u_int 4" "fixed xdr_uint32 4" "fixed xdr_uint64 8" "fixed xdr_fileid3 8" "fixed xdr_cookie3 8"
  "fixed xdr_uid3 4" "fixed xdr_gid3 4" "fixed xdr_size3 8" "fixed xdr_mode3 4" "fixed xdr_ftype3 4"
  unfolding xdr_numbers xdr_uint64_def xdr_u_int_def xdr_ftype3_def by (rule fixed_rules)+

lemma fixed_verf: "fixed xdr_cookieverf3 8"
  using fixed_numbers(4) [of 8] by (simp add: xdr_cookieverf3_def NFS3_COOKIEVERFSIZE_def pad4_def)

lemma fixed_nfstime3 [fixed_rules]: "fixed xdr_nfstime3 (4 + 4)"
  unfolding xdr_nfstime3_def by (rule fixed_rules)+

lemma fixed_specdata3 [fixed_rules]: "fixed xdr_specdata3 (4 + 4)"
  unfolding xdr_specdata3_def by (rule fixed_rules)+

lemma fixed_fattr3: "fixed xdr_fattr3 84"
proof -
  have "fixed xdr_fattr3 (4 + (4 + (4 + (4 + (4 + (8 + (8 + ((4 + 4) + (8 + (8 + ((4 + 4) + ((4 + 4) + (4 + 4)))))))))))))"
    unfolding xdr_fattr3_def by (rule fixed_rules)+
  then show ?thesis by simp
qed

lemma pad4_NAME_SIZE: "length n + pad4 (length n) = NAME_SIZE n"
  unfolding pad4_def NAME_SIZE_def by presburger

lemma string_size: "encode (xdr_string m) n = Some e \<Longrightarrow> length e = 4 + NAME_SIZE n"
  by (auto simp: xdr_string_def xdr_bytes_def xdr_opaque_def xdr_u_int_simps string_bytes_def
      pad4_NAME_SIZE split: if_splits)

lemma entry_size: "encode xdr_entry3 e = Some bs \<Longrightarrow> length bs = 20 + NAME_SIZE (ent_name e)"
  using fixed_alias(4,5) string_size
  by (fastforce simp: xdr_entry3_def xdr_conv_def xdr_pair_def xdr_filename3_def fixed_def
      split: option.splits)

lemma entries_size:
  "encode_list xdr_entry3 es = Some bs \<Longrightarrow> length bs = 4 + page_size (map ent_name es)"
proof (induction es arbitrary: bs)
  case Nil
  then show ?case using fixed_numbers(3) by (auto simp: fixed_def)
next
  case (Cons e es)
  from Cons.prems obtain a b d where "encode xdr_bool True = Some a" "encode xdr_entry3 e = Some b"
    "encode_list xdr_entry3 es = Some d" "bs = a @ b @ d"
    by (auto split: option.splits)
  with Cons.IH [of d] entry_size [of e b] fixed_numbers(3) show ?case
    by (auto simp: fixed_def ENTRY_SIZE_def)
qed

text \<open>The constants with which \<open>readdir.c\<close> counts are the sizes of what \<open>xdr.c\<close> sends.\<close>

lemma readdir_resok_size:
  assumes "encode xdr_READDIR3resok (Some a, v, es, eof) = Some bs"
  shows "length bs = RESOK_SIZE + page_size (map ent_name es)"
proof -
  from assms obtain x y z w where
    "encode xdr_post_op_attr (Some a) = Some x" "encode xdr_cookieverf3 v = Some y"
    "encode_list xdr_entry3 es = Some z" "encode xdr_bool eof = Some w" "bs = x @ y @ z @ w"
    by (auto simp: xdr_READDIR3resok_def xdr_dirlist3_def xdr_pair_def xdr_list_def split: option.splits)
  moreover have "length x = 88"
    using calculation(1) fixed_fattr3 fixed_numbers(3)
    by (auto simp: xdr_post_op_attr_def xdr_optional_def xdr_union_def xdr_conv_def fixed_def
        split: option.splits)
  ultimately show ?thesis
    using fixed_verf fixed_numbers(3) entries_size [of es z]
    by (auto simp: fixed_def RESOK_SIZE_def)
qed

subsection \<open>The routine for 64-bit numbers\<close>

lemma word_le_append:
  "(word_le (xs @ ys) :: 'a::len word) = word_le xs OR push_bit (8 * length xs) (word_le ys)"
proof (induction xs)
  case (Cons x xs)
  then show ?case by (simp add: push_bit_or or.assoc ac_simps)
qed simp

lemma word_le_ucast:
  "8 * length bs \<le> LENGTH('b) \<Longrightarrow> ucast (word_le bs :: 'b::len word) = (word_le bs :: 'a::len word)"
  by (rule bit_word_eqI) (auto simp: bit_simps bit_word_le)

lemma bytes_be_nth: "rev (bytes_le 8 (w :: uint64)) =
    map (\<lambda>i. ucast (drop_bit (8 * (7 - i)) w)) [0..<8]"
  by (rule nth_equalityI) (simp_all add: rev_nth bytes_le_nth)

lemma uint64_own_agrees:
  "encode xdr_uint64_own w = encode xdr_uint64 w \<and> decode xdr_uint64_own bs = decode xdr_uint64 bs"
proof
  have ff: "(0xFF :: uint64) = mask 8" by (simp add: mask_eq_exp_minus_1)
  have "ucast (x AND 0xFF :: uint64) = (ucast x :: byte)" for x
    unfolding ff by (rule bit_word_eqI) (auto simp: bit_simps)
  then show "encode xdr_uint64_own w = encode xdr_uint64 w"
    by (simp add: xdr_uint64_own_def xdr_uint64_def xdr_word_def xdr_opaque_def pad4_def bytes_be_nth
        upt_rec)
  show "decode xdr_uint64_own bs = decode xdr_uint64 bs"
  proof (cases "length bs < 8")
    case False
    let ?b = "take 8 bs"
    have "rev ?b = rev (drop 4 ?b) @ rev (take 4 ?b)"
      by (metis append_take_drop_id rev_append)
    then have "(word_le (rev ?b) :: uint64) = word_le (rev (drop 4 ?b)) OR push_bit 32 (word_le (rev (take 4 ?b)))"
      using False word_le_append [of "rev (drop 4 ?b)" "rev (take 4 ?b)"] by simp
    then show ?thesis
      using False
      by (simp add: xdr_uint64_own_def xdr_uint64_def xdr_word_def xdr_opaque_def pad4_def ntohl_bytes_def
          word_le_ucast or.commute)
  qed (simp add: xdr_uint64_own_def xdr_uint64_def xdr_word_def xdr_opaque_def pad4_def)
qed

end
