(* ===== verification/Dispatch.thy ===== *)
theory Dispatch
  imports Server Xdr_Laws
begin

text \<open>
  \<open>daemon.c\<close>, the RPC dispatchers. A dispatcher picks the routines and the handler of a procedure by its
  number, decodes the arguments, calls the handler and sends the encoded reply. What the RPC library
  reports to the client instead of a reply is a value of \<open>answer\<close>; \<open>fits\<close> says which replies the
  transport takes. \<open>None\<close> means that the daemon has ended during the call. The program and version
  numbers lead to a dispatcher through the services registered at start.
\<close>

datatype answer = Reply "byte list" | Proc_unavail | Garbage_args | System_err
  | Prog_mismatch | Prog_unavail

subsection \<open>One call\<close>

definition svc_sendreply :: "'r xdr \<Rightarrow> (byte list \<Rightarrow> bool) \<Rightarrow> 'r \<Rightarrow> answer" where
  "svc_sendreply xdr_result fits r =
     (case encode xdr_result r of
        None \<Rightarrow> System_err
      | Some bs \<Rightarrow> if fits bs then Reply bs else System_err)"

text \<open>What follows the \<open>switch\<close> in both dispatchers. Every handler returns a result.\<close>

definition svc_call ::
  "'a xdr \<Rightarrow> 'r xdr \<Rightarrow> ('a \<Rightarrow> 's \<Rightarrow> ('r \<times> 's) option) \<Rightarrow> (byte list \<Rightarrow> bool) \<Rightarrow> byte list \<Rightarrow> 's
   \<Rightarrow> (answer \<times> 's) option" where
  "svc_call xdr_argument xdr_result local fits msg s =
     (case decode xdr_argument msg of
        None \<Rightarrow> Some (Garbage_args, s)
      | Some (arg, _) \<Rightarrow>
          (case local arg s of
             None \<Rightarrow> None
           | Some (r, s) \<Rightarrow> Some (svc_sendreply xdr_result fits r, s)))"

text \<open>The part of a handler's result that is sent.\<close>

definition sending :: "('r \<Rightarrow> 'q) \<Rightarrow> ('s \<Rightarrow> ('r \<times> 's) option) \<Rightarrow> 's \<Rightarrow> ('q \<times> 's) option" where
  "sending view m s = map_option (apfst view) (m s)"

subsection \<open>The replies of the procedures\<close>

text \<open>
  The structures put the members of both arms of a reply at the same place, so that the attributes are
  sent whatever the status. A procedure that is not supported sends its static, zeroed structure.
\<close>

definition no_wcc :: sent_wcc where "no_wcc = (None, None)"

definition getattr_reply :: "nfsstat3 \<times> fattr3 \<Rightarrow> (fattr3, unit) reply3" where
  "getattr_reply r = (case r of (st, a) \<Rightarrow> reply3 st a ())"

definition wcc_reply :: "nfsstat3 \<times> wcc_data \<Rightarrow> (sent_wcc, sent_wcc) reply3" where
  "wcc_reply r = (case r of (st, w) \<Rightarrow> reply3 st (sent_wcc w) (sent_wcc w))"

definition lookup_reply ::
  "LOOKUP3res \<Rightarrow> (nfs_fh3 \<times> fattr3 option \<times> fattr3 option, fattr3 option) reply3" where
  "lookup_reply r =
     reply3 (lk_status r)
       ((case lk_object r of Some fh \<Rightarrow> fh | None \<Rightarrow> []), sent_attr (lk_obj_attributes r), sent_attr (lk_dir_attributes r))
       (sent_attr (lk_dir_attributes r))"

definition access_reply ::
  "nfsstat3 \<times> uint32 \<times> post_op_attr \<Rightarrow> (fattr3 option \<times> uint32, fattr3 option) reply3" where
  "access_reply r = (case r of (st, a, post) \<Rightarrow> reply3 st (sent_attr post, a) (sent_attr post))"

definition read_reply ::
  "READ3res \<Rightarrow> (fattr3 option \<times> uint32 \<times> bool \<times> byte list, fattr3 option) reply3" where
  "read_reply r =
     reply3 (rr_status r) (sent_attr (rr_attributes r), rr_count r, rr_eof r, rr_data r)
       (sent_attr (rr_attributes r))"

definition write_reply3 ::
  "WRITE3res \<Rightarrow> (sent_wcc \<times> uint32 \<times> stable_how \<times> byte list, sent_wcc) reply3" where
  "write_reply3 r =
     reply3 (wr_status r) (sent_wcc (wr_wcc r), wr_count r, wr_committed r, wr_verf r) (sent_wcc (wr_wcc r))"

definition create_reply ::
  "CREATE3res \<Rightarrow> (nfs_fh3 option \<times> fattr3 option \<times> sent_wcc, sent_wcc) reply3" where
  "create_reply r =
     reply3 (cr_status r) (cr_obj r, sent_attr (cr_obj_attributes r), sent_wcc (cr_wcc r)) (sent_wcc (cr_wcc r))"

definition rename_reply :: "RENAME3res \<Rightarrow> (sent_wcc \<times> sent_wcc, sent_wcc \<times> sent_wcc) reply3" where
  "rename_reply r =
     (let w = (sent_wcc (rn_from_wcc r), sent_wcc (rn_to_wcc r)) in reply3 (rn_status r) w w)"

text \<open>The cookie verifier of READDIR is cleared.\<close>

definition readdir_reply ::
  "READDIR3res \<times> post_op_attr \<Rightarrow> (fattr3 option \<times> byte list \<times> entry3 list \<times> bool, fattr3 option) reply3" where
  "readdir_reply r =
     (case r of (d, post) \<Rightarrow>
        reply3 (rd_status d) (sent_attr post, replicate NFS3_COOKIEVERFSIZE 0, rd_entries d, rd_eof d)
          (sent_attr post))"

definition fsstat_reply ::
  "FSSTAT3res \<Rightarrow> (fattr3 option \<times> uint64 \<times> uint64 \<times> uint64 \<times> uint64 \<times> uint64 \<times> uint64 \<times> uint32, fattr3 option) reply3" where
  "fsstat_reply r =
     reply3 (fs_status r)
       (sent_attr (fs_attributes r), tbytes r, fbytes r, abytes r, tfiles r, ffiles r, afiles r, invarsec r)
       (sent_attr (fs_attributes r))"

definition fsinfo_reply ::
  "FSINFO3res \<Rightarrow> (fattr3 option \<times> uint32 \<times> uint32 \<times> uint32 \<times> uint32 \<times> uint32 \<times> uint32 \<times> uint32 \<times> uint64
     \<times> nfstime3 \<times> uint32, fattr3 option) reply3" where
  "fsinfo_reply r =
     reply3 (fi_status r)
       (sent_attr (fi_attributes r), rtmax r, rtpref r, rtmult r, wtmax r, wtpref r, wtmult r, dtpref r,
        maxfilesize r, time_delta r, properties r)
       (sent_attr (fi_attributes r))"

definition pathconf_reply ::
  "PATHCONF3res \<Rightarrow> (fattr3 option \<times> uint32 \<times> uint32 \<times> bool \<times> bool \<times> bool \<times> bool, fattr3 option) reply3" where
  "pathconf_reply r =
     reply3 (pc_status r)
       (sent_attr (pc_attributes r), linkmax r, name_max r, no_trunc r, chown_restricted r,
        case_insensitive r, case_preserving r)
       (sent_attr (pc_attributes r))"

definition mnt_reply :: "mountstat3 \<times> nfs_fh3 option \<Rightarrow> mountres3" where
  "mnt_reply r =
     (case r of
        (MNT3_OK, fh) \<Rightarrow> Mountinfo ((case fh of Some fh \<Rightarrow> fh | None \<Rightarrow> []), [AUTH_UNIX])
      | (st, _) \<Rightarrow> Mount_error st)"

subsection \<open>The NFS program\<close>

definition NFSPROC3_NULL :: nat where "NFSPROC3_NULL = 0"
definition NFSPROC3_GETATTR :: nat where "NFSPROC3_GETATTR = 1"
definition NFSPROC3_SETATTR :: nat where "NFSPROC3_SETATTR = 2"
definition NFSPROC3_LOOKUP :: nat where "NFSPROC3_LOOKUP = 3"
definition NFSPROC3_ACCESS :: nat where "NFSPROC3_ACCESS = 4"
definition NFSPROC3_READLINK :: nat where "NFSPROC3_READLINK = 5"
definition NFSPROC3_READ :: nat where "NFSPROC3_READ = 6"
definition NFSPROC3_WRITE :: nat where "NFSPROC3_WRITE = 7"
definition NFSPROC3_CREATE :: nat where "NFSPROC3_CREATE = 8"
definition NFSPROC3_MKDIR :: nat where "NFSPROC3_MKDIR = 9"
definition NFSPROC3_SYMLINK :: nat where "NFSPROC3_SYMLINK = 10"
definition NFSPROC3_MKNOD :: nat where "NFSPROC3_MKNOD = 11"
definition NFSPROC3_REMOVE :: nat where "NFSPROC3_REMOVE = 12"
definition NFSPROC3_RMDIR :: nat where "NFSPROC3_RMDIR = 13"
definition NFSPROC3_RENAME :: nat where "NFSPROC3_RENAME = 14"
definition NFSPROC3_LINK :: nat where "NFSPROC3_LINK = 15"
definition NFSPROC3_READDIR :: nat where "NFSPROC3_READDIR = 16"
definition NFSPROC3_READDIRPLUS :: nat where "NFSPROC3_READDIRPLUS = 17"
definition NFSPROC3_FSSTAT :: nat where "NFSPROC3_FSSTAT = 18"
definition NFSPROC3_FSINFO :: nat where "NFSPROC3_FSINFO = 19"
definition NFSPROC3_PATHCONF :: nat where "NFSPROC3_PATHCONF = 20"
definition NFSPROC3_COMMIT :: nat where "NFSPROC3_COMMIT = 21"

lemmas nfs_procs = NFSPROC3_NULL_def NFSPROC3_GETATTR_def NFSPROC3_SETATTR_def NFSPROC3_LOOKUP_def
  NFSPROC3_ACCESS_def NFSPROC3_READLINK_def NFSPROC3_READ_def NFSPROC3_WRITE_def NFSPROC3_CREATE_def
  NFSPROC3_MKDIR_def NFSPROC3_SYMLINK_def NFSPROC3_MKNOD_def NFSPROC3_REMOVE_def NFSPROC3_RMDIR_def
  NFSPROC3_RENAME_def NFSPROC3_LINK_def NFSPROC3_READDIR_def NFSPROC3_READDIRPLUS_def
  NFSPROC3_FSSTAT_def NFSPROC3_FSINFO_def NFSPROC3_PATHCONF_def NFSPROC3_COMMIT_def

definition nfs3_program_3 ::
  "'w os \<Rightarrow> 'w rods \<Rightarrow> junk \<Rightarrow> (byte list \<Rightarrow> bool) \<Rightarrow> nat \<Rightarrow> byte list \<Rightarrow> svc_req \<Rightarrow> ('w, 'z) nfs_scheme
   \<Rightarrow> (answer \<times> ('w, 'z) nfs_scheme) option" where
  "nfs3_program_3 os ro jk fits rq_proc msg req s =
     (if rq_proc = NFSPROC3_NULL then
        svc_call xdr_void xdr_void (\<lambda>_ s. Some ((), nfsproc3_null s)) fits msg s
      else if rq_proc = NFSPROC3_GETATTR then
        svc_call xdr_GETATTR3args xdr_GETATTR3res
          (\<lambda>f. sending getattr_reply (nfsproc3_getattr os ro jk f req)) fits msg s
      else if rq_proc = NFSPROC3_SETATTR then
        svc_call xdr_SETATTR3args xdr_SETATTR3res
          (\<lambda>(f, new, guard). sending wcc_reply (nfsproc3_setattr os ro jk f new guard req)) fits msg s
      else if rq_proc = NFSPROC3_LOOKUP then
        svc_call xdr_LOOKUP3args xdr_LOOKUP3res
          (\<lambda>(dir, n). sending lookup_reply (nfsproc3_lookup os ro jk dir n req)) fits msg s
      else if rq_proc = NFSPROC3_ACCESS then
        svc_call xdr_ACCESS3args xdr_ACCESS3res
          (\<lambda>(f, want). sending access_reply (nfsproc3_access os ro jk f want req)) fits msg s
      else if rq_proc = NFSPROC3_READLINK then
        svc_call xdr_READLINK3args xdr_READLINK3res
          (\<lambda>_ s. sending (\<lambda>st. reply3 st (None, []) None) (\<lambda>s. Some (nfsproc3_readlink s)) s) fits msg s
      else if rq_proc = NFSPROC3_READ then
        svc_call xdr_READ3args xdr_READ3res
          (\<lambda>(f, off, cnt). sending read_reply (nfsproc3_read os ro jk f off cnt req)) fits msg s
      else if rq_proc = NFSPROC3_WRITE then
        svc_call xdr_WRITE3args xdr_WRITE3res
          (\<lambda>(f, off, cnt, stab, data).
             sending write_reply3 (nfsproc3_write os ro jk f off stab data req)) fits msg s
      else if rq_proc = NFSPROC3_CREATE then
        svc_call xdr_CREATE3args xdr_CREATE3res
          (\<lambda>((dir, n), how). sending create_reply (nfsproc3_create os ro jk dir n how req)) fits msg s
      else if rq_proc = NFSPROC3_MKDIR then
        svc_call xdr_MKDIR3args xdr_MKDIR3res
          (\<lambda>((dir, n), attr). sending create_reply (nfsproc3_mkdir os ro jk dir n attr req)) fits msg s
      else if rq_proc = NFSPROC3_SYMLINK then
        svc_call xdr_SYMLINK3args xdr_SYMLINK3res
          (\<lambda>_ s. sending (\<lambda>st. reply3 st (None, None, no_wcc) no_wcc) (\<lambda>s. Some (nfsproc3_symlink s)) s) fits msg s
      else if rq_proc = NFSPROC3_MKNOD then
        svc_call xdr_MKNOD3args xdr_MKNOD3res
          (\<lambda>_ s. sending (\<lambda>st. reply3 st (None, None, no_wcc) no_wcc) (\<lambda>s. Some (nfsproc3_mknod s)) s) fits msg s
      else if rq_proc = NFSPROC3_REMOVE then
        svc_call xdr_REMOVE3args xdr_REMOVE3res
          (\<lambda>(dir, n). sending wcc_reply (nfsproc3_remove os ro jk dir n req)) fits msg s
      else if rq_proc = NFSPROC3_RMDIR then
        svc_call xdr_RMDIR3args xdr_RMDIR3res
          (\<lambda>(dir, n). sending wcc_reply (nfsproc3_rmdir os ro jk dir n req)) fits msg s
      else if rq_proc = NFSPROC3_RENAME then
        svc_call xdr_RENAME3args xdr_RENAME3res
          (\<lambda>((dir, n), (dir', n')). sending rename_reply (nfsproc3_rename os ro jk dir n dir' n' req)) fits msg s
      else if rq_proc = NFSPROC3_LINK then
        svc_call xdr_LINK3args xdr_LINK3res
          (\<lambda>_ s. sending (\<lambda>st. reply3 st (None, no_wcc) (None, no_wcc)) (\<lambda>s. Some (nfsproc3_link s)) s) fits msg s
      else if rq_proc = NFSPROC3_READDIR then
        svc_call xdr_READDIR3args xdr_READDIR3res
          (\<lambda>(dir, cookie, verf, cnt).
             sending readdir_reply (nfsproc3_readdir os ro jk dir cookie cnt req)) fits msg s
      else if rq_proc = NFSPROC3_READDIRPLUS then
        svc_call xdr_READDIRPLUS3args xdr_READDIRPLUS3res
          (\<lambda>_ s. sending (\<lambda>(st, post). reply3 st (sent_attr post, [], [], False) (sent_attr post))
             (\<lambda>s. Some (nfsproc3_readdirplus s)) s) fits msg s
      else if rq_proc = NFSPROC3_FSSTAT then
        svc_call xdr_FSSTAT3args xdr_FSSTAT3res
          (\<lambda>f. sending fsstat_reply (nfsproc3_fsstat os jk f req)) fits msg s
      else if rq_proc = NFSPROC3_FSINFO then
        svc_call xdr_FSINFO3args xdr_FSINFO3res
          (\<lambda>f. sending fsinfo_reply (nfsproc3_fsinfo os jk f req)) fits msg s
      else if rq_proc = NFSPROC3_PATHCONF then
        svc_call xdr_PATHCONF3args xdr_PATHCONF3res
          (\<lambda>f. sending pathconf_reply (nfsproc3_pathconf os jk f req)) fits msg s
      else if rq_proc = NFSPROC3_COMMIT then
        svc_call xdr_COMMIT3args xdr_COMMIT3res
          (\<lambda>_ s. sending (\<lambda>st. reply3 st (no_wcc, replicate 8 0) no_wcc) (\<lambda>s. Some (nfsproc3_commit s)) s) fits msg s
      else Some (Proc_unavail, s))"

subsection \<open>The MOUNT program\<close>

definition MOUNTPROC_NULL :: nat where "MOUNTPROC_NULL = 0"
definition MOUNTPROC_MNT :: nat where "MOUNTPROC_MNT = 1"
definition MOUNTPROC_DUMP :: nat where "MOUNTPROC_DUMP = 2"
definition MOUNTPROC_UMNT :: nat where "MOUNTPROC_UMNT = 3"
definition MOUNTPROC_UMNTALL :: nat where "MOUNTPROC_UMNTALL = 4"
definition MOUNTPROC_EXPORT :: nat where "MOUNTPROC_EXPORT = 5"

lemmas mount_procs = MOUNTPROC_NULL_def MOUNTPROC_MNT_def MOUNTPROC_DUMP_def MOUNTPROC_UMNT_def
  MOUNTPROC_UMNTALL_def MOUNTPROC_EXPORT_def

definition mountproc_null :: "'s \<Rightarrow> unit \<times> 's" where "mountproc_null s = ((), s)"

definition mountprog_3 ::
  "byte list \<Rightarrow> 'w os \<Rightarrow> (byte list \<Rightarrow> bool) \<Rightarrow> nat \<Rightarrow> byte list \<Rightarrow> svc_req \<Rightarrow> ('w, 'z) mnt_scheme
   \<Rightarrow> (answer \<times> ('w, 'z) mnt_scheme) option" where
  "mountprog_3 acc os fits rq_proc msg req s =
     (if rq_proc = MOUNTPROC_NULL then
        svc_call xdr_void xdr_void (\<lambda>_ s. Some (mountproc_null s)) fits msg s
      else if rq_proc = MOUNTPROC_MNT then
        svc_call xdr_dirpath xdr_mountres3
          (\<lambda>p s. sending mnt_reply (\<lambda>s. Some (mountproc_mnt acc os p req s)) s) fits msg s
      else if rq_proc = MOUNTPROC_DUMP then
        svc_call xdr_void xdr_mountlist (\<lambda>_ s. Some (mountproc_dump s, s)) fits msg s
      else if rq_proc = MOUNTPROC_UMNT then
        svc_call xdr_dirpath xdr_void (\<lambda>p s. Some ((), mountproc_umnt os p req s)) fits msg s
      else if rq_proc = MOUNTPROC_UMNTALL then
        svc_call xdr_void xdr_void (\<lambda>_ s. Some ((), mountproc_umntall os req s)) fits msg s
      else if rq_proc = MOUNTPROC_EXPORT then
        svc_call xdr_void xdr_exports (\<lambda>_ s. Some (mountproc_export s, s)) fits msg s
      else Some (Proc_unavail, s))"

subsection \<open>Every call keeps what the procedures keep\<close>

context kept
begin

lemma call_kept:
  assumes "\<And>arg t. I t \<Longrightarrow> yields (good I) (local arg t)" "I s"
  shows "yields (good I) (svc_call xarg xres local fits msg s)"
  using assms unfolding svc_call_def yields_def good_def by (auto split: option.splits)

lemma sending_kept: "yields (good I) (m s) \<Longrightarrow> yields (good I) (sending view m s)"
  unfolding sending_def yields_def good_def by auto

lemma stateless_kept: "I s \<Longrightarrow> yields (good I) (sending view (\<lambda>s. Some (r, s)) s)"
  unfolding sending_def by simp

lemma nfs3_program_kept:
  assumes "I s"
  shows "yields (good I) (nfs3_program_3 os ro jk fits n msg req s)"
proof -
  note served = getattr_kept setattr_kept lookup_kept access_kept read_kept write_kept create_kept
    mkdir_kept remove_kept rmdir_kept rename_kept readdir_kept fsstat_kept fsinfo_kept
    pathconf_kept
  show ?thesis
    unfolding nfs3_program_3_def nfsproc3_readlink_def nfsproc3_symlink_def nfsproc3_mknod_def nfsproc3_link_def
      nfsproc3_readdirplus_def nfsproc3_commit_def nfsproc3_null_def
    by (intro yields_if call_kept assms)
      (auto intro!: sending_kept served stateless_kept simp: assms split: prod.splits)
qed

lemma mountprog_kept:
  assumes "I s"
  shows "yields (good I) (mountprog_3 acc os fits n msg req s)"
  unfolding mountprog_3_def mountproc_null_def
  by (intro yields_if call_kept assms)
    (auto intro!: sending_kept intro: mnt_kept umnt_kept simp: assms)

end

subsection \<open>Calls as the client sees them\<close>

text \<open>
  A client that sends well-formed arguments and a handler whose reply is well-formed: the handler is
  called with these arguments, and the client reads the reply the handler gave.
\<close>

lemma svc_call_roundtrip:
  assumes args: "xdr_routine xarg P" "P a" "encode xarg a = Some msg"
    and res: "xdr_routine xres Q" "local a s = Some (r, s')" "Q r"
  shows "\<exists>bs. svc_call xarg xres local fits (msg @ pad) s = Some (if fits bs then Reply bs else System_err, s') \<and>
    encode xres r = Some bs \<and> decode xres bs = Some (r, [])"
proof -
  from xdr_routine.faithful [OF res(1,3)] obtain bs where
    bs: "encode xres r = Some bs" "\<forall>rest. decode xres (bs @ rest) = Some (r, rest)" by blast
  have "decode xarg (msg @ pad) = Some (a, pad)" using xdr_routine.decodes [OF args] .
  with bs(1) res(2) have "svc_call xarg xres local fits (msg @ pad) s =
      Some (if fits bs then Reply bs else System_err, s')"
    by (simp add: svc_call_def svc_sendreply_def)
  with bs(1) spec [OF bs(2), of "[]"] show ?thesis by auto
qed

end
