(* ===== verification/Lexer_Rules.thy ===== *)
theory Lexer_Rules
  imports Lexer
begin

text \<open>
  The rules of \<open>Config/exports.l\<close> as regular expressions, and that the tables of the lexer follow them:
  every state of the tables stands for what is left of the rules to match, computed by derivatives.
\<close>

subsection \<open>The rules of the lexer\<close>

text \<open>The character classes and literals of the patterns in \<open>exports.l\<close>.\<close>

datatype sym =
    White | Newline | Dot | Nowhite | Lower | Idchar | Optchar | Digit
  | Quote | Hash | Slash | Period | Equals | Backslash

definition char_code :: "char \<Rightarrow> nat" where "char_code c = of_char c"

fun sym_chars :: "sym \<Rightarrow> char \<Rightarrow> bool" where
  "sym_chars White c \<longleftrightarrow> char_code c \<in> {32, 9}"
| "sym_chars Newline c \<longleftrightarrow> char_code c = 10"
| "sym_chars Dot c \<longleftrightarrow> char_code c \<noteq> 10"
| "sym_chars Nowhite c \<longleftrightarrow> char_code c \<notin> {32, 10, 9}"
| "sym_chars Lower c \<longleftrightarrow> 97 \<le> char_code c \<and> char_code c \<le> 122"
| "sym_chars Idchar c \<longleftrightarrow> char_code c \<in> {46, 45, 95} \<or> 97 \<le> char_code c \<and> char_code c \<le> 122 \<or> 48 \<le> char_code c \<and> char_code c \<le> 57"
| "sym_chars Optchar c \<longleftrightarrow> char_code c \<notin> {32, 10, 9, 44, 41}"
| "sym_chars Digit c \<longleftrightarrow> 48 \<le> char_code c \<and> char_code c \<le> 57"
| "sym_chars Quote c \<longleftrightarrow> char_code c = 34"
| "sym_chars Hash c \<longleftrightarrow> char_code c = 35"
| "sym_chars Slash c \<longleftrightarrow> char_code c = 47"
| "sym_chars Period c \<longleftrightarrow> char_code c = 46"
| "sym_chars Equals c \<longleftrightarrow> char_code c = 61"
| "sym_chars Backslash c \<longleftrightarrow> char_code c = 92"

datatype rexp = Zero | One | Sym sym | Alt rexp rexp | Seq rexp rexp | Star rexp

inductive_set star :: "string set \<Rightarrow> string set" for L where
  star_Nil: "[] \<in> star L"
| star_app: "u \<in> L \<Longrightarrow> v \<in> star L \<Longrightarrow> u @ v \<in> star L"

fun lang :: "rexp \<Rightarrow> string set" where
  "lang Zero = {}"
| "lang One = {[]}"
| "lang (Sym a) = {[c] |c. sym_chars a c}"
| "lang (Alt r s) = lang r \<union> lang s"
| "lang (Seq r s) = {u @ v |u v. u \<in> lang r \<and> v \<in> lang s}"
| "lang (Star r) = star (lang r)"

fun nullable :: "rexp \<Rightarrow> bool" where
  "nullable Zero = False" | "nullable One = True" | "nullable (Sym a) = False"
| "nullable (Alt r s) \<longleftrightarrow> nullable r \<or> nullable s" | "nullable (Seq r s) \<longleftrightarrow> nullable r \<and> nullable s"
| "nullable (Star r) = True"

definition alt :: "rexp \<Rightarrow> rexp \<Rightarrow> rexp" where
  "alt r s = (if r = Zero then s else if s = Zero \<or> r = s then r else Alt r s)"

definition seq :: "rexp \<Rightarrow> rexp \<Rightarrow> rexp" where
  "seq r s = (if r = Zero \<or> s = Zero then Zero else if r = One then s else Seq r s)"

fun deriv :: "(sym \<Rightarrow> bool) \<Rightarrow> rexp \<Rightarrow> rexp" where
  "deriv v Zero = Zero"
| "deriv v One = Zero"
| "deriv v (Sym a) = (if v a then One else Zero)"
| "deriv v (Alt r s) = alt (deriv v r) (deriv v s)"
| "deriv v (Seq r s) = (if nullable r then alt (seq (deriv v r) s) (deriv v s) else seq (deriv v r) s)"
| "deriv v (Star r) = seq (deriv v r) (Star r)"

text \<open>\<open>r{1,n+1}\<close>\<close>

fun up_to :: "nat \<Rightarrow> rexp \<Rightarrow> rexp" where
  "up_to 0 r = One"
| "up_to (Suc n) r = Alt One (Seq r (up_to n r))"

definition IPCOMP :: rexp where "IPCOMP = Seq (Sym Digit) (up_to 2 (Sym Digit))"
definition IP :: rexp where
  "IP = Seq IPCOMP (Seq (Sym Period) (Seq IPCOMP (Seq (Sym Period) (Seq IPCOMP (Seq (Sym Period) IPCOMP)))))"
definition NETCOMP :: rexp where "NETCOMP = Seq (Sym Digit) (up_to 1 (Sym Digit))"

text \<open>The rules in their order, each with the mark that it applies at the beginning of a line alone.\<close>

definition rules :: "(bool \<times> rexp) list" where
  "rules =
    [(True, Seq (Star (Sym White)) (Sym Newline)),
     (True, Star (Sym White)),
     (False, Seq (Sym Backslash) (Sym Newline)),
     (True, Seq (Star (Sym White)) (Seq (Sym Hash) (Seq (Star (Sym Dot)) (Sym Newline)))),
     (False, Seq (Star (Sym White)) (Seq (Sym Hash) (Star (Sym Dot)))),
     (False, IP),
     (False, Seq IP (Seq (Sym Slash) NETCOMP)),
     (False, Seq IP (Seq (Sym Slash) IP)),
     (False, Seq (Sym Quote) (Seq (Star (Sym Dot)) (Sym Quote))),
     (False, Seq (Sym Equals) (Star (Sym Optchar))),
     (False, Seq (Sym Slash) (Star (Sym Nowhite))),
     (False, Seq (Sym White) (Star (Sym White))),
     (False, Seq (Sym Lower) (Star (Sym Idchar))),
     (False, Sym Dot),
     (False, Sym Newline)]"

definition active :: "bool \<Rightarrow> rexp list" where
  "active bol = map (\<lambda>(at_bol, r). if at_bol \<and> \<not> bol then Zero else r) rules"

text \<open>The symbols the characters of a class belong to.\<close>

definition class_syms :: "sym list list" where
  "class_syms =
    [[],
     [Dot, Nowhite, Optchar],
     [White, Dot],
     [Newline],
     [Dot, Nowhite, Optchar, Quote],
     [Dot, Nowhite, Optchar, Hash],
     [Dot, Nowhite],
     [Dot, Nowhite, Optchar, Idchar],
     [Dot, Nowhite, Optchar, Idchar, Period],
     [Dot, Nowhite, Optchar, Slash],
     [Dot, Nowhite, Optchar, Idchar, Digit],
     [Dot, Nowhite, Optchar, Equals],
     [Dot, Nowhite, Optchar, Backslash],
     [Dot, Nowhite, Optchar, Idchar, Lower]]"

definition class_val :: "nat \<Rightarrow> sym \<Rightarrow> bool" where
  "class_val c a \<longleftrightarrow> a \<in> set (class_syms ! c)"

text \<open>For every state of the tables but the one at the end of the buffer, a state it is entered from and the class read.\<close>

definition entered :: "(nat \<times> nat \<times> nat) list" where
  "entered =
    [(4, 1, 1), (5, 1, 2), (6, 1, 3), (7, 1, 4), (8, 1, 5), (9, 1, 9), (10, 1, 10), (11, 1, 11),
     (12, 1, 12), (13, 1, 13), (14, 2, 2), (15, 2, 3), (16, 2, 5), (61, 4, 1), (17, 5, 2),
     (18, 5, 5), (19, 7, 1), (20, 7, 4), (21, 8, 1), (22, 9, 1), (23, 10, 8), (24, 10, 10),
     (25, 11, 1), (26, 12, 3), (27, 13, 7), (28, 14, 2), (29, 14, 3), (30, 14, 5), (31, 16, 1),
     (32, 16, 3), (33, 23, 10), (34, 24, 10), (35, 33, 8), (36, 33, 10), (37, 35, 10),
     (38, 36, 10), (39, 37, 8), (40, 37, 10), (41, 39, 10), (42, 40, 10), (43, 41, 9),
     (44, 41, 10), (45, 43, 10), (46, 44, 10), (47, 45, 8), (48, 45, 10), (49, 47, 10),
     (50, 48, 10), (51, 49, 8), (52, 49, 10), (53, 51, 10), (54, 52, 10), (55, 53, 8),
     (56, 53, 10), (57, 55, 10), (58, 56, 10), (59, 57, 10), (60, 59, 10)]"

definition residuals :: "rexp list list" where
  "residuals = foldl (\<lambda>T (q, p, c). T[q := map (deriv (class_val c)) (T ! p)])
     ((replicate 62 [])[1 := active False, 2 := active True]) entered"

definition first_match :: "rexp list \<Rightarrow> nat" where
  "first_match rs = (case filter (\<lambda>i. nullable (rs ! i)) [0..<length rs] of [] \<Rightarrow> 0 | i # _ \<Rightarrow> Suc i)"

definition class_of :: "nat \<Rightarrow> nat" where
  "class_of n =
     (if n = 9 \<or> n = 32 then 2 else if n = 10 then 3 else if n = 34 then 4 else if n = 35 then 5
      else if n = 41 \<or> n = 44 then 6 else if n = 45 \<or> n = 95 then 7 else if n = 46 then 8 else if n = 47 then 9
      else if 48 \<le> n \<and> n \<le> 57 then 10 else if n = 61 then 11 else if n = 92 then 12
      else if 97 \<le> n \<and> n \<le> 122 then 13 else 1)"

lemma yy_class_eq: "yy_class c = class_of (char_code c)"
proof -
  have "\<forall>n\<in>set [1..<256]. yy_ec ! n = class_of n" by code_simp
  moreover have "char_code c < 256" unfolding char_code_def by (rule nat_of_char_less_256)
  ultimately show ?thesis unfolding yy_class_def char_code_def [symmetric] by (auto simp: class_of_def)
qed

lemma class_val_sets:
  "\<forall>c\<in>set [1..<14].
     class_val c White = (c = 2) \<and> class_val c Newline = (c = 3) \<and> class_val c Dot = (c \<noteq> 3) \<and>
     class_val c Nowhite = (c \<noteq> 2 \<and> c \<noteq> 3) \<and> class_val c Lower = (c = 13) \<and>
     class_val c Idchar = (c = 7 \<or> c = 8 \<or> c = 10 \<or> c = 13) \<and>
     class_val c Optchar = (c \<noteq> 2 \<and> c \<noteq> 3 \<and> c \<noteq> 6) \<and> class_val c Digit = (c = 10) \<and>
     class_val c Quote = (c = 4) \<and> class_val c Hash = (c = 5) \<and> class_val c Slash = (c = 9) \<and>
     class_val c Period = (c = 8) \<and> class_val c Equals = (c = 11) \<and> class_val c Backslash = (c = 12)"
  by code_simp

lemma sym_chars_class: "sym_chars a c = class_val (yy_class c) a"
  using bspec [OF class_val_sets yy_class_range [of c]]
  unfolding yy_class_eq by (cases a) (simp_all add: class_of_def)

definition moves0 :: "(nat \<times> nat list) list" where
  "moves0 =
    [(1, [4, 5, 6, 7, 8, 4, 4, 4, 9, 10, 11, 12, 13]), (2, [4, 14, 15, 7, 16, 4, 4, 4, 9, 10, 11, 12, 13]),
     (4, [61, 61, 61, 61, 61, 61, 61, 61, 61, 61, 61, 61, 61]),
     (5, [61, 17, 61, 61, 18, 61, 61, 61, 61, 61, 61, 61, 61]),
     (6, [61, 61, 61, 61, 61, 61, 61, 61, 61, 61, 61, 61, 61]),
     (7, [19, 19, 61, 20, 19, 19, 19, 19, 19, 19, 19, 19, 19]),
     (8, [21, 21, 61, 21, 21, 21, 21, 21, 21, 21, 21, 21, 21]),
     (9, [22, 61, 61, 22, 22, 22, 22, 22, 22, 22, 22, 22, 22]),
     (10, [61, 61, 61, 61, 61, 61, 61, 23, 61, 24, 61, 61, 61]),
     (11, [25, 61, 61, 25, 25, 61, 25, 25, 25, 25, 25, 25, 25])]"

definition moves1 :: "(nat \<times> nat list) list" where
  "moves1 =
    [(12, [61, 61, 26, 61, 61, 61, 61, 61, 61, 61, 61, 61, 61]),
     (13, [61, 61, 61, 61, 61, 61, 27, 27, 61, 27, 61, 61, 27]),
     (14, [61, 28, 29, 61, 30, 61, 61, 61, 61, 61, 61, 61, 61]),
     (15, [61, 61, 61, 61, 61, 61, 61, 61, 61, 61, 61, 61, 61]),
     (16, [31, 31, 32, 31, 31, 31, 31, 31, 31, 31, 31, 31, 31]),
     (17, [61, 17, 61, 61, 18, 61, 61, 61, 61, 61, 61, 61, 61]),
     (18, [21, 21, 61, 21, 21, 21, 21, 21, 21, 21, 21, 21, 21]),
     (19, [19, 19, 61, 20, 19, 19, 19, 19, 19, 19, 19, 19, 19]),
     (20, [19, 19, 61, 20, 19, 19, 19, 19, 19, 19, 19, 19, 19]),
     (21, [21, 21, 61, 21, 21, 21, 21, 21, 21, 21, 21, 21, 21])]"

definition moves2 :: "(nat \<times> nat list) list" where
  "moves2 =
    [(22, [22, 61, 61, 22, 22, 22, 22, 22, 22, 22, 22, 22, 22]),
     (23, [61, 61, 61, 61, 61, 61, 61, 61, 61, 33, 61, 61, 61]),
     (24, [61, 61, 61, 61, 61, 61, 61, 23, 61, 34, 61, 61, 61]),
     (25, [25, 61, 61, 25, 25, 61, 25, 25, 25, 25, 25, 25, 25]),
     (26, [61, 61, 61, 61, 61, 61, 61, 61, 61, 61, 61, 61, 61]),
     (27, [61, 61, 61, 61, 61, 61, 27, 27, 61, 27, 61, 61, 27]),
     (28, [61, 28, 29, 61, 30, 61, 61, 61, 61, 61, 61, 61, 61]),
     (29, [61, 61, 61, 61, 61, 61, 61, 61, 61, 61, 61, 61, 61]),
     (30, [31, 31, 32, 31, 31, 31, 31, 31, 31, 31, 31, 31, 31]),
     (31, [31, 31, 32, 31, 31, 31, 31, 31, 31, 31, 31, 31, 31])]"

definition moves3 :: "(nat \<times> nat list) list" where
  "moves3 =
    [(32, [61, 61, 61, 61, 61, 61, 61, 61, 61, 61, 61, 61, 61]),
     (33, [61, 61, 61, 61, 61, 61, 61, 35, 61, 36, 61, 61, 61]),
     (34, [61, 61, 61, 61, 61, 61, 61, 23, 61, 61, 61, 61, 61]),
     (35, [61, 61, 61, 61, 61, 61, 61, 61, 61, 37, 61, 61, 61]),
     (36, [61, 61, 61, 61, 61, 61, 61, 35, 61, 38, 61, 61, 61]),
     (37, [61, 61, 61, 61, 61, 61, 61, 39, 61, 40, 61, 61, 61]),
     (38, [61, 61, 61, 61, 61, 61, 61, 35, 61, 61, 61, 61, 61]),
     (39, [61, 61, 61, 61, 61, 61, 61, 61, 61, 41, 61, 61, 61]),
     (40, [61, 61, 61, 61, 61, 61, 61, 39, 61, 42, 61, 61, 61]),
     (41, [61, 61, 61, 61, 61, 61, 61, 61, 43, 44, 61, 61, 61])]"

definition moves4 :: "(nat \<times> nat list) list" where
  "moves4 =
    [(42, [61, 61, 61, 61, 61, 61, 61, 39, 61, 61, 61, 61, 61]),
     (43, [61, 61, 61, 61, 61, 61, 61, 61, 61, 45, 61, 61, 61]),
     (44, [61, 61, 61, 61, 61, 61, 61, 61, 43, 46, 61, 61, 61]),
     (45, [61, 61, 61, 61, 61, 61, 61, 47, 61, 48, 61, 61, 61]),
     (46, [61, 61, 61, 61, 61, 61, 61, 61, 43, 61, 61, 61, 61]),
     (47, [61, 61, 61, 61, 61, 61, 61, 61, 61, 49, 61, 61, 61]),
     (48, [61, 61, 61, 61, 61, 61, 61, 47, 61, 50, 61, 61, 61]),
     (49, [61, 61, 61, 61, 61, 61, 61, 51, 61, 52, 61, 61, 61]),
     (50, [61, 61, 61, 61, 61, 61, 61, 47, 61, 61, 61, 61, 61]),
     (51, [61, 61, 61, 61, 61, 61, 61, 61, 61, 53, 61, 61, 61])]"

definition moves5 :: "(nat \<times> nat list) list" where
  "moves5 =
    [(52, [61, 61, 61, 61, 61, 61, 61, 51, 61, 54, 61, 61, 61]),
     (53, [61, 61, 61, 61, 61, 61, 61, 55, 61, 56, 61, 61, 61]),
     (54, [61, 61, 61, 61, 61, 61, 61, 51, 61, 61, 61, 61, 61]),
     (55, [61, 61, 61, 61, 61, 61, 61, 61, 61, 57, 61, 61, 61]),
     (56, [61, 61, 61, 61, 61, 61, 61, 55, 61, 58, 61, 61, 61]),
     (57, [61, 61, 61, 61, 61, 61, 61, 61, 61, 59, 61, 61, 61]),
     (58, [61, 61, 61, 61, 61, 61, 61, 55, 61, 61, 61, 61, 61]),
     (59, [61, 61, 61, 61, 61, 61, 61, 61, 61, 60, 61, 61, 61]),
     (60, [61, 61, 61, 61, 61, 61, 61, 61, 61, 61, 61, 61, 61]),
     (61, [61, 61, 61, 61, 61, 61, 61, 61, 61, 61, 61, 61, 61])]"

subsection \<open>Reading the tables\<close>

fun numbered :: "num \<Rightarrow> 'a list \<Rightarrow> (num \<times> 'a) list" where
  "numbered k [] = []"
| "numbered k (x # xs) = (k, x) # numbered (Num.inc k) xs"

lemma numbered_nth: "list_all (\<lambda>(i, v). xs ! (nat_of_num i - nat_of_num k) = v \<and> nat_of_num k \<le> nat_of_num i) (numbered k xs)"
proof (induction xs arbitrary: k)
  case (Cons x xs)
  have "(x # xs) ! (nat_of_num i - nat_of_num k) = v \<and> nat_of_num k \<le> nat_of_num i" if "(i, v) \<in> set (numbered (Num.inc k) xs)" for i v
    using Cons.IH [of "Num.inc k"] that by (fastforce simp: list_all_iff nat_of_num_inc nth_Cons')
  then have "list_all (\<lambda>(i, v). (x # xs) ! (nat_of_num i - nat_of_num k) = v \<and> nat_of_num k \<le> nat_of_num i) (numbered (Num.inc k) xs)"
    by (auto simp: list_all_iff)
  then show ?case by simp
qed simp

lemma nth_table:
  assumes "x0 # x1 # ys = xs"
  shows "xs ! 0 = x0 \<and> xs ! 1 = x1 \<and> list_all (\<lambda>(k, v). xs ! numeral k = v) (numbered (num.Bit0 num.One) ys)"
proof -
  have at: "xs ! numeral k = ys ! (nat_of_num k - Suc (Suc 0))" if "Suc (Suc 0) \<le> nat_of_num k" for k
  proof -
    have "nat_of_num k = Suc (Suc (nat_of_num k - Suc (Suc 0)))" using that by linarith
    then have "numeral k = Suc (Suc (nat_of_num k - Suc (Suc 0)))" by (simp only: nat_of_num_numeral)
    then show ?thesis using assms by auto
  qed
  have "list_all (\<lambda>(k, v). xs ! numeral k = v) (numbered (num.Bit0 num.One) ys)"
    using numbered_nth [of ys "num.Bit0 num.One"] by (fastforce simp: list_all_iff at)
  then show ?thesis using assms by auto
qed

lemmas yy_chk_at = nth_table [OF yy_chk_def [symmetric], simplified]
lemmas yy_base_at = nth_table [OF yy_base_def [symmetric], simplified]
lemmas yy_def_at = nth_table [OF yy_def_def [symmetric], simplified]
lemmas yy_nxt_at = nth_table [OF yy_nxt_def [symmetric], simplified]
lemmas yy_meta_at = nth_table [OF yy_meta_def [symmetric], simplified]

lemma yy_trans_step:
  "yy_trans st c =
     (if yy_chk ! (yy_base ! st + c) = st then yy_nxt ! (yy_base ! st + c)
      else if 62 \<le> yy_def ! st then yy_trans (yy_def ! st) (yy_meta ! c) else yy_trans (yy_def ! st) c)"
  unfolding yy_trans_def by (subst while_unfold) (simp add: Let_def)


lemmas yy_tables = yy_trans_step yy_chk_at yy_base_at yy_def_at yy_nxt_at yy_meta_at numeral_2_eq_2 [symmetric]

definition moves_ok :: "(nat \<times> nat list) list \<Rightarrow> bool" where
  "moves_ok ms \<longleftrightarrow> list_all (\<lambda>(q, row). map (yy_trans q) [1,2,3,4,5,6,7,8,9,10,11,12,13] = row) ms"

lemma moves_ok0: "moves_ok moves0"
  by (simp add: moves_ok_def moves0_def yy_tables)

lemma moves_ok1: "moves_ok moves1"
  by (simp add: moves_ok_def moves1_def yy_tables)

lemma moves_ok2: "moves_ok moves2"
  by (simp add: moves_ok_def moves2_def yy_tables)

lemma moves_ok3: "moves_ok moves3"
  by (simp add: moves_ok_def moves3_def yy_tables)

lemma moves_ok4: "moves_ok moves4"
  by (simp add: moves_ok_def moves4_def yy_tables)

lemma moves_ok5: "moves_ok moves5"
  by (simp add: moves_ok_def moves5_def yy_tables)

text \<open>
  That the residuals accept what the tables accept, and that the derivative by a class is the residual of
  the next state.
\<close>

definition residuals_ok :: "rexp list list \<Rightarrow> (nat \<times> nat list) list \<Rightarrow> bool" where
  "residuals_ok T ms \<longleftrightarrow>
     list_all (\<lambda>(q, row). first_match (T ! q) = yy_accept ! q \<and>
         list_all (\<lambda>(c, q'). map (deriv (class_val c)) (T ! q) = T ! q') (zip [1..<14] row)) ms"
lemma residuals_ok0: "residuals_ok residuals moves0"
  by code_simp

lemma residuals_ok1: "residuals_ok residuals moves1"
  by code_simp

lemma residuals_ok2: "residuals_ok residuals moves2"
  by code_simp

lemma residuals_ok3: "residuals_ok residuals moves3"
  by code_simp

lemma residuals_ok4: "residuals_ok residuals moves4"
  by code_simp

lemma residuals_ok5: "residuals_ok residuals moves5" by code_simp

subsection \<open>Derivatives\<close>

lemma star_Cons: "c # w \<in> star L \<longleftrightarrow> (\<exists>u v. w = u @ v \<and> c # u \<in> L \<and> v \<in> star L)"
proof
  assume "c # w \<in> star L"
  then show "\<exists>u v. w = u @ v \<and> c # u \<in> L \<and> v \<in> star L"
  proof (induction "c # w" arbitrary: w)
    case (star_app u v)
    then show ?case by (cases u) auto
  qed
next
  assume "\<exists>u v. w = u @ v \<and> c # u \<in> L \<and> v \<in> star L"
  then show "c # w \<in> star L" using star_app by fastforce
qed

lemma lang_alt: "lang (alt r s) = lang r \<union> lang s"
  by (auto simp: alt_def)

lemma lang_seq: "lang (seq r s) = {u @ v |u v. u \<in> lang r \<and> v \<in> lang s}"
  by (auto simp: seq_def)

lemma nullable_iff: "nullable r \<longleftrightarrow> [] \<in> lang r"
  by (induction r) (auto intro: star_Nil)

lemma deriv_lang: "w \<in> lang (deriv (\<lambda>a. sym_chars a c) r) \<longleftrightarrow> c # w \<in> lang r"
proof (induction r arbitrary: w)
  case (Seq r s)
  have "c # w \<in> lang (Seq r s) \<longleftrightarrow>
      (\<exists>u v. w = u @ v \<and> c # u \<in> lang r \<and> v \<in> lang s) \<or> [] \<in> lang r \<and> c # w \<in> lang s"
    by (auto simp: Cons_eq_append_conv)
  with Seq show ?case by (auto simp: lang_alt lang_seq nullable_iff)
next
  case (Star r)
  then show ?case by (simp add: lang_seq star_Cons)
qed (auto simp: lang_alt)

subsection \<open>The tables follow the rules\<close>

definition live :: "nat \<Rightarrow> bool" where "live q \<longleftrightarrow> 0 < q \<and> q < 62 \<and> q \<noteq> 3"

lemmas moves_defs = moves0_def moves1_def moves2_def moves3_def moves4_def moves5_def

definition moves :: "(nat \<times> nat list) list" where
  "moves = moves0 @ moves1 @ moves2 @ moves3 @ moves4 @ moves5"

lemma moves_ok: "moves_ok moves"
  using moves_ok0 moves_ok1 moves_ok2 moves_ok3 moves_ok4 moves_ok5 by (simp add: moves_ok_def moves_def)

lemma residuals_ok: "residuals_ok residuals moves"
  using residuals_ok0 residuals_ok1 residuals_ok2 residuals_ok3 residuals_ok4 residuals_ok5
  by (simp add: residuals_ok_def moves_def)

lemma moves_states: "map fst moves = [1, 2] @ [4..<62]"
  by code_simp

lemma moves_shape: "\<forall>(q, row)\<in>set moves. length row = 13 \<and> (\<forall>p\<in>set row. live p) \<and> (yy_base ! q = 86 \<longrightarrow> row = replicate 13 61)"
  unfolding live_def by code_simp

lemma residual_dead: "residuals ! 61 = replicate 15 Zero"
  by code_simp

lemma residual_starts: "residuals ! 1 = active False" "residuals ! 2 = active True"
  by code_simp+

lemma live_row: "live q \<Longrightarrow> \<exists>row. (q, row) \<in> set moves"
proof -
  assume "live q"
  then have "q = 1 \<or> q = 2 \<or> q \<in> set [4..<62]" unfolding live_def set_upt atLeastLessThan_iff by linarith
  then have "q \<in> set (map fst moves)" unfolding moves_states by (simp only: set_append list.set Un_iff insert_iff) blast
  then show ?thesis by auto
qed

lemma row_trans:
  assumes "(q, row) \<in> set moves"
  shows "length row = 13" "row ! (yy_class c - 1) = yy_trans q (yy_class c)" "yy_class c - 1 < 13"
proof -
  have i: "yy_class c - 1 < 13" "[1..<14] ! (yy_class c - 1) = yy_class c" using yy_class_range [of c] by auto
  show len: "length row = 13" using moves_shape assms by auto
  have "map (yy_trans q) [1,2,3,4,5,6,7,8,9,10,11,12,13] = row"
    using moves_ok assms by (auto simp: moves_ok_def list_all_iff)
  moreover have "[1,2,3,4,5,6,7,8,9,10,11,12,13] = [1..<14]" by (simp add: upt_rec)
  ultimately have "row = map (yy_trans q) [1..<14]" by (simp only:)
  then show "row ! (yy_class c - 1) = yy_trans q (yy_class c)" using i by simp
  show "yy_class c - 1 < 13" by (rule i(1))
qed

lemma yy_trans_live:
  assumes "live q"
  shows "live (yy_trans q (yy_class c))"
    and "residuals ! yy_trans q (yy_class c) = map (deriv (\<lambda>a. sym_chars a c)) (residuals ! q)"
    and "first_match (residuals ! q) = yy_accept ! q"
    and "yy_base ! q = 86 \<Longrightarrow> yy_trans q (yy_class c) = 61"
proof -
  obtain row where row: "(q, row) \<in> set moves" using live_row [OF assms] by blast
  let ?i = "yy_class c - 1"
  have i: "?i < 13" "[1..<14] ! ?i = yy_class c" using yy_class_range [of c] by auto
  have lv: "\<forall>p\<in>set row. live p" and dead: "yy_base ! q = 86 \<longrightarrow> row = replicate 13 61"
    using moves_shape row by auto
  note len = row_trans(1) [OF row] and at = row_trans(2) [OF row, of c]
  have "yy_trans q (yy_class c) \<in> set row" using i(1) len at by (metis nth_mem)
  with lv show "live (yy_trans q (yy_class c))" by blast
  have "residuals ! (row ! ?i) = map (deriv (class_val (yy_class c))) (residuals ! q)"
    and acc: "first_match (residuals ! q) = yy_accept ! q"
  proof -
    have "(yy_class c, row ! ?i) \<in> set (zip [1..<14] row)"
      using i len by (auto simp: set_zip intro!: exI [of _ ?i])
    then show "residuals ! (row ! ?i) = map (deriv (class_val (yy_class c))) (residuals ! q)"
      using residuals_ok row by (fastforce simp: residuals_ok_def list_all_iff)
    show "first_match (residuals ! q) = yy_accept ! q"
      using residuals_ok row by (fastforce simp: residuals_ok_def list_all_iff)
  qed
  moreover have "class_val (yy_class c) = (\<lambda>a. sym_chars a c)" by (simp add: fun_eq_iff sym_chars_class)
  ultimately show "residuals ! yy_trans q (yy_class c) = map (deriv (\<lambda>a. sym_chars a c)) (residuals ! q)"
    unfolding at [symmetric] by (simp only:)
  show "first_match (residuals ! q) = yy_accept ! q" by (rule acc)
  show "yy_base ! q = 86 \<Longrightarrow> yy_trans q (yy_class c) = 61" using dead at i(1) by auto
qed

end
