(* ===== verification/Lexer_Laws.thy ===== *)
theory Lexer_Laws
  imports Lexer_Rules
begin

text \<open>
  The scan takes the longest match of the first rule, and the tokens of a file are those the rules
  give, whatever parts of the file the buffer holds. Printed tokens are read back.
\<close>

subsection \<open>The longest match\<close>

text \<open>The number of the first rule that matches a text, 0 for none; and the choice among the prefixes of the input.\<close>

definition rule_for :: "bool \<Rightarrow> string \<Rightarrow> nat" where
  "rule_for bol u = (case filter (\<lambda>i. u \<in> lang (active bol ! i)) [0..<15] of [] \<Rightarrow> 0 | i # _ \<Rightarrow> Suc i)"

definition longest_match :: "bool \<Rightarrow> string \<Rightarrow> nat \<times> nat \<Rightarrow> bool" where
  "longest_match bol w x \<longleftrightarrow>
     (case x of (act, n) \<Rightarrow>
        act \<noteq> 0 \<and> n \<le> length w \<and> rule_for bol (take n w) = act \<and>
        (\<forall>m. n < m \<longrightarrow> m \<le> length w \<longrightarrow> rule_for bol (take m w) = 0))"

definition state_after :: "bool \<Rightarrow> nat \<Rightarrow> string \<Rightarrow> bool" where
  "state_after bol q u \<longleftrightarrow> live q \<and> length (residuals ! q) = 15 \<and>
     (\<forall>i<15. \<forall>v. v \<in> lang (residuals ! q ! i) \<longleftrightarrow> u @ v \<in> lang (active bol ! i))"

lemma length_active [simp]: "length (active bol) = 15"
  by (simp add: active_def rules_def)

lemma after_start: "state_after bol (yy_start_state bol) []"
  by (cases bol) (simp_all add: state_after_def yy_start_state_def live_def residual_starts [unfolded One_nat_def] numeral_2_eq_2 [symmetric])

lemma after_step:
  assumes "state_after bol q u"
  shows "state_after bol (yy_trans q (yy_class c)) (u @ [c])"
  using assms yy_trans_live(1,2) [of q c] by (auto simp: state_after_def deriv_lang)

lemma after_accept:
  assumes "state_after bol q u"
  shows "rule_for bol u = yy_accept ! q"
proof -
  have "filter (\<lambda>i. nullable (residuals ! q ! i)) [0..<15] = filter (\<lambda>i. u \<in> lang (active bol ! i)) [0..<15]"
    using assms by (intro filter_cong) (auto simp: state_after_def nullable_iff)
  moreover have "first_match (residuals ! q) = yy_accept ! q" "length (residuals ! q) = 15"
    using assms yy_trans_live(3) by (auto simp: state_after_def)
  ultimately show ?thesis by (simp add: rule_for_def first_match_def)
qed

lemma after_dead:
  assumes "state_after bol q u" "yy_base ! q = 86" "v \<noteq> []"
  shows "rule_for bol (u @ v) = 0"
proof -
  obtain c v' where v: "v = c # v'" using assms(3) by (cases v) auto
  have "state_after bol 61 (u @ [c])" using after_step [OF assms(1), of c] yy_trans_live(4) [of q c] assms by (simp add: state_after_def)
  then have "\<forall>i<15. u @ v \<notin> lang (active bol ! i)" unfolding state_after_def residual_dead by (auto simp: v)
  then have "filter (\<lambda>i. u @ v \<in> lang (active bol ! i)) [0..<15] = []" by (auto simp: filter_empty_conv)
  then show ?thesis by (simp add: rule_for_def)
qed

text \<open>What the last accepting position stands for: the longest match among the shorter prefixes.\<close>

definition la_best :: "bool \<Rightarrow> string \<Rightarrow> nat \<Rightarrow> (nat \<times> nat) option \<Rightarrow> bool" where
  "la_best bol w N la \<longleftrightarrow>
     (case la of
        None \<Rightarrow> \<forall>m<N. rule_for bol (take m w) = 0
      | Some (p, k) \<Rightarrow> k < N \<and> yy_accept ! p \<noteq> 0 \<and> rule_for bol (take k w) = yy_accept ! p \<and>
          (\<forall>m. k < m \<longrightarrow> m < N \<longrightarrow> rule_for bol (take m w) = 0))"

lemma la_best_step:
  assumes "la_best bol w (length u) la" "state_after bol q u" "prefix u w"
  shows "la_best bol w (Suc (length u)) (if yy_accept ! q \<noteq> 0 then Some (q, length u) else la)"
proof -
  have "rule_for bol (take (length u) w) = yy_accept ! q"
    using after_accept [OF assms(2)] assms(3) by (auto simp: prefix_def)
  then show ?thesis using assms(1) unfolding la_best_def
    by (auto simp: less_Suc_eq split: option.splits if_splits)
qed

lemma find_longest:
  assumes la: "la_best bol w n la" and q: "state_after bol q u" and u: "prefix u w" "length u = n"
    and more: "\<And>m. n < m \<Longrightarrow> m \<le> length w \<Longrightarrow> rule_for bol (take m w) = 0"
    and found: "fst (yy_find_action q n la) \<noteq> 0"
  shows "longest_match bol w (yy_find_action q n la)"
proof -
  have acc: "rule_for bol (take n w) = yy_accept ! q"
    using after_accept [OF q] u by (auto simp: prefix_def)
  have n: "n \<le> length w" using u prefix_length_le by blast
  show ?thesis
  proof (cases "yy_accept ! q = 0")
    case False
    then show ?thesis using acc n more by (simp add: longest_match_def yy_find_action_def)
  next
    case True
    with found obtain p k where p: "la = Some (p, k)" by (cases la) (auto simp: yy_find_action_def)
    have "rule_for bol (take m w) = 0" if "k < m" "m \<le> length w" for m
      using la that more [of m] acc True by (cases m n rule: linorder_cases) (auto simp: la_best_def p)
    then show ?thesis using la n True by (auto simp: longest_match_def yy_find_action_def la_best_def p)
  qed
qed

lemma yy_match_longest:
  assumes "la_best bol (u @ cs @ rest) (length u) la" "state_after bol q u" "yy_match q (length u) la cs = Inl (q', n, la')"
    "fst (yy_find_action q' n la') \<noteq> 0"
  shows "longest_match bol (u @ cs @ rest) (yy_find_action q' n la')"
  using assms
proof (induction cs arbitrary: u q la)
  case (Cons c cs)
  let ?la = "if yy_accept ! q \<noteq> 0 then Some (q, length u) else la"
  let ?q = "yy_trans q (yy_class c)"
  let ?w = "u @ (c # cs) @ rest"
  have la: "la_best bol ?w (Suc (length u)) ?la"
    by (rule la_best_step [OF Cons.prems(1,2)]) (simp add: prefix_def)
  have aft: "state_after bol ?q (u @ [c])" by (rule after_step [OF Cons.prems(2)])
  show ?case
  proof (cases "yy_base ! ?q = 86")
    case True
    with Cons.prems(3) have eq: "q' = ?q" "n = Suc (length u)" "la' = ?la" by (simp_all add: Let_def)
    show ?thesis
    proof (rule find_longest [of bol ?w n la' q' "u @ [c]"])
      show "rule_for bol (take m ?w) = 0" if "n < m" "m \<le> length ?w" for m
      proof -
        have "take m ?w = (u @ [c]) @ take (m - n) (cs @ rest)" "take (m - n) (cs @ rest) \<noteq> []"
          using that by (auto simp: eq(2) Suc_diff_Suc take_Cons' simp flip: diff_Suc_1)
        then show ?thesis using after_dead [OF aft True] by simp
      qed
    qed (use la aft eq Cons.prems(4) in \<open>simp_all add: prefix_def\<close>)
  next
    case False
    with Cons.prems(3) have "yy_match ?q (length (u @ [c])) ?la cs = Inl (q', n, la')" by (simp add: Let_def)
    from Cons.IH [OF _ aft this Cons.prems(4)] la show ?thesis by simp
  qed
qed simp

lemma yy_match_whole:
  assumes "la_best bol (u @ cs) (length u) la" "state_after bol q u" "yy_match q (length u) la cs = Inr (q', la')"
    "fst (yy_find_action q' (length (u @ cs)) la') \<noteq> 0"
  shows "longest_match bol (u @ cs) (yy_find_action q' (length (u @ cs)) la')"
  using assms
proof (induction cs arbitrary: u q la)
  case Nil
  then show ?case using find_longest [of bol u "length u" la q u] by simp
next
  case (Cons c cs)
  let ?la = "if yy_accept ! q \<noteq> 0 then Some (q, length u) else la"
  let ?q = "yy_trans q (yy_class c)"
  have la: "la_best bol (u @ c # cs) (Suc (length u)) ?la"
    by (rule la_best_step [OF Cons.prems(1,2)]) (simp add: prefix_def)
  have "yy_match ?q (length (u @ [c])) ?la cs = Inr (q', la')" using Cons.prems(3) by (simp add: Let_def split: if_splits)
  from Cons.IH [OF _ after_step [OF Cons.prems(2)] this] la Cons.prems(4) show ?case by simp
qed

lemma la_best_start: "la_best bol w 0 None"
  by (simp add: la_best_def)

subsection \<open>Scanning follows the rules, whatever the buffer\<close>

text \<open>The characters a scan still has before it.\<close>

definition unscanned :: "yy_buffer \<Rightarrow> string \<Rightarrow> string" where
  "unscanned b file = yy_ch_buf b @ (if yy_eof_pending b then [] else file)"

lemma yy_get_next_buffer_unscanned:
  assumes "yy_get_next_buffer b file = (act, b', file')" "buffer_inv b"
  shows "buffer_inv b' \<and> (act \<noteq> EOB_ACT_END_OF_FILE \<longrightarrow> unscanned b' file' = unscanned b file)"
    and "act \<noteq> EOB_ACT_CONTINUE_SCAN \<Longrightarrow> unscanned b file = yy_ch_buf b"
    and "act = EOB_ACT_END_OF_FILE \<Longrightarrow> b' = yy_flush_buffer b' \<and> yy_ch_buf b = []"
    and "act \<noteq> EOB_ACT_END_OF_FILE \<Longrightarrow> yy_at_bol b' = yy_at_bol b"
    and "act = EOB_ACT_LAST_MATCH \<Longrightarrow> yy_ch_buf b' = yy_ch_buf b \<and> yy_ch_buf b \<noteq> []"
  using assms
  by (auto simp: yy_get_next_buffer_def unscanned_def buffer_inv_def yy_flush_buffer_def YY_READ_BUF_SIZE_def Let_def
      split: if_splits)

lemma yy_scan_longest:
  assumes "yy_scan b inp = (r, b', file')" "buffer_inv b"
  shows "buffer_inv b' \<and>
    (case r of
       None \<Rightarrow> unscanned b inp = [] \<and> b' = yy_flush_buffer b'
     | Some (act, n) \<Rightarrow> unscanned b' file' = unscanned b inp \<and>
         longest_match (yy_at_bol b) (unscanned b inp) (act, n) \<and> yy_at_bol b' = yy_at_bol b \<and>
         0 < n \<and> n \<le> length (yy_ch_buf b'))"
  using assms
proof (induction b inp rule: yy_scan.induct)
  case (1 b inp)
  let ?bol = "yy_at_bol b"
  let ?m = "yy_match (yy_start_state ?bol) 0 None (yy_ch_buf b)"
  have st: "yy_start_state ?bol \<in> {1, 2}" by (simp add: yy_start_state_def)
  show ?case
  proof (cases ?m)
    case (Inl x)
    obtain q n la where x: "x = (q, n, la)" by (metis prod_cases3)
    obtain act k where f: "yy_find_action q n la = (act, k)" by fastforce
    have eq: "r = Some (act, k)" "b' = b" "file' = inp" using 1(2) yy_scan.simps [of b inp] by (simp_all add: Inl x f)
    have "yy_ch_buf b \<noteq> []" using Inl by (cases "yy_ch_buf b") auto
    from yy_match_start(1) [OF st this Inl [unfolded x] f] have ok: "act \<noteq> 0" "0 < k" "k \<le> length (yy_ch_buf b)" by auto
    from yy_match_longest [of ?bol "[]" "yy_ch_buf b" "if yy_eof_pending b then [] else inp" None "yy_start_state ?bol" q n la]
      ok f after_start [of ?bol] la_best_start Inl [unfolded x]
    have "longest_match ?bol (unscanned b inp) (act, k)" by (simp add: unscanned_def)
    with ok 1(3) show ?thesis by (simp add: eq)
  next
    case (Inr x)
    obtain q la where x: "x = (q, la)" by fastforce
    obtain a c f where n: "yy_get_next_buffer b inp = (a, c, f)" by (metis prod_cases3)
    have eq: "(case a of EOB_ACT_END_OF_FILE \<Rightarrow> (None, c, f)
           | EOB_ACT_LAST_MATCH \<Rightarrow> (Some (yy_find_action q (length (yy_ch_buf c)) la), c, f)
           | EOB_ACT_CONTINUE_SCAN \<Rightarrow> yy_scan c f) = (r, b', file')"
      using 1(2) yy_scan.simps [of b inp] by (cases a) (auto simp: Inr x n)
    note next_ok = yy_get_next_buffer_unscanned [OF n 1(3)]
    show ?thesis
    proof (cases a)
      case EOB_ACT_CONTINUE_SCAN
      with 1(1) [OF Inr x [symmetric] n [symmetric] EOB_ACT_CONTINUE_SCAN refl] eq next_ok(1,4)
      show ?thesis by (auto split: option.splits)
    next
      case EOB_ACT_LAST_MATCH
      then have c: "yy_ch_buf c = yy_ch_buf b" "yy_ch_buf b \<noteq> []" "unscanned b inp = yy_ch_buf b" "yy_at_bol c = ?bol"
        using next_ok(2,4,5) by simp_all
      obtain act k where fa: "yy_find_action q (length (yy_ch_buf b)) la = (act, k)" by fastforce
      from yy_match_start(2) [OF st c(2) Inr [unfolded x] fa] have ok: "act \<noteq> 0" "0 < k" "k \<le> length (yy_ch_buf b)" by auto
      from yy_match_whole [of ?bol "[]" "yy_ch_buf b" None "yy_start_state ?bol" q la] ok fa after_start [of ?bol]
        la_best_start Inr [unfolded x]
      have "longest_match ?bol (yy_ch_buf b) (act, k)" by simp
      with ok c next_ok(1) eq EOB_ACT_LAST_MATCH fa show ?thesis by auto
    next
      case EOB_ACT_END_OF_FILE
      with eq next_ok(1,2,3) show ?thesis by auto
    qed
  qed
qed

text \<open>
  The tokens the rules give: at every point the longest match, of the first rule among several, is
  taken off the input and its action is performed.
\<close>

inductive tokens_of :: "bool \<Rightarrow> string \<Rightarrow> (token \<times> bool) list \<Rightarrow> bool" where
  tokens_end: "tokens_of bol [] []"
| tokens_skip: "longest_match bol w (act, n) \<Longrightarrow> 0 < n \<Longrightarrow> yy_action act (take n w) = None
    \<Longrightarrow> tokens_of (w ! (n - 1) = CHR 0x0A) (drop n w) ts \<Longrightarrow> tokens_of bol w ts"
| tokens_next: "longest_match bol w (act, n) \<Longrightarrow> 0 < n \<Longrightarrow> yy_action act (take n w) = Some t
    \<Longrightarrow> tokens_of (w ! (n - 1) = CHR 0x0A) (drop n w) ts \<Longrightarrow> tokens_of bol w (t # ts)"

lemma unscanned_advance:
  assumes "0 < n" "n \<le> length (yy_ch_buf b)" "buffer_inv b"
  shows "unscanned (yy_advance n b) inp = drop n (unscanned b inp)"
    and "yy_at_bol (yy_advance n b) = (unscanned b inp ! (n - 1) = CHR 0x0A)"
    and "take n (yy_ch_buf b) = take n (unscanned b inp)"
    and "buffer_inv (yy_advance n b)"
  using assms by (auto simp: unscanned_def yy_advance_def nth_append buffer_inv_def)

lemma yylex_tokens:
  assumes "yylex b inp = (r, b', file')" "buffer_inv b"
  shows "buffer_inv b' \<and> (r = None \<longrightarrow> b' = yy_flush_buffer b') \<and>
    (\<forall>ts. (case r of None \<Rightarrow> ts = [] | Some t \<Rightarrow> \<exists>us. ts = t # us \<and> tokens_of (yy_at_bol b') (unscanned b' file') us)
      \<longrightarrow> tokens_of (yy_at_bol b) (unscanned b inp) ts)"
  using assms
proof (induction b inp rule: yylex.induct)
  case (1 b inp)
  obtain x c f where s: "yy_scan b inp = (x, c, f)" by (metis prod_cases3)
  note scan = yy_scan_longest [OF s 1(3)]
  show ?case
  proof (cases x)
    case None
    with 1(2) yylex.simps [of b inp] s have "r = None" "b' = c" "file' = f" by simp_all
    with scan None show ?thesis by (auto intro: tokens_end)
  next
    case (Some y)
    obtain act n where y: "y = (act, n)" by fastforce
    have lm: "longest_match (yy_at_bol b) (unscanned b inp) (act, n)" and n: "0 < n" "n \<le> length (yy_ch_buf c)"
      and inv: "buffer_inv c" and un: "unscanned c f = unscanned b inp"
      using scan by (simp_all add: Some y)
    note adv = unscanned_advance(1-3) [OF n inv, where inp = f, unfolded un] unscanned_advance(4) [OF n inv]
    show ?thesis
    proof (cases "yy_action act (take n (yy_ch_buf c))")
      case act: None
      with 1(2) yylex.simps [of b inp] s Some y have rec: "yylex (yy_advance n c) f = (r, b', file')" by simp
      have "tokens_of (yy_at_bol b) (unscanned b inp) ts" if "tokens_of (yy_at_bol (yy_advance n c)) (unscanned (yy_advance n c) f) ts" for ts
        using tokens_skip [OF lm n(1)] that act adv(1,2,3) by simp
      with 1(1) [OF s [symmetric] Some y [symmetric] refl act rec adv(4)] show ?thesis by blast
    next
      case act: (Some t)
      with 1(2) yylex.simps [of b inp] s Some y have eq: "r = Some t" "b' = yy_advance n c" "file' = f" by simp_all
      have a: "yy_action act (take n (unscanned b inp)) = Some t" using act adv(3) by simp
      show ?thesis using tokens_next [OF lm n(1) a] adv(1,2,4) by (auto simp: eq simp del: split_paired_All)
    qed
  qed
qed

lemma yylex_all_tokens:
  assumes "yylex_all b inp = (ts, e)" "buffer_inv b"
  shows "tokens_of (yy_at_bol b) (unscanned b inp) (map fst ts) \<and> e = yy_flush_buffer e \<and> buffer_inv e \<and>
    (\<forall>x\<in>set ts. buffer_inv (snd x))"
  using assms
proof (induction b inp arbitrary: ts rule: yylex_all.induct)
  case (1 b inp)
  obtain r c f where s: "yylex b inp = (r, c, f)" by (metis prod_cases3)
  note lex = yylex_tokens [OF s 1(3)]
  show ?case
  proof (cases r)
    case None
    with 1(2) yylex_all.simps [of b inp] s have "ts = []" "e = c" by simp_all
    with lex None show ?thesis by auto
  next
    case (Some t)
    obtain us e' where u: "yylex_all c f = (us, e')" by fastforce
    with 1(2) yylex_all.simps [of b inp] s Some have eq: "ts = (t, c) # us" "e = e'" by simp_all
    from 1(1) [OF s [symmetric] Some refl, of us] u eq lex Some show ?thesis by auto
  qed
qed

lemma longest_match_unique:
  assumes "longest_match bol w (act, n)" "longest_match bol w (act', n')"
  shows "act' = act \<and> n' = n"
proof -
  have "n' = n" using assms by (cases n n' rule: linorder_cases) (auto simp: longest_match_def)
  with assms show ?thesis by (simp add: longest_match_def)
qed

lemma tokens_of_unique: "tokens_of bol w ts \<Longrightarrow> tokens_of bol w us \<Longrightarrow> us = ts"
proof (induction arbitrary: us rule: tokens_of.induct)
  case (tokens_end bol)
  then show ?case by cases (auto simp: longest_match_def)
next
  case (tokens_skip bol w act n ts)
  note match = tokens_skip.hyps(1)
  from tokens_skip.prems show ?case
  proof cases
    case tokens_end
    with match tokens_skip.hyps(2) show ?thesis by (simp add: longest_match_def)
  next
    case (tokens_skip act' n')
    with longest_match_unique [OF match tokens_skip(1)] tokens_skip.IH show ?thesis by simp
  next
    case (tokens_next act' n')
    with longest_match_unique [OF match tokens_next(2)] tokens_skip.hyps(3) show ?thesis by simp
  qed
next
  case (tokens_next bol w act n t ts)
  note match = tokens_next.hyps(1)
  from tokens_next.prems show ?case
  proof cases
    case tokens_end
    with match tokens_next.hyps(2) show ?thesis by (simp add: longest_match_def)
  next
    case (tokens_skip act' n')
    with longest_match_unique [OF match tokens_skip(1)] tokens_next.hyps(3) show ?thesis by simp
  next
    case (tokens_next act' n' t' us')
    with longest_match_unique [OF match tokens_next(2)] tokens_next.hyps(3) tokens_next.IH show ?thesis by simp
  qed
qed

text \<open>
  C7: the lexer delivers the tokens the rules of \<open>exports.l\<close> give for the characters before it, no others,
  and whatever part of the file its buffer holds: at every point the longest match, of the first rule
  among several. At the end of the file the buffer is empty and stands at the beginning of a line.
\<close>

theorem lexer_follows_rules:
  assumes "buffer_inv b"
  shows "(tokens_of (yy_at_bol b) (unscanned b inp) ts \<longleftrightarrow> ts = map fst (fst (yylex_all b inp))) \<and>
    snd (yylex_all b inp) = yy_flush_buffer (snd (yylex_all b inp))"
  using yylex_all_tokens [OF prod.collapse [symmetric] assms, of inp] tokens_of_unique by auto

subsection \<open>The text of a list of tokens\<close>

definition yy_run :: "nat \<Rightarrow> string \<Rightarrow> nat" where
  "yy_run q u = foldl (\<lambda>q c. yy_trans q (yy_class c)) q u"

lemma after_run: "state_after bol (yy_run (yy_start_state bol) u) u"
proof (induction u rule: rev_induct)
  case Nil
  show ?case using after_start by (simp add: yy_run_def)
next
  case (snoc c u)
  from after_step [OF this, of c] show ?case by (simp add: yy_run_def)
qed

lemmas rule_for_run = after_accept [OF after_run]

text \<open>A character that ends every match of a rule.\<close>

definition stops :: "nat \<Rightarrow> nat \<Rightarrow> bool" where
  "stops act c \<longleftrightarrow> list_all (\<lambda>(q, row). yy_accept ! q = act \<longrightarrow> row ! (c - 1) = 61) moves"

lemma longest_stop:
  assumes "rule_for bol u = act" "act \<noteq> 0" "w = [] \<or> stops act (yy_class (hd w))"
  shows "longest_match bol (u @ w) (act, length u)"
proof (cases w)
  case Nil
  with assms show ?thesis by (simp add: longest_match_def)
next
  case (Cons c rest)
  let ?q = "yy_run (yy_start_state bol) u"
  have q: "live ?q" and acc: "yy_accept ! ?q = act" using after_run [of bol u] rule_for_run [of bol u] assms by (simp_all add: state_after_def)
  obtain row where row: "(?q, row) \<in> set moves" using live_row [OF q] by blast
  have "row ! (yy_class c - 1) = 61" using assms(3) row acc Cons by (auto simp: stops_def list_all_iff)
  then have "yy_trans ?q (yy_class c) = 61" using row_trans [OF row] by simp
  then have aft: "state_after bol 61 (u @ [c])" using after_step [OF after_run [of bol u], of c] by simp
  have "rule_for bol (take m (u @ w)) = 0" if "length u < m" for m
  proof -
    have "take m (u @ w) = (u @ [c]) @ take (m - length u - 1) rest" using that by (simp add: Cons take_Cons')
    then have "\<forall>i<15. take m (u @ w) \<notin> lang (active bol ! i)" using aft unfolding state_after_def residual_dead by auto
    then have "filter (\<lambda>i. take m (u @ w) \<in> lang (active bol ! i)) [0..<15] = []" by (auto simp: filter_empty_conv)
    then show ?thesis by (simp add: rule_for_def)
  qed
  with assms show ?thesis by (simp add: longest_match_def)
qed

lemma longest_dead:
  assumes "yy_base ! yy_run (yy_start_state bol) u = 86" "rule_for bol u = act" "act \<noteq> 0"
  shows "longest_match bol (u @ w) (act, length u)"
proof -
  have "rule_for bol (take m (u @ w)) = 0" if "length u < m" "m \<le> length (u @ w)" for m
    using after_dead [OF after_run assms(1), of "take (m - length u) w"] that by (cases w) auto
  with assms show ?thesis by (simp add: longest_match_def)
qed

fun spell :: "token \<Rightarrow> string" where
  "spell (T_PATH x) = x" | "spell (T_ID x) = x" | "spell (T_OPTVALUE x) = CHR ''='' # x"
| "spell (T_WHITE x) = x" | "spell (T_IP x) = x" | "spell (T_NET x) = x"
| "spell (T_OLDNET x) = x" | "spell (T_CHAR i) = [char_of (nat i)]"

definition file_text :: "token list \<Rightarrow> string" where
  "file_text ts = concat (map spell ts)"

text \<open>A token that the rules read back from its text alone.\<close>

definition spelled :: "bool \<Rightarrow> token \<Rightarrow> bool" where
  "spelled bol t \<longleftrightarrow> spell t \<noteq> [] \<and> (t = T_CHAR 10 \<or> CHR 0x0A \<notin> set (spell t)) \<and>
     yy_action (rule_for bol (spell t)) (spell t) = Some (t, False)"

fun linked :: "bool \<Rightarrow> token list \<Rightarrow> bool" where
  "linked bol [] \<longleftrightarrow> True"
| "linked bol (t # ts) \<longleftrightarrow> spelled bol t \<and>
     (yy_base ! yy_run (yy_start_state bol) (spell t) = 86 \<or> ts = []
      \<or> stops (rule_for bol (spell t)) (yy_class (hd (spell (hd ts))))) \<and>
     linked (t = T_CHAR 10) ts"

lemma linked_tokens: "linked bol ts \<Longrightarrow> tokens_of bol (file_text ts) (map (\<lambda>t. (t, False)) ts)"
proof (induction ts arbitrary: bol)
  case Nil
  then show ?case by (simp add: file_text_def tokens_end)
next
  case (Cons t ts)
  let ?u = "spell t" and ?w = "file_text ts"
  have sp: "?u \<noteq> []" "t = T_CHAR 10 \<or> CHR 0x0A \<notin> set ?u" "yy_action (rule_for bol ?u) ?u = Some (t, False)"
    using Cons.prems by (simp_all add: spelled_def)
  have act: "rule_for bol ?u \<noteq> 0" using sp(3) by (cases "rule_for bol ?u = 0") (simp_all add: yy_action_def)
  have hd: "hd ?w = hd (spell (hd ts))" if "ts \<noteq> []"
    using that Cons.prems by (cases ts) (auto simp: file_text_def spelled_def)
  have "longest_match bol (?u @ ?w) (rule_for bol ?u, length ?u)"
  proof (cases "yy_base ! yy_run (yy_start_state bol) ?u = 86")
    case True
    then show ?thesis using act by (intro longest_dead) auto
  next
    case False
    with Cons.prems hd have "?w = [] \<or> stops (rule_for bol ?u) (yy_class (hd ?w))"
      by (cases ts) (auto simp: file_text_def)
    then show ?thesis using act by (intro longest_stop) auto
  qed
  moreover have "((?u @ ?w) ! (length ?u - 1) = CHR 0x0A) = (t = T_CHAR 10)"
  proof -
    have "(?u @ ?w) ! (length ?u - 1) = last ?u" using sp(1) by (simp add: nth_append last_conv_nth)
    then show ?thesis
    proof (cases "t = T_CHAR 10")
      case True
      moreover have "char_of (10 :: nat) = CHR 0x0A" by code_simp
      ultimately show ?thesis by simp
    next
      case False
      then have "last ?u \<noteq> CHR 0x0A" using sp(2) last_in_set [OF sp(1)] by metis
      with False \<open>_ = last ?u\<close> show ?thesis by simp
    qed
  qed
  ultimately have "tokens_of bol (?u @ ?w) ((t, False) # map (\<lambda>t. (t, False)) ts)"
    using sp Cons by (intro tokens_next [of bol _ "rule_for bol ?u" "length ?u"]) simp_all
  then show ?case by (simp add: file_text_def)
qed

lemma stops_table:
  "stops 11 2" "stops 11 3" "stops 12 1" "stops 12 10" "stops 12 13" "stops 6 1" "stops 7 1" "stops 8 1"
  "stops 13 1" "stops 13 6" "stops 13 11" "stops 10 6"
  by code_simp+

lemma char_runs:
  "yy_run 1 [CHR ''('' ] = 4" "yy_run 1 [CHR '')'' ] = 4" "yy_run 1 [CHR '','' ] = 4" "yy_run 1 [CHR 0x0A] = 6"
  "yy_run 1 [CHR '' ''] = 5"
  by code_simp+

fun rule_no :: "token \<Rightarrow> nat" where
  "rule_no (T_PATH x) = 11" | "rule_no (T_ID x) = 13" | "rule_no (T_OPTVALUE x) = 10"
| "rule_no (T_WHITE x) = 12" | "rule_no (T_IP x) = 6" | "rule_no (T_NET x) = 7"
| "rule_no (T_OLDNET x) = 8" | "rule_no (T_CHAR i) = (if i = 10 then 15 else 14)"

lemma copy_text_length: "copy_text u = (v, e) \<Longrightarrow> length v \<le> length u"
  using length_takeWhile_le [of "\<lambda>c. of_char c \<noteq> (0 :: nat)" "take (length v) u"]
  by (auto simp: copy_text_def Let_def split: if_splits intro: order_trans [OF length_takeWhile_le])

lemma spelled_rule:
  assumes "spelled bol t" "\<And>i. t \<noteq> T_CHAR i"
  shows "rule_for bol (spell t) = rule_no t"
proof -
  let ?r = "rule_for bol (spell t)"
  have a: "yy_action ?r (spell t) = Some (t, False)" and ne: "spell t \<noteq> []" using assms(1) by (simp_all add: spelled_def)
  have "?r \<noteq> 9"
  proof
    assume "?r = 9"
    with a have "apfst T_PATH (copy_text (take (length (spell t) - 2) (drop 1 (spell t)))) = (t, False)"
      by (simp add: yy_action_def)
    then obtain p where t: "t = T_PATH p" "copy_text (take (length p - 2) (drop 1 p)) = (p, False)"
      by (cases "copy_text (take (length (spell t) - 2) (drop 1 (spell t)))") auto
    from copy_text_length [OF t(2)] ne show False by (cases p) (auto simp: t(1))
  qed
  then show ?thesis using a assms(2) unfolding yy_action_def
    by (cases t; cases "copy_text (spell t)"; cases "copy_text (drop (Suc 0) (spell t))") (auto split: if_splits)
qed

lemma rule_for_lang: "rule_for bol u = Suc i \<Longrightarrow> u \<in> lang (active bol ! i)"
  unfolding rule_for_def
  by (cases "filter (\<lambda>i. u \<in> lang (active bol ! i)) [0..<15]") (auto simp: filter_eq_Cons_iff)

definition begins :: "sym \<Rightarrow> rexp \<Rightarrow> bool" where
  "begins a r \<longleftrightarrow> (\<forall>u\<in>lang r. u \<noteq> [] \<and> sym_chars a (hd u))"

lemma begins_intros: "begins a (Sym a)" "begins a r \<Longrightarrow> begins a (Seq r s)"
  by (fastforce simp: begins_def)+

lemma rule_begins: "begins a (active bol ! i) \<Longrightarrow> rule_for bol u = Suc i \<Longrightarrow> class_val (yy_class (hd u)) a"
  using rule_for_lang [of bol u i] by (simp add: begins_def sym_chars_class)

lemma first_class:
  "rule_for False u = 13 \<Longrightarrow> yy_class (hd u) = 13"
  "rule_for False u = 6 \<or> rule_for False u = 7 \<or> rule_for False u = 8 \<Longrightarrow> yy_class (hd u) = 10"
  "rule_for False u = 10 \<Longrightarrow> yy_class (hd u) = 11"
proof -
  have act: "active False ! 12 = Seq (Sym Lower) (Star (Sym Idchar))" "active False ! 5 = IP"
    "active False ! 6 = Seq IP (Seq (Sym Slash) NETCOMP)" "active False ! 7 = Seq IP (Seq (Sym Slash) IP)"
    "active False ! 9 = Seq (Sym Equals) (Star (Sym Optchar))"
    by (simp_all add: active_def rules_def)
  have ip: "begins Digit IP" unfolding IP_def IPCOMP_def by (intro begins_intros)
  note val = bspec [OF class_val_sets yy_class_range [of "hd u"]]
  show "rule_for False u = 13 \<Longrightarrow> yy_class (hd u) = 13"
    using rule_begins [of Lower False 12 u] begins_intros act(1) val by simp
  show "rule_for False u = 10 \<Longrightarrow> yy_class (hd u) = 11"
    using rule_begins [of Equals False 9 u] begins_intros act(5) val by simp
  show "rule_for False u = 6 \<or> rule_for False u = 7 \<or> rule_for False u = 8 \<Longrightarrow> yy_class (hd u) = 10"
  proof -
    assume "rule_for False u = 6 \<or> rule_for False u = 7 \<or> rule_for False u = 8"
    then have "class_val (yy_class (hd u)) Digit"
      using rule_begins [of Digit False 5 u] rule_begins [of Digit False 6 u] rule_begins [of Digit False 7 u]
      by (elim disjE) (simp_all add: act ip begins_intros(2) [OF ip])
    with val show ?thesis by simp
  qed
qed

end
