(* ===== verification/Config_Props.thy ===== *)
theory Config_Props
  imports Config Lexer_Laws
begin

text \<open>
  Loading the exports file: \<open>exports_parse\<close>, and what the lexer, the parser and its actions make of a
  file: a printed list of exports is read back, a network matches the
  addresses it names, the last of contradicting options wins, and a byte the lexer does not know
  ends the file without a message.
\<close>

subsection \<open>Loading the file\<close>

definition clear_cur :: pstate where
  "clear_cur = \<lparr>e_list = [], cur_hosts = [], cur_host = anon_host, ne_list = [], ne_item = [], e_error = False\<rparr>"

text \<open>
  \<open>file\<close> is the bytes of the exports file, \<open>None\<close> where it cannot be opened. The lists of the running
  server are left alone while a lookup goes through them. The lexer goes on where its buffer stands.
\<close>

definition exports_parse ::
  "'w os \<Rightarrow> (string \<Rightarrow> uint32 option) \<Rightarrow> string option \<Rightarrow> ('w, 'z) expo_scheme
   \<Rightarrow> (bool \<times> ('w, 'z) expo_scheme) option" where
  "exports_parse os dns efile s =
     (if exports_access s then Some (False, s)
      else case efile of
             None \<Rightarrow> Some (False, s\<lparr>export_list := [], exports_nfslist := []\<rparr>)
           | Some bytes \<Rightarrow>
               (let (toks, eof) = yylex_all (yy_current_buffer s) bytes
                in case yyparse os dns (map (fst \<circ> fst) toks) (clear_cur, s) of
                     None \<Rightarrow> None
                   | Some (_, rest, ps, s) \<Rightarrow>
                       (let n = length toks - length rest;
                            too_long = (\<exists>x\<in>set (take (n + 1) toks). snd (fst x));
                            s = s\<lparr>yy_current_buffer := (if rest = [] then eof else snd (toks ! n))\<rparr>
                        in if e_error ps \<or> too_long
                           then Some (False, s\<lparr>export_list := [], exports_nfslist := []\<rparr>)
                           else Some (True, s\<lparr>export_list := e_list ps, exports_nfslist := ne_list ps\<rparr>))))"

subsection \<open>Networks\<close>

lemma bit_bytes_le: "i < n \<Longrightarrow> bit (bytes_le n w ! i) j \<longleftrightarrow> j < 8 \<and> bit w (8 * i + j)"
  by (auto simp: bytes_le_nth bit_simps add.commute)

lemma bit_htonl: "bit (htonl w) i \<longleftrightarrow> i < 32 \<and> bit w (8 * (3 - i div 8) + i mod 8)"
proof (cases "i < 32")
  case True
  then have "i div 8 < 4" by simp
  then have "rev (bytes_le 4 w) ! (i div 8) = bytes_le 4 w ! (3 - i div 8)"
    by (simp add: rev_nth)
  with True show ?thesis by (simp add: htonl_def bit_word_le bit_bytes_le)
qed (simp add: htonl_def bit_word_le)

lemma htonl_index:
  fixes i :: nat
  assumes "i < 32"
  defines "k \<equiv> 8 * (3 - i div 8) + i mod 8"
  shows "k < 32" "8 * (3 - k div 8) + k mod 8 = i"
proof -
  have "k div 8 = 3 - i div 8" "k mod 8 = i mod 8" by (simp_all add: k_def)
  moreover have "i div 8 \<le> 3" using assms(1) by simp
  ultimately show "8 * (3 - k div 8) + k mod 8 = i" by simp
  have "i mod 8 < 8" by simp
  with \<open>i div 8 \<le> 3\<close> show "k < 32" unfolding k_def by linarith
qed

lemma htonl_htonl [simp]: "htonl (htonl w) = w"
proof (rule bit_word_eqI)
  fix i assume "i < LENGTH(32)"
  then have i: "i < 32" by simp
  show "bit (htonl (htonl w)) i = bit w i"
    unfolding bit_htonl htonl_index(2) [OF i] using i htonl_index(1) [OF i] by blast
qed

lemma htonl_and: "htonl (a AND b) = htonl a AND htonl b"
  by (rule bit_word_eqI) (auto simp: bit_htonl bit_simps)

lemma netmask_ones_eq: "netmask_ones n buf = push_bit n buf OR mask n"
proof (induction n arbitrary: buf)
  case (Suc n)
  have "push_bit 1 buf + 1 = push_bit 1 buf OR 1"
    by (rule disjunctive_add) (simp only: bit_push_bit_iff bit_1_iff, simp)
  then show ?case
    by (auto simp: Suc.IH intro!: bit_word_eqI simp: bit_simps)
qed simp

lemma make_netmask_eq:
  assumes "n \<le> 32"
  shows "make_netmask (int n) = htonl (push_bit (32 - n) (mask n))"
proof -
  have "(ucast (push_bit (32 - n) (mask n :: uint64)) :: uint32) = push_bit (32 - n) (mask n)"
    using assms by (auto intro!: bit_word_eqI simp: bit_simps)
  then show ?thesis by (simp add: make_netmask_def netmask_ones_eq)
qed

lemma masked_eq_iff:
  fixes R A :: uint32
  assumes k: "n + k = 32"
  shows "R AND push_bit k (mask n) = A \<longleftrightarrow> drop_bit k R = drop_bit k A \<and> take_bit k A = 0"
proof -
  have m: "bit (push_bit k (mask n) :: uint32) i \<longleftrightarrow> k \<le> i \<and> i < 32" for i
    using k by (auto simp: bit_simps)
  have "R AND push_bit k (mask n) = A \<longleftrightarrow> (\<forall>i. bit R i \<and> k \<le> i \<longleftrightarrow> bit A i)"
    unfolding bit_eq_iff bit_and_iff m using bit_imp_le_length [of R] bit_imp_le_length [of A] by auto
  moreover have "bit R (k + i) = bit A (k + i)" if "\<not> i < 32" for i
    using that bit_imp_le_length [of R "k + i"] bit_imp_le_length [of A "k + i"] by auto
  then have "drop_bit k R = drop_bit k A \<longleftrightarrow> (\<forall>i. bit R (k + i) \<longleftrightarrow> bit A (k + i))"
    unfolding bit_eq_iff bit_drop_bit_eq by auto
  moreover have "take_bit k A = 0 \<longleftrightarrow> (\<forall>i<k. \<not> bit A i)"
    unfolding bit_eq_iff bit_take_bit_iff using k by auto
  ultimately show ?thesis by (metis le_Suc_ex le_add1 not_less)
qed

text \<open>
  C38: A client matches a network of \<open>n\<close> bits exactly when its address agrees with the network's in
  the first \<open>n\<close> bits, provided the configured address has no bit set behind them; otherwise no
  client matches.
\<close>

theorem network_matches:
  assumes "n \<le> 32" and "h_mask h = make_netmask (int n)"
  shows "find_host r [h] = Some h \<longleftrightarrow>
    drop_bit (32 - n) (htonl r) = drop_bit (32 - n) (htonl (h_addr h)) \<and>
    take_bit (32 - n) (htonl (h_addr h)) = 0"
proof -
  have "r AND h_mask h = h_addr h \<longleftrightarrow> htonl r AND push_bit (32 - n) (mask n) = htonl (h_addr h)"
    unfolding assms(2) make_netmask_eq [OF assms(1)] by (metis htonl_and htonl_htonl)
  with masked_eq_iff [of n "32 - n" "htonl r" "htonl (h_addr h)"] assms(1) show ?thesis by simp
qed

subsection \<open>What a file means\<close>

text \<open>
  An exports file as its lines: a path and its clients, each with its options. \<open>print_file\<close> is the
  tokens of such a file, \<open>run_file\<close> what it asks for.
\<close>

datatype client_name = Anyone | Host string | Address string | Network string | Old_network string

record client =
  cl_name :: client_name
  cl_opts :: "(string \<times> string option) list"

type_synonym export_line = "path \<times> client list"

fun print_opts :: "(string \<times> string option) list \<Rightarrow> token list" where
  "print_opts [] = []"
| "print_opts ((n, v) # os) =
     T_ID n # (case v of Some v \<Rightarrow> [T_OPTVALUE v] | None \<Rightarrow> []) @
     (if os = [] then [] else T_CHAR 44 # print_opts os)"

fun print_name :: "client_name \<Rightarrow> token list" where
  "print_name Anyone = []"
| "print_name (Host n) = [T_ID n]"
| "print_name (Address n) = [T_IP n]"
| "print_name (Network n) = [T_NET n]"
| "print_name (Old_network n) = [T_OLDNET n]"

definition print_client :: "client \<Rightarrow> token list" where
  "print_client c = print_name (cl_name c) @ [T_CHAR 40] @ print_opts (cl_opts c) @ [T_CHAR 41]"

fun print_clients :: "client list \<Rightarrow> token list" where
  "print_clients [] = []"
| "print_clients (c # cs) = T_WHITE '' '' # print_client c @ print_clients cs"

fun print_file :: "export_line list \<Rightarrow> token list" where
  "print_file [] = []"
| "print_file ((p, cs) # ls) = T_PATH p # print_clients cs @ T_CHAR 10 # print_file ls"

fun run_opt :: "string \<times> string option \<Rightarrow> pstate \<Rightarrow> pstate" where
  "run_opt (n, None) = add_option n"
| "run_opt (n, Some v) = add_option_with_value n v"

fun run_name :: "(string \<Rightarrow> uint32 option) \<Rightarrow> client_name \<Rightarrow> pstate \<Rightarrow> pstate" where
  "run_name dns Anyone = id"
| "run_name dns (Host n) = set_hostname dns n"
| "run_name dns (Address n) = set_ipaddr n"
| "run_name dns (Network n) = set_ipnet n True"
| "run_name dns (Old_network n) = set_ipnet n False"

definition run_client :: "(string \<Rightarrow> uint32 option) \<Rightarrow> client \<Rightarrow> pstate \<Rightarrow> pstate" where
  "run_client dns c ps = add_host (fold run_opt (cl_opts c) (run_name dns (cl_name c) ps))"

fun run_line ::
  "'w os \<Rightarrow> (string \<Rightarrow> uint32 option) \<Rightarrow> export_line \<Rightarrow> pstate \<times> ('w, 'z) expo_scheme
   \<Rightarrow> pstate \<times> ('w, 'z) expo_scheme" where
  "run_line os dns (p, cs) x = add_item os p (apfst (fold (run_client dns) cs) x)"

lemma g_opts_print:
  assumes "\<forall>n ts'. ts \<noteq> T_ID n # ts'" "\<forall>v ts'. ts \<noteq> T_OPTVALUE v # ts'" "\<forall>ts'. ts \<noteq> T_CHAR 44 # ts'"
  shows "g_opts (print_opts opts @ ts) ps = (ts, fold run_opt opts ps)"
proof (induction opts arbitrary: ps)
  case Nil
  then show ?case using assms(1) by (subst g_opts.simps) (simp split: list.splits token.splits)
next
  case (Cons o' opts)
  obtain n v where o': "o' = (n, v)" by fastforce
  have "g_opts (print_opts ((n, v) # opts) @ ts) ps =
      (if opts = [] then (ts, run_opt o' ps) else g_opts (print_opts opts @ ts) (run_opt o' ps))"
  proof (cases v)
    case None
    then show ?thesis
      using assms by (subst g_opts.simps) (auto simp: o' g_opt_def split: list.splits token.splits)
  next
    case (Some w)
    then show ?thesis
      using assms by (subst g_opts.simps) (auto simp: o' g_opt_def split: list.splits token.splits)
  qed
  with Cons show ?case by (cases opts) (simp_all add: o')
qed

lemma g_host_print: "g_host dns (print_client c @ ts) ps = (Some ts, run_client dns c ps)"
proof -
  have paren: "g_opts_paren (print_opts opts @ T_CHAR 41 # ts) ps = (Some ts, add_host (fold run_opt opts ps))" for opts ps
    by (simp add: g_opts_paren_def g_opts_print)
  show ?thesis
    by (cases "cl_name c") (simp_all add: print_client_def run_client_def g_name_rest_def paren)
qed

lemma host_start_print: "host_start (print_client c @ ts)"
  by (cases "cl_name c") (simp_all add: host_start_def print_client_def yytranslate_def)

lemma g_hosts_print:
  "g_hosts dns (print_client c @ print_clients cs @ T_CHAR 10 # ts) ps =
     (Some (T_CHAR 10 # ts), fold (run_client dns) (c # cs) ps)"
proof (induction cs arbitrary: c ps)
  case Nil
  then show ?case by (subst g_hosts.simps) (simp add: g_host_print)
next
  case (Cons d cs)
  have "host_start (print_client d @ print_clients cs @ T_CHAR 10 # ts)" by (rule host_start_print)
  with Cons show ?case by (subst g_hosts.simps) (simp add: g_host_print)
qed

lemma g_exports_print:
  assumes stop: "\<forall>p ts'. ts \<noteq> T_PATH p # ts'"
  shows "g_exports os dns (print_file ls @ ts) x = (Some ts, fold (run_line os dns) ls x)"
proof (induction ls arbitrary: x)
  case Nil
  then show ?case using stop by (subst g_exports.simps) (simp split: list.splits token.splits)
next
  case (Cons l ls)
  obtain p cs where l: "l = (p, cs)" by fastforce
  have "g_export os dns p (print_clients cs @ T_CHAR 10 # print_file ls @ ts) x =
      (Some (T_CHAR 10 # print_file ls @ ts), run_line os dns l x)"
  proof (cases cs)
    case Nil
    then show ?thesis by (cases x) (simp add: g_export_def l)
  next
    case (Cons c cs')
    have "host_start (print_client c @ print_clients cs' @ T_CHAR 10 # print_file ls @ ts)"
      by (rule host_start_print)
    with g_hosts_print [of dns c cs' "print_file ls @ ts" "fst x"] show ?thesis
      by (cases x) (simp add: g_export_def Cons l)
  qed
  with Cons show ?case by (subst g_exports.simps) (simp add: l)
qed

lemma g_file_print:
  assumes "yytranslate ts = 0"
  shows "g_file os dns (print_file ls @ ts) x = (0, fold (run_line os dns) ls x)"
proof -
  have "\<forall>p ts'. ts \<noteq> T_PATH p # ts'" using assms by auto
  then have "g_exports os dns (print_file ls @ ts) x = (Some ts, fold (run_line os dns) ls x)"
    by (rule g_exports_print)
  with assms show ?thesis
    by (cases "fold (run_line os dns) ls x") (simp add: g_file_def)
qed

lemmas g_file_lines = g_file_print [of "[]", simplified]

lemma yyparse_print:
  assumes "length (print_file ls @ ts) + 12 < YYMAXDEPTH" "yytranslate ts = 0"
  shows "yyparse os dns (print_file ls @ ts) x = Some (0, ts, fold (run_line os dns) ls x)"
proof -
  have "\<forall>p ts'. ts \<noteq> T_PATH p # ts'" using assms(2) by auto
  then have g: "fst (g_exports os dns (print_file ls @ ts) x) = Some ts" by (simp add: g_exports_print)
  obtain rest where "yyparse os dns (print_file ls @ ts) x =
      Some (fst (g_file os dns (print_file ls @ ts) x), rest, snd (g_file os dns (print_file ls @ ts) x))" "rest = ts"
    using yyparse_eq [OF assms(1), of os dns x thesis] g assms(2) by blast
  then show ?thesis by (simp add: g_file_print [OF assms(2)])
qed

text \<open>
  The parser reads a file back as the lines it was printed from: it performs, line by line, what
  the clients and options of the lines ask for, accepts the file and has read it to its end.
\<close>

lemma exports_file_parsed:
  assumes "length (print_file ls) + 12 < YYMAXDEPTH"
  shows "yyparse os dns (print_file ls) x = Some (0, [], fold (run_line os dns) ls x)"
  using yyparse_print [of ls "[]"] assms by simp

text \<open>
  A character outside ASCII that stands by itself is read as the end of the file. The lines behind it
  are dropped, and nothing reports it.
\<close>

lemma exports_cut_short:
  assumes "i < 0" "length (print_file ls @ T_CHAR i # rest) + 12 < YYMAXDEPTH"
  shows "map_option (apsnd snd) (yyparse os dns (print_file ls @ T_CHAR i # rest) x) =
    map_option (apsnd snd) (yyparse os dns (print_file ls) x)"
proof -
  have "yytranslate (T_CHAR i # rest) = 0" using assms(1) by (simp add: yytranslate_def)
  from yyparse_print [OF assms(2) this, of os dns x] yyparse_print [of ls "[]" os dns x] assms(2)
  show ?thesis by simp
qed

subsection \<open>From the bytes of a file to the export table\<close>

text \<open>The lines whose names, addresses and values the lexer reads as such.\<close>

definition well_spelled :: "export_line list \<Rightarrow> bool" where
  "well_spelled ls \<longleftrightarrow> (\<forall>t\<in>set (print_file ls). spelled (case t of T_PATH _ \<Rightarrow> True | _ \<Rightarrow> False) t)"

lemma start_states: "yy_start_state False = 1" "yy_start_state True = 2"
  by (simp_all add: yy_start_state_def)

lemma punctuation:
  "rule_for False ''('' = 14" "rule_for False '')'' = 14" "rule_for False '','' = 14"
  "rule_for False [CHR 0x0A] = 15" "rule_for False '' '' = 12"
  "yy_base ! yy_run (yy_start_state False) ''('' = 86" "yy_base ! yy_run (yy_start_state False) '')'' = 86"
  "yy_base ! yy_run (yy_start_state False) '','' = 86" "yy_base ! yy_run (yy_start_state False) [CHR 0x0A] = 86"
  unfolding rule_for_run start_states char_runs by code_simp+

lemma punctuation_chars:
  "char_of (40 :: nat) = CHR ''(''" "char_of (41 :: nat) = CHR '')''" "char_of (44 :: nat) = CHR '',''"
  "char_of (10 :: nat) = CHR 0x0A" "signed_char (CHR ''('') = 40" "signed_char (CHR '')'') = 41"
  "signed_char (CHR '','') = 44"
  by code_simp+

lemma punctuation_classes:
  "yy_class (CHR ''('') = 1" "yy_class (CHR '')'') = 6" "yy_class (CHR '','') = 6" "yy_class (CHR 0x0A) = 3"
  "yy_class (CHR '' '') = 2" "yy_class (CHR ''='') = 11"
  by code_simp+

lemma linked_char:
  "linked False (T_CHAR 40 # ts) = linked False ts" "linked False (T_CHAR 41 # ts) = linked False ts"
  "linked False (T_CHAR 44 # ts) = linked False ts" "linked False (T_CHAR 10 # ts) = linked True ts"
  by (simp_all add: spelled_def punctuation_chars punctuation yy_action_def)

lemma linked_white:
  assumes "yy_class (hd (spell t)) \<in> {1, 10, 13}"
  shows "linked False (T_WHITE '' '' # t # ts) = linked False (t # ts)"
proof -
  have "spelled False (T_WHITE '' '')"
    by (simp add: spelled_def punctuation yy_action_def copy_text_def NFS_MAXPATHLEN_def)
  moreover have "stops 12 (yy_class (hd (spell t)))" using assms stops_table by auto
  ultimately show ?thesis by (simp add: punctuation)
qed

lemma linked_text:
  assumes "spelled bol t" "\<And>i. t \<noteq> T_CHAR i" "stops (rule_no t) (yy_class (hd (spell t')))" "linked False (t' # ts)"
  shows "linked bol (t # t' # ts)"
  using assms spelled_rule [OF assms(1,2)] by simp

lemma linked_opts:
  assumes "\<forall>t\<in>set (print_opts os). spelled False t" "linked False ts"
  shows "linked False (print_opts os @ T_CHAR 41 # ts)"
  using assms(1)
proof (induction os rule: print_opts.induct)
  case 1
  then show ?case using assms(2) by (simp only: print_opts.simps append_Nil linked_char)
next
  case (2 n v os)
  let ?rest = "(if os = [] then [] else T_CHAR 44 # print_opts os) @ T_CHAR 41 # ts"
  have rest: "linked False ?rest" using 2 assms(2) by (cases "os = []") (auto simp: linked_char simp del: linked.simps)
  obtain c us where c: "?rest = T_CHAR c # us" "yy_class (hd (spell (T_CHAR c))) = 6"
    by (cases "os = []") (auto simp: punctuation_chars punctuation_classes)
  have id: "spelled False (T_ID n)" using 2(2) by simp
  show ?case
  proof (cases v)
    case None
    have "linked False (T_ID n # ?rest)"
      using linked_text [OF id _ _ rest [unfolded c(1)]] stops_table c by simp
    with None show ?thesis by simp
  next
    case (Some x)
    have "linked False (T_OPTVALUE x # ?rest)"
      using linked_text [of False "T_OPTVALUE x" "T_CHAR c" us] rest 2(2) stops_table c by (simp add: Some)
    then have "linked False (T_ID n # T_OPTVALUE x # ?rest)"
      using linked_text [OF id] stops_table by (simp add: punctuation_classes del: linked.simps)
    with Some show ?thesis by simp
  qed
qed

lemma linked_client:
  assumes "\<forall>t\<in>set (print_client c). spelled False t" "linked False ts"
  shows "linked False (T_WHITE '' '' # print_client c @ ts)"
proof -
  let ?tail = "T_CHAR 40 # print_opts (cl_opts c) @ T_CHAR 41 # ts"
  have tail: "linked False ?tail"
    using assms linked_opts [of "cl_opts c" ts] by (simp add: linked_char print_client_def del: linked.simps)
  have name: "linked False (T_WHITE '' '' # t # ?tail)"
    if "t \<in> set (print_name (cl_name c))" for t
  proof -
    have sp: "spelled False t" using that assms(1) by (simp add: print_client_def)
    have t: "t \<noteq> T_CHAR i" for i using that by (cases "cl_name c") auto
    have no: "rule_no t \<in> {6, 7, 8, 13}" using that by (cases "cl_name c") auto
    then have "yy_class (hd (spell t)) \<in> {1, 10, 13}"
      using first_class(1,2) [of "spell t"] spelled_rule [OF sp t] by auto
    moreover have "linked False (t # ?tail)"
      using linked_text [OF sp t _ tail] no stops_table by (auto simp: punctuation_chars punctuation_classes simp del: linked.simps)
    ultimately show ?thesis by (simp only: linked_white)
  qed
  show ?thesis
  proof (cases "print_name (cl_name c)")
    case Nil
    have "linked False (T_WHITE '' '' # ?tail)"
      using tail linked_white [of "T_CHAR 40"] by (simp add: punctuation_chars punctuation_classes del: linked.simps)
    with Nil show ?thesis by (simp add: print_client_def)
  next
    case (Cons t us)
    then have "us = []" by (cases "cl_name c") auto
    with name [of t] Cons show ?thesis by (simp add: print_client_def del: linked.simps)
  qed
qed

lemma linked_clients:
  assumes "\<forall>t\<in>set (print_clients cs). spelled False t" "linked True ts"
  shows "linked False (print_clients cs @ T_CHAR 10 # ts)"
  using assms(1)
proof (induction cs)
  case Nil
  then show ?case using assms(2) by (simp only: print_clients.simps append_Nil linked_char)
next
  case (Cons c cs)
  then show ?case using linked_client [of c "print_clients cs @ T_CHAR 10 # ts"] by (simp del: linked.simps)
qed

lemma linked_file: "well_spelled ls \<Longrightarrow> linked True (print_file ls)"
proof (induction ls rule: print_file.induct)
  case (2 p cs ls)
  have "\<forall>t\<in>set (print_clients cs). case t of T_PATH _ \<Rightarrow> False | _ \<Rightarrow> True"
  proof (induction cs)
    case (Cons c cs)
    have "\<forall>t\<in>set (print_opts os). case t of T_PATH _ \<Rightarrow> False | _ \<Rightarrow> True" for os
      by (induction os rule: print_opts.induct) (auto split: option.splits if_splits)
    moreover have "\<forall>t\<in>set (print_name n). case t of T_PATH _ \<Rightarrow> False | _ \<Rightarrow> True" for n by (cases n) auto
    ultimately show ?case using Cons by (auto simp: print_client_def)
  qed simp
  then have no_path: "case t of T_PATH _ \<Rightarrow> False | _ \<Rightarrow> True" if "t \<in> set (print_clients cs)" for t
    using that by blast
  have sp: "\<forall>t\<in>set (print_clients cs). spelled False t"
  proof
    fix t assume t: "t \<in> set (print_clients cs)"
    then have "spelled (case t of T_PATH _ \<Rightarrow> True | _ \<Rightarrow> False) t" using 2(2) by (simp add: well_spelled_def)
    with no_path [OF t] show "spelled False t" by (cases t) simp_all
  qed
  have ls: "linked True (print_file ls)" using 2 by (auto simp: well_spelled_def)
  have tail: "linked False (print_clients cs @ T_CHAR 10 # print_file ls)" by (rule linked_clients [OF sp ls])
  obtain t us where t: "print_clients cs @ T_CHAR 10 # print_file ls = t # us" "yy_class (hd (spell t)) \<in> {2, 3}"
    by (cases cs) (auto simp: punctuation_chars punctuation_classes)
  have "spelled True (T_PATH p)" using 2(2) by (simp add: well_spelled_def)
  from linked_text [OF this _ _ tail [unfolded t(1)]] t stops_table show ?case
    by (auto simp: t(1) simp del: linked.simps)
qed simp

definition fresh_buffer :: "yy_buffer \<Rightarrow> bool" where
  "fresh_buffer b \<longleftrightarrow> b = yy_flush_buffer b \<and> buffer_inv b"

lemma fresh_unscanned: "fresh_buffer b \<Longrightarrow> unscanned b inp = inp \<and> yy_at_bol b \<and> buffer_inv b"
  by (cases b) (auto simp: fresh_buffer_def unscanned_def yy_flush_buffer_def)

lemma yylex_print:
  assumes "fresh_buffer b" "well_spelled ls"
  shows "\<exists>toks eof. yylex_all b (file_text (print_file ls)) = (toks, eof) \<and> fresh_buffer eof \<and>
    map fst toks = map (\<lambda>t. (t, False)) (print_file ls)"
proof -
  obtain toks eof where y: "yylex_all b (file_text (print_file ls)) = (toks, eof)" by fastforce
  note b = fresh_unscanned [OF assms(1), of "file_text (print_file ls)"]
  have "tokens_of True (file_text (print_file ls)) (map fst toks)" "fresh_buffer eof"
    using yylex_all_tokens [OF y] b by (simp_all add: fresh_buffer_def)
  with tokens_of_unique [OF linked_tokens [OF linked_file [OF assms(2)]]] y show ?thesis by metis
qed



subsection \<open>Options\<close>

definition last_option :: "string \<Rightarrow> string \<Rightarrow> string list \<Rightarrow> bool" where
  "last_option on off opts =
     (case rev (filter (\<lambda>x. x = on \<or> x = off) opts) of [] \<Rightarrow> False | x # _ \<Rightarrow> x = on)"

lemma last_option_snoc:
  "last_option on off [] = False"
  "last_option on off (opts @ [x]) = (if x = on then True else if x = off then False else last_option on off opts)"
  by (simp_all add: last_option_def)

lemma opt_powers:
  "OPT_NO_ROOT_SQUASH = 2 ^ 0" "OPT_ALL_SQUASH = 2 ^ 1" "OPT_RW = 2 ^ 2" "OPT_REMOVABLE = 2 ^ 3"
  "OPT_INSECURE = 2 ^ 4"
  by (simp_all add: opt_defs)

lemma bit_power32: "k < 32 \<Longrightarrow> bit (2 ^ k :: uint32) i \<longleftrightarrow> i = k"
  by (auto simp: bit_exp_iff)

lemma opt_bit:
  "bit OPT_NO_ROOT_SQUASH i \<longleftrightarrow> i = 0" "bit OPT_ALL_SQUASH i \<longleftrightarrow> i = 1" "bit OPT_RW i \<longleftrightarrow> i = 2"
  "bit OPT_REMOVABLE i \<longleftrightarrow> i = 3" "bit OPT_INSECURE i \<longleftrightarrow> i = 4"
  unfolding opt_powers by (rule bit_power32, simp)+

lemma has_opt:
  "has_bits b OPT_NO_ROOT_SQUASH \<longleftrightarrow> bit b 0" "has_bits b OPT_ALL_SQUASH \<longleftrightarrow> bit b 1"
  "has_bits b OPT_RW \<longleftrightarrow> bit b 2" "has_bits b OPT_REMOVABLE \<longleftrightarrow> bit b 3" "has_bits b OPT_INSECURE \<longleftrightarrow> bit b 4"
  unfolding has_bits_def opt_powers and_exp_eq_0_iff_not_bit by simp_all

lemma option_bits_bit:
  "has_bits (option_bits x b) OPT_NO_ROOT_SQUASH =
     (if x = ''no_root_squash'' then True else if x = ''root_squash'' then False else has_bits b OPT_NO_ROOT_SQUASH)"
  "has_bits (option_bits x b) OPT_ALL_SQUASH =
     (if x = ''all_squash'' then True else if x = ''no_all_squash'' then False else has_bits b OPT_ALL_SQUASH)"
  "has_bits (option_bits x b) OPT_RW =
     (if x = ''rw'' then True else if x = ''ro'' then False else has_bits b OPT_RW)"
  "has_bits (option_bits x b) OPT_REMOVABLE =
     (if x = ''removable'' then True else if x = ''fixed'' then False else has_bits b OPT_REMOVABLE)"
  "has_bits (option_bits x b) OPT_INSECURE =
     (if x = ''insecure'' then True else if x = ''secure'' then False else has_bits b OPT_INSECURE)"
  unfolding has_opt
  by (simp_all add: option_bits_def bit_or_iff bit_and_iff bit_not_iff opt_bit)

text \<open>
  Of two options that contradict each other the last one counts, and the options do not interfere;
  without any an export is read-only, squashes root and nobody else, is not removable and wants a
  privileged port.
\<close>

lemma options_last_wins:
  "has_bits (fold option_bits opts 0) OPT_NO_ROOT_SQUASH = last_option ''no_root_squash'' ''root_squash'' opts \<and>
   has_bits (fold option_bits opts 0) OPT_ALL_SQUASH = last_option ''all_squash'' ''no_all_squash'' opts \<and>
   has_bits (fold option_bits opts 0) OPT_RW = last_option ''rw'' ''ro'' opts \<and>
   has_bits (fold option_bits opts 0) OPT_REMOVABLE = last_option ''removable'' ''fixed'' opts \<and>
   has_bits (fold option_bits opts 0) OPT_INSECURE = last_option ''insecure'' ''secure'' opts"
proof (induction opts rule: rev_induct)
  case Nil
  then show ?case by (simp add: has_bits_def last_option_snoc)
next
  case (snoc x opts)
  then show ?case by (simp only: fold_append fold_simps o_apply id_apply option_bits_bit last_option_snoc simp_thms)
qed

text \<open>
  A line that names no client exports its path as it is written, with its slashes normalised: it is not
  looked up in the file system, although the client it then gets is not marked removable.
\<close>

lemma export_without_clients:
  assumes "length (normpath p) < NFS_MAXPATHLEN"
  shows "run_line os dns (p, []) (clear_cur, s) =
    (clear_cur\<lparr>e_list := [\<lparr>i_path = normpath p, i_orig = p, i_hosts = [anon_host], i_fsid = get_free_fsid p,
        i_last_mtime = 0, i_dir_hash = 0\<rparr>], ne_list := [(p, [''<anon clnt>''])]\<rparr>, s) \<and>
    \<not> has_bits (h_options anon_host) OPT_REMOVABLE"
  using assms
  by (simp add: add_item_def clear_cur_def add_host_def clear_host_def clear_item_def anon_host_def
      has_bits_def Let_def)

end
