(* ===== verification/Daemon_Main.thy ===== *)
theory Daemon_Main
  imports Dispatch Config_Props
begin

text \<open>
  \<open>daemon.c\<close>, from the command line to the main loop: the options, the services and their transports, the
  configuration of \<open>utils.c\<close>, the start, signals, and the rounds of \<open>unfs3_svc_run\<close>. What the network and
  the RPC library report is the record \<open>net\<close>; what \<open>getopt\<close> delivers is a list of options with their
  arguments. A run of the loop is given by the events that end its waits. Signals are handled between
  two calls.
\<close>

subsection \<open>Options\<close>

definition NFS_PORT :: uint32 where "NFS_PORT = 2049"

record options =
  opt_detach :: bool
  opt_exports :: path
  opt_tcponly :: bool
  opt_nfs_port :: uint32
  opt_mount_port :: uint32
  o_singleuser :: bool
  o_brute_force :: bool
  opt_testconfig :: bool
  opt_bind_addr :: uint32
  o_readable_executables :: bool
  opt_pid_file :: "path option"
  opt_portmapper :: bool

definition default_options :: options where
  "default_options =
     \<lparr>opt_detach = True, opt_exports = ''/etc/exports'', opt_tcponly = False, opt_nfs_port = NFS_PORT,
      opt_mount_port = NFS_PORT, o_singleuser = False, o_brute_force = False, opt_testconfig = False,
      opt_bind_addr = 0, o_readable_executables = False, opt_pid_file = None, opt_portmapper = True\<rparr>"

text \<open>
  The effect of one option, or the exit code. A port is the lower half of what \<open>strtol\<close> returns, the
  same number \<open>atoi\<close> gives.
\<close>

definition parse_option :: "(string \<Rightarrow> uint32) \<Rightarrow> char \<Rightarrow> string \<Rightarrow> options \<Rightarrow> int + options" where
  "parse_option inet_addr opt optarg o' =
     (if opt = CHR ''b'' then Inr (o'\<lparr>o_brute_force := True\<rparr>)
      else if opt = CHR ''d'' then Inr (o'\<lparr>opt_detach := False\<rparr>)
      else if opt = CHR ''e''
      then (if optarg = [] \<or> hd optarg \<noteq> CHR ''/'' then Inl 1 else Inr (o'\<lparr>opt_exports := optarg\<rparr>))
      else if opt = CHR ''h'' then Inl 0
      else if opt = CHR ''l''
      then (if inet_addr optarg = -1 then Inl 1 else Inr (o'\<lparr>opt_bind_addr := inet_addr optarg\<rparr>))
      else if opt = CHR ''m'' then (if atoi optarg = 0 then Inl 1 else Inr (o'\<lparr>opt_mount_port := atoi optarg\<rparr>))
      else if opt = CHR ''n'' then (if atoi optarg = 0 then Inl 1 else Inr (o'\<lparr>opt_nfs_port := atoi optarg\<rparr>))
      else if opt = CHR ''p'' then Inr (o'\<lparr>opt_portmapper := False\<rparr>)
      else if opt = CHR ''r'' then Inr (o'\<lparr>o_readable_executables := True\<rparr>)
      else if opt = CHR ''s'' then Inr (o'\<lparr>o_singleuser := True\<rparr>)
      else if opt = CHR ''t'' then Inr (o'\<lparr>opt_tcponly := True\<rparr>)
      else if opt = CHR ''T'' then Inr (o'\<lparr>opt_testconfig := True\<rparr>)
      else if opt = CHR ''u'' then Inr (o'\<lparr>opt_nfs_port := 0, opt_mount_port := 0\<rparr>)
      else if opt = CHR ''i'' then Inr (o'\<lparr>opt_pid_file := Some optarg\<rparr>)
      else if opt = CHR ''?'' then Inl 1
      else Inr o')"

fun parse_options :: "(string \<Rightarrow> uint32) \<Rightarrow> (char \<times> string) list \<Rightarrow> options \<Rightarrow> int + options" where
  "parse_options inet_addr [] o' = Inr o'"
| "parse_options inet_addr ((opt, optarg) # args) o' =
     (case parse_option inet_addr opt optarg o' of Inl e \<Rightarrow> Inl e | Inr o'' \<Rightarrow> parse_options inet_addr args o'')"

subsection \<open>Services\<close>

datatype proto = Udp | Tcp

type_synonym transport = "proto \<times> uint32"

record net =
  n_bind :: "proto \<Rightarrow> 16 word \<Rightarrow> uint32 \<Rightarrow> bool"
  n_create :: "transport \<Rightarrow> bool"
  n_register :: "proto \<Rightarrow> nat \<Rightarrow> nat \<Rightarrow> bool"

text \<open>
  A transport on a port, or on any where the port is 0. \<open>None\<close> is the end of the process. The port goes
  through \<open>htons\<close>, which takes its lower half.
\<close>

definition create_transport :: "proto \<Rightarrow> net \<Rightarrow> options \<Rightarrow> uint32 \<Rightarrow> transport option" where
  "create_transport pr net o' port =
     (if port \<noteq> 0 \<and> \<not> n_bind net pr (ucast port) (opt_bind_addr o') then None
      else if n_create net (pr, port) then Some (pr, port) else None)"

definition create_udp_transport where "create_udp_transport = create_transport Udp"
definition create_tcp_transport where "create_tcp_transport = create_transport Tcp"

datatype service = nfs3_service | mount_service

type_synonym callouts = "((nat \<times> nat) \<times> service) list"

definition NFS3_PROGRAM :: nat where "NFS3_PROGRAM = 100003"
definition NFS_V3 :: nat where "NFS_V3 = 3"
definition MOUNTPROG :: nat where "MOUNTPROG = 100005"
definition MOUNTVERS1 :: nat where "MOUNTVERS1 = 1"
definition MOUNTVERS3 :: nat where "MOUNTVERS3 = 3"

lemmas program_numbers = NFS3_PROGRAM_def NFS_V3_def MOUNTPROG_def MOUNTVERS1_def MOUNTVERS3_def

text \<open>
  The library's list of services. A second registration of the same dispatcher adds nothing, another
  dispatcher is refused; \<open>n_register\<close> is the answer of the portmapper.
\<close>

definition svc_register :: "net \<Rightarrow> transport \<Rightarrow> nat \<Rightarrow> nat \<Rightarrow> service \<Rightarrow> callouts \<Rightarrow> callouts option" where
  "svc_register net tr prog vers d cs =
     (if \<not> n_register net (fst tr) prog vers then None
      else case map_of cs (prog, vers) of
             None \<Rightarrow> Some (cs @ [((prog, vers), d)])
           | Some d' \<Rightarrow> if d' = d then Some cs else None)"

definition register_on ::
  "net \<Rightarrow> transport option \<Rightarrow> nat \<Rightarrow> nat list \<Rightarrow> service \<Rightarrow> callouts \<Rightarrow> callouts option" where
  "register_on net tr prog versions d cs =
     (case tr of
        None \<Rightarrow> Some cs
      | Some tr \<Rightarrow> fold (\<lambda>v m. m \<bind> svc_register net tr prog v d) versions (Some cs))"

definition register_nfs_service ::
  "net \<Rightarrow> transport option \<Rightarrow> transport option \<Rightarrow> callouts \<Rightarrow> callouts option" where
  "register_nfs_service net udptransp tcptransp cs =
     register_on net udptransp NFS3_PROGRAM [NFS_V3] nfs3_service cs \<bind>
     register_on net tcptransp NFS3_PROGRAM [NFS_V3] nfs3_service"

definition register_mount_service ::
  "net \<Rightarrow> transport option \<Rightarrow> transport option \<Rightarrow> callouts \<Rightarrow> callouts option" where
  "register_mount_service net udptransp tcptransp cs =
     register_on net udptransp MOUNTPROG [MOUNTVERS1, MOUNTVERS3] mount_service cs \<bind>
     register_on net tcptransp MOUNTPROG [MOUNTVERS1, MOUNTVERS3] mount_service"

definition transports :: "net \<Rightarrow> options \<Rightarrow> uint32 \<Rightarrow> (transport option \<times> transport option) option" where
  "transports net o' port =
     do {
       udp \<leftarrow> (if opt_tcponly o' then Some None else map_option Some (create_udp_transport net o' port));
       tcp \<leftarrow> create_tcp_transport net o' port;
       Some (udp, Some tcp)
     }"

definition start_services :: "net \<Rightarrow> options \<Rightarrow> callouts option" where
  "start_services net o' =
     do {
       (udp, tcp) \<leftarrow> transports net o' (opt_nfs_port o');
       cs \<leftarrow> register_nfs_service net udp tcp [];
       (udp, tcp) \<leftarrow> (if opt_mount_port o' \<noteq> opt_nfs_port o' then transports net o' (opt_mount_port o')
                     else Some (udp, tcp));
       register_mount_service net udp tcp cs
     }"

subsection \<open>The configuration of the iRODS side\<close>

text \<open>
  A member of the JSON object, read as a string and as a number: the code looks at the one or the other
  without looking at the type. The file is absent (\<open>None\<close>), no JSON (\<open>Some None\<close>: the null pointer that
  \<open>json_parse\<close> returns is followed), or an object. \<open>ZONE\<close> is a null pointer until it is configured; the
  model starts with the empty string.
\<close>

record json_value =
  j_string :: string
  j_boolean :: int

fun processJSON :: "(string \<times> json_value) list \<Rightarrow> string \<times> bool \<Rightarrow> string \<times> bool" where
  "processJSON [] c = c"
| "processJSON ((n, v) # vs) (zone, priv) =
     processJSON vs
       (if n = ''irods_zone'' then (j_string v, priv)
        else if n = ''use_private_collection'' then (zone, j_boolean v = 1)
        else (zone, priv))"

definition configureEnv :: "(string \<times> json_value) list option option \<Rightarrow> (string \<times> bool) option" where
  "configureEnv conf =
     (case conf of
        None \<Rightarrow> Some ([], False)
      | Some None \<Rightarrow> None
      | Some (Some vs) \<Rightarrow> Some (processJSON vs ([], False)))"

subsection \<open>Calls\<close>

text \<open>The world outside the server, a call that arrives, and the events that end a wait.\<close>

record 'w outside =
  w_os :: "'w os"
  w_rods :: "'w rods"
  w_dns :: "string \<Rightarrow> uint32 option"
  w_exports :: "path \<Rightarrow> 'w \<Rightarrow> string option"
  w_flock :: "int \<Rightarrow> 'w \<Rightarrow> bool"

record call =
  c_prog :: nat
  c_proc :: nat
  c_msg :: "byte list"
  c_req :: svc_req
  c_junk :: junk
  c_stack :: "byte list"
  c_fits :: "byte list \<Rightarrow> bool"

definition svc_dispatch :: "callouts \<Rightarrow> nat \<Rightarrow> nat \<Rightarrow> answer + service" where
  "svc_dispatch cs prog vers =
     (case map_of cs (prog, vers) of
        Some d \<Rightarrow> Inr d
      | None \<Rightarrow> Inl (if prog \<in> fst ` fst ` set cs then Prog_mismatch else Prog_unavail))"

definition serve ::
  "'w outside \<Rightarrow> callouts \<Rightarrow> call \<Rightarrow> ('w, 'z) nfs_scheme \<Rightarrow> (answer \<times> ('w, 'z) nfs_scheme) option" where
  "serve env cs c s =
     (case svc_dispatch cs (c_prog c) (rq_vers (c_req c)) of
        Inl a \<Rightarrow> Some (a, s)
      | Inr nfs3_service \<Rightarrow>
          nfs3_program_3 (w_os env) (w_rods env) (c_junk c) (c_fits c) (c_proc c) (c_msg c) (c_req c) s
      | Inr mount_service \<Rightarrow>
          mountprog_3 (c_stack c) (w_os env) (c_fits c) (c_proc c) (c_msg c) (c_req c) s)"

fun svc_getreqset ::
  "'w outside \<Rightarrow> callouts \<Rightarrow> call list \<Rightarrow> ('w, 'z) nfs_scheme \<Rightarrow> (answer list \<times> ('w, 'z) nfs_scheme) option" where
  "svc_getreqset env cs [] s = Some ([], s)"
| "svc_getreqset env cs (c # calls) s =
     do {
       (a, s) \<leftarrow> serve env cs c s;
       (as, s) \<leftarrow> svc_getreqset env cs calls s;
       Some (a # as, s)
     }"

subsection \<open>Signals and the main loop\<close>

text \<open>
  \<open>daemon_exit\<close> is the handler of SIGHUP, SIGUSR1 and the signals that end the daemon; an event names one
  of these. The others the daemon meets are ignored and end no wait.
\<close>

definition SIGHUP :: int where "SIGHUP = 1"
definition SIGUSR1 :: int where "SIGUSR1 = 10"

datatype 's life = Running 's | Ended 's

definition create_pid_file :: "'w outside \<Rightarrow> options \<Rightarrow> ('w, 'z) sys_scheme \<Rightarrow> ('w, 'z) sys_scheme" where
  "create_pid_file env o' s =
     (case opt_pid_file o' of
        None \<Rightarrow> s
      | Some p \<Rightarrow>
          (let os = w_os env;
               (fd, s) = backend_open_create os p (O_RDWR OR O_CREAT OR O_TRUNC) 0x1A4 s
           in if fd = -1 then s
              else if \<not> w_flock env fd (world s) then snd (backend_close os fd s)
              else (let buf = string_bytes (dec_int (sint (os_getpid os (world s))) @ [CHR 0x0A]);
                        (_, s) = backend_pwrite os fd buf 0 s
                    in snd (backend_close os fd s))))"

definition remove_pid_file :: "'w outside \<Rightarrow> options \<Rightarrow> ('w, 'z) sys_scheme \<Rightarrow> ('w, 'z) sys_scheme" where
  "remove_pid_file env o' s =
     (case opt_pid_file o' of None \<Rightarrow> s | Some p \<Rightarrow> snd (backend_remove (w_os env) p s))"

definition reload :: "'w outside \<Rightarrow> options \<Rightarrow> ('w, 'z) usr_scheme \<Rightarrow> (bool \<times> ('w, 'z) usr_scheme) option" where
  "reload env o' s =
     exports_parse (w_os env) (w_dns env) (w_exports env (opt_exports o') (world s)) s"

definition daemon_exit :: "'w outside \<Rightarrow> options \<Rightarrow> int \<Rightarrow> ('w, 'z) nfs_scheme \<Rightarrow> ('w, 'z) nfs_scheme life option" where
  "daemon_exit env o' err s =
     (if err = SIGHUP then map_option (\<lambda>(_, s). Running s) (reload env o' (get_squash_ids (w_os env) s))
      else if err = SIGUSR1 then Some (Running s)
      else Some (Ended (remove_pid_file env o' (fd_cache_purge (w_os env) s))))"

datatype event = Timeout | Interrupted int | Failed | Ready "call list"

definition svc_round ::
  "'w outside \<Rightarrow> options \<Rightarrow> callouts \<Rightarrow> event \<Rightarrow> ('w, 'z) nfs_scheme
   \<Rightarrow> (answer list \<times> ('w, 'z) nfs_scheme life) option" where
  "svc_round env o' cs ev s =
     (let s = fd_cache_close_inactive (w_os env) s
      in case ev of
           Timeout \<Rightarrow> Some ([], Running s)
         | Interrupted sig \<Rightarrow> map_option (Pair []) (daemon_exit env o' sig s)
         | Failed \<Rightarrow> Some ([], Ended s)
         | Ready calls \<Rightarrow> map_option (apsnd Running) (svc_getreqset env cs calls s))"

fun unfs3_svc_run ::
  "'w outside \<Rightarrow> options \<Rightarrow> callouts \<Rightarrow> event list \<Rightarrow> ('w, 'z) nfs_scheme
   \<Rightarrow> (answer list list \<times> ('w, 'z) nfs_scheme life) option" where
  "unfs3_svc_run env o' cs [] s = Some ([], Running s)"
| "unfs3_svc_run env o' cs (ev # evs) s =
     (case svc_round env o' cs ev s of
        None \<Rightarrow> None
      | Some (as, Ended s) \<Rightarrow> Some ([as], Ended s)
      | Some (as, Running s) \<Rightarrow> map_option (apfst (Cons as)) (unfs3_svc_run env o' cs evs s))"

subsection \<open>Start\<close>

definition zero_stat :: stat where
  "zero_stat = \<lparr>st_dev = 0, st_ino = 0, st_mode = 0, st_nlink = 0, st_uid = 0, st_gid = 0, st_rdev = 0,
     st_size = 0, st_blksize = 0, st_blocks = 0, st_atime = 0, st_mtime = 0, st_ctime = 0\<rparr>"

text \<open>The globals as the sources initialise them.\<close>

definition globals :: "'w \<Rightarrow> creds \<Rightarrow> options \<Rightarrow> string \<times> bool \<Rightarrow> 'w nfs" where
  "globals w c o' conf =
     \<lparr>world = w, errno = EOTHER 0, cred = c, wverf = replicate 8 0, rcookie = 0,
      opt_singleuser = o_singleuser o', opt_brute_force = o_brute_force o',
      opt_readable_executables = o_readable_executables o',
      export_list = [], exports_access = False, exports_nfslist = [], exports_opts = -1,
      export_path = None, export_fsid = 0, export_password_hash = 0,
      last_anonuid = ANON_NOTSPECIAL, last_anongid = ANON_NOTSPECIAL,
      yy_current_buffer = yy_create_buffer YY_BUF_SIZE,
      squash_uid = 65534, squash_gid = 65534, can_switch = True,
      st_cache_valid = False, st_cache = zero_stat,
      fh_cache = replicate CACHE_ENTRIES zero_cache, fh_cache_max = 0, fh_cache_use = 0, fh_cache_hit = 0,
      fh_cache_time = 0, fh_last_entry = -1,
      fd_cache = replicate FD_ENTRIES \<lparr>e_fd = 0, e_kind = UNFS3_FD_READ, e_use = 0, e_dev = 0, e_ino = 0, e_gen = 0\<rparr>,
      fd_cache_readers = 0, fd_cache_writers = 0, last_warning = 0,
      mount_cnt = 0, mount_list = [], nonce = replicate 32 0,
      ZONE = fst conf, NFS_RODS_PRIVATE_COLL = snd conf, lookup_obj_attr = error_attr\<rparr>"

text \<open>The state in which the loop starts.\<close>

definition initialize :: "'w outside \<Rightarrow> options \<Rightarrow> ('w, 'z) nfs_scheme \<Rightarrow> ('w, 'z) nfs_scheme option" where
  "initialize env o' s =
     (let s = create_pid_file env o' s;
          s = fd_cache_init (fh_cache_init s);
          s = get_squash_ids (w_os env) s
      in map_option snd (reload env o' s))"

text \<open>
  \<open>main\<close>: the exit code (\<open>Inl\<close>), or the services and the state with which the daemon enters its loop.
  \<open>extra\<close> says whether arguments are left over.
\<close>

definition main ::
  "'w outside \<Rightarrow> net \<Rightarrow> (string \<Rightarrow> uint32) \<Rightarrow> (string \<times> json_value) list option option \<Rightarrow>
   (char \<times> string) list \<Rightarrow> bool \<Rightarrow> 'w \<Rightarrow> creds \<Rightarrow> (int + options \<times> callouts \<times> 'w nfs) option" where
  "main env net inet_addr conf argv extra w c =
     (case configureEnv conf of
        None \<Rightarrow> None
      | Some conf \<Rightarrow>
          (case parse_options inet_addr argv default_options of
             Inl e \<Rightarrow> Some (Inl e)
           | Inr o' \<Rightarrow>
               if extra then Some (Inl 1)
               else
                 (let s = regenerate_write_verifier (w_os env) (globals w c o' conf)
                  in if opt_testconfig o'
                     then map_option (\<lambda>(ok, _). Inl (if ok then 0 else 1)) (reload env o' s)
                     else (case start_services net o' of
                             None \<Rightarrow> Some (Inl 1)
                           | Some cs \<Rightarrow> map_option (\<lambda>s. Inr (o', cs, s)) (initialize env o' s)))))"

end
