(* ===== verification/Daemon_Props.thy ===== *)
theory Daemon_Props
  imports Daemon_Main
begin

text \<open>
  What holds of the daemon as a whole: its invariant at every wait of the main loop, what only a reload
  changes, which services it offers, and that a call it refuses leaves its state alone.
\<close>

subsection \<open>What loading the exports leaves alone\<close>

lemma add_item_only: "add_item os p (ps, s) = (ps', s') \<Longrightarrow> sys_only s s'"
  by (auto simp: add_item_def Let_def split: if_splits option.splits prod.splits dest: backend_only)

lemma yyreduce_action_only: "yyreduce_action os dns r vs (ps, s) = (ps', s') \<Longrightarrow> sys_only s s'"
  by (auto simp: yyreduce_action_def Let_def split: if_splits dest: add_item_only)

lemma yyround_only:
  assumes "yyround os dns (st, ts, ps, s) = r"
  shows "case r of
      Inl (_, rest, _, s') \<Rightarrow> sys_only s s' \<and> length rest \<le> length ts
    | Inr (_, rest, _, s') \<Rightarrow> sys_only s s' \<and> length rest \<le> length ts"
  using assms
  by (auto simp: yyround_def Let_def split: if_splits yyaction.splits list.splits prod.splits sum.splits
      dest: yyreduce_action_only)

lemma yyrun_only:
  "yyrun os dns c = Some y \<Longrightarrow>
     sys_only (snd (snd (snd c))) (snd (snd (snd y))) \<and> length (fst (snd y)) \<le> length (fst (snd c))"
proof (induction rule: yyrun.raw_induct [rotated, consumes 1, case_names round])
  case (round f os dns c y)
  obtain st ts ps s where c: "c = (st, ts, ps, s)" by (cases c) auto
  from round(2) yyround_only [OF refl [of "yyround os dns (st, ts, ps, s)"]] show ?case
    by (fastforce simp: c split: sum.splits dest!: round(1) intro: sys_only_trans)
qed

lemma exports_parse_only:
  assumes "exports_parse os dns file s = Some (ok, s')"
  shows "\<exists>t b es ns. sys_only s t \<and>
    (s' = t \<or> s' = t\<lparr>export_list := es, exports_nfslist := ns\<rparr> \<or>
     s' = t\<lparr>yy_current_buffer := b, export_list := es, exports_nfslist := ns\<rparr>) \<and>
    (buffer_inv (yy_current_buffer s) \<longrightarrow> buffer_inv b)"
proof (cases "exports_access s \<or> file = None")
  case True
  then have "s' = s \<or> s' = s\<lparr>export_list := [], exports_nfslist := []\<rparr>"
    using assms by (auto simp: exports_parse_def split: if_splits)
  then show ?thesis by (intro exI [of _ s] exI [of _ "yy_current_buffer s"] exI [of _ "[]"]) auto
next
  case False
  then obtain bytes where f: "file = Some bytes" by auto
  obtain toks eof where y: "yylex_all (yy_current_buffer s) bytes = (toks, eof)" by fastforce
  obtain r rest ps t where p: "yyparse os dns (map (fst \<circ> fst) toks) (clear_cur, s) = Some (r, rest, ps, t)"
    using assms False by (auto simp: exports_parse_def f y split: option.splits)
  let ?b = "if rest = [] then eof else snd (toks ! (length toks - length rest))"
  have t: "sys_only s t" "length rest \<le> length toks" using yyrun_only [OF p [unfolded yyparse_def]] by simp_all
  have "buffer_inv ?b" if "buffer_inv (yy_current_buffer s)"
    using yylex_all_tokens [OF y that] t(2) by (cases rest) auto
  moreover have "\<exists>es ns. s' = t\<lparr>yy_current_buffer := ?b, export_list := es, exports_nfslist := ns\<rparr>"
    using assms False by (auto simp: exports_parse_def f y p Let_def split: if_splits)
  ultimately show ?thesis using t(1) by blast
qed

lemma reload_inv:
  assumes "reload env o' s = Some (ok, s')" "server_inv s"
  shows "server_inv (s' :: ('w, 'z) nfs_scheme)"
proof -
  obtain t b es ns where t: "sys_only s t"
    "s' = t \<or> s' = t\<lparr>export_list := es, exports_nfslist := ns\<rparr> \<or>
     s' = t\<lparr>yy_current_buffer := b, export_list := es, exports_nfslist := ns\<rparr>"
    "buffer_inv (yy_current_buffer s) \<longrightarrow> buffer_inv b"
    using exports_parse_only [OF assms(1) [unfolded reload_def]] by blast
  have inv: "server_inv t" "buffer_inv b" using assms(2) t(3) server_inv_frames(1) [OF t(1)]
    by (simp_all add: server_inv_def)
  have lists: "server_inv (u\<lparr>export_list := es, exports_nfslist := ns\<rparr>) = server_inv u" for u :: "('w, 'z) nfs_scheme"
    by (rule server_inv_cong) simp_all
  have "server_inv (t\<lparr>yy_current_buffer := b\<rparr>)"
    using inv by (simp add: server_inv_def fhc_inv_def fdc_inv_def mnt_inv_def root_daemon_def)
  with inv t(2) lists [of t] lists [of "t\<lparr>yy_current_buffer := b\<rparr>"] show ?thesis by auto
qed

lemma get_squash_ids_inv: "server_inv (get_squash_ids os s) = server_inv (s :: ('w, 'z) nfs_scheme)"
proof -
  have "server_inv (t\<lparr>squash_uid := u, squash_gid := g\<rparr>) = server_inv t" for t :: "('w, 'z) nfs_scheme" and u g
    by (rule server_inv_cong) simp_all
  then show ?thesis
    by (auto simp: get_squash_ids_def split: option.splits prod.splits
        dest!: backend_only server_inv_frames(1))
qed


subsection \<open>The invariant holds as long as the server runs\<close>

lemma serve_inv:
  assumes "clock_ok (w_os env)" "serve env cs c s = Some (a, s')" "server_inv s"
  shows "server_inv s'"
  using assms inv.nfs3_program_kept [of "w_os env" s] inv.mountprog_kept [of "w_os env" s]
  by (fastforce simp: serve_def yields_def good_def split: sum.splits service.splits)

lemma svc_getreqset_inv:
  assumes "clock_ok (w_os env)" "svc_getreqset env cs calls s = Some (as, s')" "server_inv s"
  shows "server_inv s'"
  using assms(2,3)
proof (induction calls arbitrary: s as)
  case (Cons c calls)
  from Cons.prems(1) obtain a t as' where "serve env cs c s = Some (a, t)" "svc_getreqset env cs calls t = Some (as', s')"
    by (auto simp: bind_eq_Some_conv)
  with Cons serve_inv [OF assms(1)] show ?case by blast
qed simp

lemma svc_round_inv:
  assumes "clock_ok (w_os env)" "svc_round env o' cs ev s = Some (as, Running s')" "server_inv s"
  shows "server_inv s'"
proof -
  let ?t = "fd_cache_close_inactive (w_os env) s"
  have t: "server_inv ?t" using assms(3) by (rule server_inv_calls(6))
  show ?thesis
  proof (cases ev)
    case (Interrupted sig)
    with assms(2) t show ?thesis
      by (auto simp: svc_round_def daemon_exit_def Let_def get_squash_ids_inv dest!: reload_inv split: if_splits)
  next
    case (Ready calls)
    with assms(1,2) t show ?thesis
      by (auto simp: svc_round_def Let_def dest: svc_getreqset_inv)
  qed (use assms(2) t in \<open>auto simp: svc_round_def Let_def\<close>)
qed

lemma unfs3_svc_run_inv:
  assumes "clock_ok (w_os env)" "unfs3_svc_run env o' cs evs s = Some (ans, Running s')" "server_inv s"
  shows "server_inv s'"
  using assms(2,3)
proof (induction evs arbitrary: s ans)
  case (Cons ev evs)
  from Cons.prems(1) obtain as t ans' where
    "svc_round env o' cs ev s = Some (as, Running t)" "unfs3_svc_run env o' cs evs t = Some (ans', Running s')"
    by (auto split: option.splits life.splits)
  with Cons svc_round_inv [OF assms(1)] show ?case by blast
qed simp

lemma pid_file_only: "sys_only s (create_pid_file env o' s)"
  by (auto simp: create_pid_file_def Let_def split: option.splits prod.splits dest!: backend_only
      intro: sys_only_trans backend_only [OF prod.collapse [symmetric]])

lemma initialize_inv:
  assumes "initialize env o' s = Some s'" and "fh_cache_max s = 0" "fd_cache_readers s = 0" "fd_cache_writers s = 0"
    and "mnt_inv s" "cookie_base (rcookie s)" "root_daemon s" "buffer_inv (yy_current_buffer s)"
  shows "server_inv s'"
proof -
  obtain w e where p: "create_pid_file env o' s = s\<lparr>world := w, errno := e\<rparr>"
    using pid_file_only by (rule sys_onlyE)
  let ?t = "fd_cache_init (fh_cache_init (create_pid_file env o' s))"
  have "server_inv ?t"
    using assms(2-) by (auto simp: p server_inv_def fhc_inv_def fd_cache_init_def fh_cache_init_def zero_cache_def c_key_def
        mnt_inv_def root_daemon_def fdc_inv_def fd_table_def open_count_def is_open_def fd_clear_def CACHE_ENTRIES_def)
  then have "server_inv (get_squash_ids (w_os env) ?t)" by (simp add: get_squash_ids_inv)
  with assms(1) show ?thesis by (auto simp: initialize_def Let_def dest!: reload_inv)
qed


lemma main_started:
  assumes "main env net addr conf argv extra w c = Some (Inr (o', cs, s))"
  shows "start_services net o' = Some cs"
    and "\<exists>cf. initialize env o' (regenerate_write_verifier (w_os env) (globals w c o' cf)) = Some s"
  using assms by (auto simp: main_def Let_def split: option.splits sum.splits if_splits)

lemma globals_fields:
  "fh_cache_max (globals w c o' cf) = 0" "fd_cache_readers (globals w c o' cf) = 0"
  "fd_cache_writers (globals w c o' cf) = 0" "mount_cnt (globals w c o' cf) = 0"
  "mount_list (globals w c o' cf) = []" "rcookie (globals w c o' cf) = 0" "cred (globals w c o' cf) = c"
  "buffer_inv (yy_current_buffer (globals w c o' cf))"
  by (simp_all add: globals_def buffer_inv_def yy_create_buffer_def YY_BUF_SIZE_def)

lemma main_inv:
  assumes "main env net addr conf argv extra w c = Some (Inr (o', cs, s))"
    and "ruid c = 0" "suid c = 0" "rgid c = 0" "sgid c = 0"
  shows "server_inv s"
proof -
  obtain cf where init: "initialize env o' (regenerate_write_verifier (w_os env) (globals w c o' cf)) = Some s"
    using main_started(2) [OF assms(1)] by blast
  obtain w' v where r: "regenerate_write_verifier (w_os env) (globals w c o' cf) = (globals w c o' cf)\<lparr>world := w', wverf := v\<rparr>"
    by (rule regenerate_write_verifier_frame)
  show ?thesis
    by (rule initialize_inv [OF init])
      (simp_all add: r globals_fields mnt_inv_def root_daemon_def cookie_base_def assms(2-))
qed

text \<open>
  C2: The invariant of the server, on its two caches, the list of mounts, the directory cookie, the lexer's
  buffer and its real and saved ids, holds whenever the daemon waits for the next event, whatever calls, signals and timeouts
  came before, on a server started by root and a clock that does not show zero.
\<close>

theorem server_invariant:
  assumes "clock_ok (w_os env)"
    and "main env net addr conf argv extra w c = Some (Inr (o', cs, s))"
    and "ruid c = 0" "suid c = 0" "rgid c = 0" "sgid c = 0"
    and "unfs3_svc_run env o' cs evs s = Some (ans, Running s')"
  shows "server_inv s'"
  by (rule unfs3_svc_run_inv [OF assms(1,7)], rule main_inv [OF assms(2-6)])

subsection \<open>What only a reload changes\<close>

lemma serve_config: "serve env cs c s = Some (a, s') \<Longrightarrow> server_config s' = server_config s"
  using config.nfs3_program_kept [of s "server_config s" "w_os env"] config.mountprog_kept [of s "server_config s" _ "w_os env"]
  by (fastforce simp: serve_def yields_def good_def split: sum.splits service.splits)

lemma svc_getreqset_config:
  "svc_getreqset env cs calls s = Some (as, s') \<Longrightarrow> server_config s' = server_config s"
  by (induction calls arbitrary: s as) (auto simp: bind_eq_Some_conv dest!: serve_config)

lemma svc_round_config:
  assumes "svc_round env o' cs ev s = Some (as, Running s')" "ev \<noteq> Interrupted SIGHUP"
  shows "server_config s' = server_config s"
  using assms server_config_frames(5) [OF fd_cache_close_inactive_only [of s "w_os env"]]
  by (cases ev) (auto simp: svc_round_def daemon_exit_def Let_def split: if_splits dest: svc_getreqset_config)

text \<open>
  C17: What is exported, to whom and with which options, and the options of the server itself, change
  only when the daemon is told to read the exports file again: no call changes them.
\<close>

theorem config_only_reloaded:
  assumes "unfs3_svc_run env o' cs evs s = Some (ans, Running s')" "Interrupted SIGHUP \<notin> set evs"
  shows "server_config s' = server_config s"
  using assms
proof (induction evs arbitrary: s ans)
  case (Cons ev evs)
  from Cons.prems obtain as t ans' where
    "svc_round env o' cs ev s = Some (as, Running t)" "unfs3_svc_run env o' cs evs t = Some (ans', Running s')"
    by (auto split: option.splits life.splits)
  with Cons svc_round_config [of env o' cs ev s as t] show ?case by auto
qed simp

subsection \<open>Services\<close>

definition all_services :: callouts where
  "all_services = [((NFS3_PROGRAM, NFS_V3), nfs3_service), ((MOUNTPROG, MOUNTVERS1), mount_service),
     ((MOUNTPROG, MOUNTVERS3), mount_service)]"

lemma svc_register_eq:
  "svc_register net tr prog vers d cs = Some cs' \<Longrightarrow>
     cs' = (if map_of cs (prog, vers) = None then cs @ [((prog, vers), d)] else cs)"
  by (auto simp: svc_register_def split: if_splits option.splits)

lemma register_nfs_eq:
  "register_nfs_service net u (Some t) [] = Some cs \<Longrightarrow> cs = [((NFS3_PROGRAM, NFS_V3), nfs3_service)]"
  by (cases u) (auto simp: register_nfs_service_def register_on_def bind_eq_Some_conv dest!: svc_register_eq)

lemma register_mount_eq:
  "register_mount_service net u (Some t) [((NFS3_PROGRAM, NFS_V3), nfs3_service)] = Some cs \<Longrightarrow> cs = all_services"
  by (cases u)
    (auto simp: register_mount_service_def register_on_def bind_eq_Some_conv all_services_def program_numbers
      dest!: svc_register_eq)

lemma start_services_all:
  assumes "start_services net o' = Some cs"
  shows "cs = all_services"
proof -
  have tcp: "\<exists>u t. x = (u, Some t)" if "transports net o' p = Some x" for p x
    using that by (auto simp: transports_def bind_eq_Some_conv)
  have steps: "transports net o' (opt_nfs_port o') \<bind> (\<lambda>x. register_nfs_service net (fst x) (snd x) [] \<bind>
      (\<lambda>cs. (if opt_mount_port o' \<noteq> opt_nfs_port o' then transports net o' (opt_mount_port o') else Some x) \<bind>
      (\<lambda>y. register_mount_service net (fst y) (snd y) cs))) = Some cs"
    using assms unfolding start_services_def case_prod_unfold prod.collapse .
  then obtain x where x: "transports net o' (opt_nfs_port o') = Some x" by (cases "transports net o' (opt_nfs_port o')") auto
  with steps obtain cs1 where cs1: "register_nfs_service net (fst x) (snd x) [] = Some cs1"
    by (cases "register_nfs_service net (fst x) (snd x) []") auto
  from steps have rest: "(if opt_mount_port o' \<noteq> opt_nfs_port o' then transports net o' (opt_mount_port o') else Some x) \<bind>
      (\<lambda>y. register_mount_service net (fst y) (snd y) cs1) = Some cs"
    unfolding x Option.bind.bind_lunit cs1 .
  obtain y where y: "\<exists>u t. y = (u, Some t)" and m: "register_mount_service net (fst y) (snd y) cs1 = Some cs"
  proof (cases "opt_mount_port o' = opt_nfs_port o'")
    case True
    with rest show ?thesis by (intro that [OF tcp [OF x]]) simp
  next
    case False
    with rest obtain y where "transports net o' (opt_mount_port o') = Some y"
      by (cases "transports net o' (opt_mount_port o')") auto
    with False rest show ?thesis by (intro that [OF tcp]) auto
  qed
  have "cs1 = [((NFS3_PROGRAM, NFS_V3), nfs3_service)]"
    using tcp [OF x] cs1 register_nfs_eq by auto
  with y m show ?thesis using register_mount_eq by auto
qed

text \<open>
  C18: A daemon that has started serves version 3 of the NFS program and versions 1 and 3 of the MOUNT
  program, over every transport it opened, and answers any other program or version with the error
  the protocol has for it, without a change of its state.
\<close>

theorem services_started:
  assumes "main env net addr conf argv extra w c = Some (Inr (o', cs, s0))"
  shows "serve env cs cl s =
    (if c_prog cl = 100003 \<and> rq_vers (c_req cl) = 3
     then nfs3_program_3 (w_os env) (w_rods env) (c_junk cl) (c_fits cl) (c_proc cl) (c_msg cl) (c_req cl) s
     else if c_prog cl = 100005 \<and> rq_vers (c_req cl) \<in> {1, 3}
     then mountprog_3 (c_stack cl) (w_os env) (c_fits cl) (c_proc cl) (c_msg cl) (c_req cl) s
     else Some (if c_prog cl \<in> {100003, 100005} then Prog_mismatch else Prog_unavail, s))"
  unfolding start_services_all [OF main_started(1) [OF assms]]
  by (auto simp: serve_def svc_dispatch_def all_services_def program_numbers)

subsection \<open>Refused calls\<close>

lemma svc_call_refused:
  assumes "svc_call xarg xres local fits msg s = Some (a, s')" "a \<notin> range Reply" "a \<noteq> System_err"
  shows "a = Garbage_args \<and> s' = s"
  using assms by (auto simp: svc_call_def svc_sendreply_def split: option.splits if_splits prod.splits)

lemma nfs3_program_refused:
  assumes "nfs3_program_3 os ro jk fits n msg req s = Some (a, s')" "a \<notin> range Reply" "a \<noteq> System_err"
  shows "s' = s"
  using assms unfolding nfs3_program_3_def
  by (auto split: if_split_asm dest: svc_call_refused)

lemma mountprog_refused:
  assumes "mountprog_3 acc os fits n msg req s = Some (a, s')" "a \<notin> range Reply" "a \<noteq> System_err"
  shows "s' = s"
  using assms unfolding mountprog_3_def by (auto split: if_split_asm dest: svc_call_refused)

text \<open>
  A call that is refused before its procedure runs, because the program, the version or the procedure
  does not exist or the arguments cannot be decoded, leaves the state of the server as it was.
\<close>

lemma refused_call_harmless:
  assumes "serve env cs c s = Some (a, s')" "a \<notin> range Reply" "a \<noteq> System_err"
  shows "s' = s"
  using assms
  by (auto simp: serve_def split: sum.splits service.splits dest: nfs3_program_refused mountprog_refused)

end
