(* ===== verification/Witnesses.thy ===== *)
theory Witnesses
  imports Daemon_Props Dispatch_Props
begin

text \<open>
  A small concrete system on which the hypotheses of the properties are checked: a file system
  at rest with a directory \<open>/srv\<close> that holds the file \<open>data\<close>, exported to one network, and a
  daemon started by root. The world is the number of times the clock was read. Each theorem
  below applies one property to this system.
\<close>

definition sample_stat :: "uint64 \<Rightarrow> uint32 \<Rightarrow> stat" where
  "sample_stat ino m =
     \<lparr>st_dev = 1, st_ino = ino, st_mode = m, st_nlink = 1, st_uid = 1000, st_gid = 100, st_rdev = 0,
      st_size = 5, st_blksize = 512, st_blocks = 1, st_atime = 7, st_mtime = 8, st_ctime = 9\<rparr>"

definition strip :: "path \<Rightarrow> path" where
  "strip p = dropWhile (\<lambda>c. c = CHR ''/'') p"

definition sample_st :: "path \<Rightarrow> errno + stat" where
  "sample_st p =
     (if strip p = [] then Inr (sample_stat 2 0x41ED)
      else if strip p = ''srv'' then Inr (sample_stat 10 0x41ED)
      else if strip p = ''srv/data'' then Inr (sample_stat 20 0x81A4)
      else Inl ENOENT)"

definition sample_ds :: "path \<Rightarrow> errno + string list" where
  "sample_ds p =
     (if strip p = [] then Inr [''.'', ''..'', ''srv'']
      else if strip p = ''srv'' then Inr [''.'', ''..'', ''data'']
      else Inl ENOTDIR)"

definition denied :: "(nat, 'a) syscall" where "denied c w = (Inl EACCES, w)"
definition done_ok :: "(nat, unit) syscall" where "done_ok c w = (Inr (), w)"

definition sample_os :: "nat os" where
  "sample_os =
     \<lparr>os_lstat = (\<lambda>p c w. (sample_st p, w)),
      os_fstat = (\<lambda>fd c w. (Inr (sample_stat 20 0x81A4), w)),
      os_open = (\<lambda>p fl c w. (Inr 5, w)),
      os_open_create = (\<lambda>p fl m c w. (Inr 6, w)),
      os_close = (\<lambda>fd. done_ok), os_fsync = (\<lambda>fd. done_ok),
      os_pwrite = (\<lambda>fd d off c w. (Inr (int (length d)), w)),
      os_truncate = (\<lambda>p n. done_ok), os_ftruncate = (\<lambda>fd n. done_ok),
      os_lchown = (\<lambda>p u g. done_ok), os_fchown = (\<lambda>fd u g. done_ok),
      os_chmod = (\<lambda>p m. done_ok), os_fchmod = (\<lambda>fd m. done_ok),
      os_utime = (\<lambda>p a m. done_ok), os_opendir = (\<lambda>p c w. (sample_ds p, w)),
      os_dirents = (\<lambda>p c w. (Inl EACCES, w)), os_stat = (\<lambda>p c w. (sample_st p, w)), os_system = (\<lambda>x. done_ok),
      os_mkdir = (\<lambda>p m. done_ok), os_rmdir = (\<lambda>p. done_ok), os_remove = (\<lambda>p. done_ok),
      os_rename = (\<lambda>p q. done_ok), os_statvfs = (\<lambda>p. denied),
      os_realpath = (\<lambda>p c w. (Inr p, w)), os_mtab = (\<lambda>c w. (Inr [''/''], w)),
      os_getpwnam = (\<lambda>n. denied),
      os_getpwuid = (\<lambda>u c w. (Inr \<lparr>pw_name = ''ann'', pw_uid = u, pw_gid = 100\<rparr>, w)),
      os_random = denied, os_seed = denied,
      os_time = (\<lambda>w. (100 + int w, w + 1)), os_getpid = (\<lambda>w. 321), os_rand = (\<lambda>w. (5, w))\<rparr>"

definition sample_host :: e_host where
  "sample_host = \<lparr>h_orig = ''10.0.0.0/8'', h_options = OPT_RW, h_password = ''key'', h_password_hash = 77,
     h_addr = 10, h_mask = 0xFF, h_anonuid = ANON_NOTSPECIAL, h_anongid = ANON_NOTSPECIAL\<rparr>"

definition sample_item :: e_item where
  "sample_item = \<lparr>i_path = ''/srv'', i_orig = ''/srv'', i_hosts = [sample_host], i_fsid = 0x80000001,
     i_last_mtime = 0, i_dir_hash = 0\<rparr>"

definition root_creds :: creds where
  "root_creds = \<lparr>ruid = 0, rgid = 0, euid = 0, egid = 0, suid = 0, sgid = 0, groups = []\<rparr>"

definition sample_state :: "nat nfs" where
  "sample_state =
     \<lparr>world = 0, errno = ENOENT, cred = root_creds, wverf = replicate 8 1, rcookie = push_bit 32 3,
      opt_singleuser = False, opt_brute_force = True, opt_readable_executables = False,
      export_list = [sample_item], exports_access = False, exports_nfslist = [], exports_opts = -1,
      export_path = None, export_fsid = 0, export_password_hash = 77, last_anonuid = ANON_NOTSPECIAL,
      last_anongid = ANON_NOTSPECIAL, yy_current_buffer = yy_create_buffer YY_BUF_SIZE, squash_uid = 65534, squash_gid = 65534, can_switch = True,
      st_cache_valid = False, st_cache = sample_stat 0 0,
      fh_cache = replicate CACHE_ENTRIES zero_cache, fh_cache_max = 0, fh_cache_use = 0,
      fh_cache_hit = 0, fh_cache_time = 0, fh_last_entry = -1,
      fd_cache = replicate FD_ENTRIES \<lparr>e_fd = -1, e_kind = UNFS3_FD_READ, e_use = 0, e_dev = 0, e_ino = 0, e_gen = 0\<rparr>,
      fd_cache_readers = 0, fd_cache_writers = 0, last_warning = 0,
      mount_cnt = 0, mount_list = [], nonce = [], ZONE = ''zone'', NFS_RODS_PRIVATE_COLL = True,
      lookup_obj_attr = error_attr\<rparr>"

definition sample_req :: svc_req where
  "sample_req = \<lparr>rq_vers = 3, oa_flavor = AUTH_UNIX,
     rq_clntcred = \<lparr>aup_uid = 1000, aup_gid = 100, aup_gids = [100, 0]\<rparr>,
     rq_addr = 0x0100000A, rq_port = 0x0101, rq_socktype = SOCK_STREAM\<rparr>"

subsection \<open>The sample system is what the properties assume\<close>

lemma sample_static: "static_fs sample_os sample_st sample_ds"
  by (simp add: static_fs_def sample_os_def)

lemma sample_double_slash: "double_slash sample_st"
  by (simp add: double_slash_def sample_st_def strip_def)

lemma sample_walk:
  "walk sample_st sample_ds (fh_of_stat (sample_stat 20 0x81A4) []) ''/'' [''srv'', ''data'']"
  "walk sample_st sample_ds (fh_of_stat (sample_stat 10 0x41ED) []) ''/'' [''srv'']"
  by (simp_all add: sample_st_def sample_ds_def strip_def NFS_MAXPATHLEN_def same_object_def
      fh_of_stat_def sample_stat_def)

lemma sample_stats:
  "sample_st (mkpath [''srv'', ''data'']) = Inr (sample_stat 20 0x81A4)"
  "sample_st (mkpath [''srv'']) = Inr (sample_stat 10 0x41ED)"
  by (simp_all add: sample_st_def strip_def)


theorem fh_bytes_roundtrip_witness:
  "nfh_valid (replicate 20 7 @ [2, 3, 4]) \<and>
   fh_bytes (fh_cast (replicate 20 7 @ [2, 3, 4])) = replicate 20 7 @ [2, 3, 4]"
proof -
  have v: "nfh_valid (replicate 20 7 @ [2, 3, 4])"
    by (simp add: nfh_valid_def FH_MINLEN_def fh_length_of_def nth_append)
  with fh_bytes_roundtrip [OF v] show ?thesis by blast
qed

theorem fh_compose_resolve_witness:
  "\<exists>fh q s'. fh_comp_raw sample_os (mkpath [''srv'', ''data'']) None False sample_state = (fh, sample_state) \<and>
    fh_valid fh \<and> fh_decomp_raw sample_os (sample_stat 0 0) fh sample_state = (Some q, s') \<and>
    sample_st (CHR ''/'' # q) = Inr (st_cache s') \<and>
    st_dev (st_cache s') = 1 \<and> st_ino (st_cache s') = 20"
  using fh_compose_resolve [OF sample_static sample_double_slash sample_stats(1) _ _ _ sample_walk(1),
      of sample_state "sample_stat 0 0"]
  by (simp add: sample_stat_def)

theorem fh_extend_agrees_witness:
  "\<exists>dir fh. fh_comp_raw sample_os (mkpath [''srv'']) None False sample_state = (dir, sample_state) \<and>
    fh_extend sample_os (fh_bytes dir) 1 20 20 sample_state = (Some fh, sample_state) \<and>
    fh_comp_raw sample_os (mkpath [''srv'', ''data'']) None False sample_state = (fh\<lparr>fh_pwhash := 0\<rparr>, sample_state)"
proof -
  obtain dir where dir: "fh_comp_raw sample_os (mkpath [''srv'']) None False sample_state = (dir, sample_state)"
    using fh_comp_raw_static [OF sample_static sample_double_slash sample_walk(2) _ sample_stats(2), of sample_state]
    by simp
  show ?thesis
    using fh_extend_agrees [OF sample_static sample_double_slash sample_stats(2) sample_walk(2),
        of "''data''" "sample_stat 20 0x81A4", OF _ _ _ dir] sample_walk(1) sample_stats(1) dir
    by (simp add: sample_stat_def get_gen_def) blast
qed

subsection \<open>Exports and users\<close>

lemma sample_export:
  "exports_options (Some ''/srv/data'') sample_req sample_state =
     (OPT_RW, Some ''key'', Some 0x80000001,
      sample_state\<lparr>exports_opts := OPT_RW, export_path := Some ''/srv'', export_fsid := 0x80000001\<rparr>)"
  by (simp add: exports_options_def sample_state_def sample_item_def sample_host_def sample_req_def
      get_remote_def Let_def)

theorem exports_options_grants_witness:
  "\<exists>it\<in>set (export_list sample_state). \<exists>h\<in>set (i_hosts it). i_path it = ''/srv'' \<and>
     get_remote sample_req AND h_mask h = h_addr h \<and> h_options h = OPT_RW \<and> prefix ''/srv'' ''/srv/data''"
  using exports_options_grants [OF sample_export, of "''/srv''"] by fastforce

lemma sample_daemon:
  "root_daemon sample_state" "can_switch sample_state" "\<not> opt_singleuser sample_state"
  "uid_squash sample_state \<noteq> 0" "gid_squash sample_state \<noteq> 0" "squash_gid sample_state \<noteq> 0"
  by (simp_all add: sample_state_def root_daemon_def root_creds_def uid_squash_def gid_squash_def
      exports_anonuid_def exports_anongid_def)


definition ro_state :: "nat nfs" where "ro_state = sample_state\<lparr>exports_opts := 0\<rparr>"


subsection \<open>The caches\<close>

lemma sample_fhc: "fhc_inv sample_state"
  by (auto simp: fhc_inv_def sample_state_def zero_cache_def c_key_def)


theorem fh_cache_invariant_witness:
  "fhc_inv (snd (fh_cache_add 1 20 ''/srv/data'' sample_state)) \<and>
   fhc_inv (snd (fh_decomp sample_os (sample_stat 0 0) (replicate 21 0) sample_state))"
  using fh_cache_invariant [OF sample_fhc] by blast

theorem fh_cache_add_refines_witness:
  "fhc_abs (snd (fh_cache_add 1 20 ''/srv/data'' sample_state)) =
    (fhc_abs sample_state)(c_key (fh_cache sample_state ! fhc_slot 1 20 sample_state) := None, (1, 20) \<mapsto> ''/srv/data'')"
  by (rule fh_cache_add_refines [OF sample_fhc]) simp

theorem fh_cache_history_witness:
  "fhc_abs (fold (\<lambda>(k, p) s. snd (fh_cache_add (fst k) (snd k) p s))
      [((1, 20), ''/srv/data''), ((1, 20), ''/srv/new'')] sample_state) \<subseteq>\<^sub>m
    fhc_abs sample_state ++ map_of (rev [((1, 20), ''/srv/data''), ((1, 20), ''/srv/new'')])"
  by (rule fh_cache_history [OF sample_fhc]) simp

definition full_state :: "nat nfs" where
  "full_state = sample_state\<lparr>fh_cache_max := CACHE_ENTRIES - 1, fh_last_entry := 0\<rparr>"

theorem fh_cache_reuses_lru_witness:
  "fst (fh_cache_lru full_state) < CACHE_ENTRIES \<and> int (fst (fh_cache_lru full_state)) \<noteq> 0"
proof -
  have "fhc_inv full_state" "fh_cache_max full_state = CACHE_ENTRIES - 1" "fh_last_entry full_state = 0"
    by (auto simp: fhc_inv_def full_state_def sample_state_def zero_cache_def c_key_def)
  with fh_cache_reuses_lru [of full_state] show ?thesis by simp
qed

definition warm_state :: "nat nfs" where
  "warm_state = sample_state\<lparr>
     fh_cache := \<lparr>c_dev = 1, c_ino = 20, c_path = ''/srv/data'', c_use = 1\<rparr> #
       \<lparr>c_dev = 1, c_ino = 10, c_path = ''/srv'', c_use = 2\<rparr> # replicate (CACHE_ENTRIES - 2) zero_cache,
     fh_cache_max := 2\<rparr>"

lemma warm_fhc: "fhc_inv warm_state"
  by (auto simp: fhc_inv_def warm_state_def sample_state_def zero_cache_def c_key_def nth_Cons
      split: nat.splits)

lemma warm_cache:
  "take 3 (fh_cache warm_state) =
    [\<lparr>c_dev = 1, c_ino = 20, c_path = ''/srv/data'', c_use = 1\<rparr>,
     \<lparr>c_dev = 1, c_ino = 10, c_path = ''/srv'', c_use = 2\<rparr>, zero_cache]"
  "fh_cache warm_state ! 0 = \<lparr>c_dev = 1, c_ino = 20, c_path = ''/srv/data'', c_use = 1\<rparr>"
  "fh_cache warm_state ! Suc 0 = \<lparr>c_dev = 1, c_ino = 10, c_path = ''/srv'', c_use = 2\<rparr>"
  "length (fh_cache warm_state) = CACHE_ENTRIES" "fh_cache_max warm_state = 2"
  by (simp_all add: warm_state_def numeral_3_eq_3)

lemma warm_hit:
  "\<exists>s1. fh_cache_lookup sample_os 1 20 warm_state = (Some ''/srv/data'', s1)"
  by (simp add: fh_cache_lookup_def fh_cache_index_def warm_cache backend_lstat_def sys_call_def
      sample_os_def sample_st_def strip_def sample_stat_def fh_cache_next_def Let_def)

theorem fh_cache_hit_stays_witness:
  "\<exists>s1. fh_cache_lookup sample_os 1 20 warm_state = (Some ''/srv/data'', s1) \<and>
    c_path (fh_cache (snd (fh_cache_add 1 30 ''/srv/new'' s1)) ! nat (fh_last_entry s1)) = ''/srv/data''"
proof -
  obtain s1 where hit: "fh_cache_lookup sample_os 1 20 warm_state = (Some ''/srv/data'', s1)"
    using warm_hit by blast
  have "c_path (fh_cache (snd (fh_cache_add 1 30 ''/srv/new'' s1)) ! nat (fh_last_entry s1)) = ''/srv/data''"
    by (rule fh_cache_hit_stays [OF warm_fhc hit]) simp_all
  with hit show ?thesis by blast
qed

definition file_fh :: unfs3_fh where
  "file_fh = \<lparr>fh_dev = 1, fh_ino = 20, fh_gen = 20, fh_pwhash = 77, fh_inos = [1, 2]\<rparr>"

definition dir_fh :: unfs3_fh where
  "dir_fh = \<lparr>fh_dev = 1, fh_ino = 10, fh_gen = 10, fh_pwhash = 77, fh_inos = [1]\<rparr>"

lemma sample_handles [simp]:
  "fh_cast (fh_bytes file_fh) = file_fh" "nfh_valid (fh_bytes file_fh)"
  "fh_cast (fh_bytes dir_fh) = dir_fh" "nfh_valid (fh_bytes dir_fh)"
  by (auto intro!: fh_cast_fh_bytes nfh_valid_fh_bytes simp: file_fh_def dir_fh_def)

lemma sample_handle_fields [simp]:
  "fh_dev file_fh = 1" "fh_ino file_fh = 20" "fh_gen file_fh = 20" "fh_pwhash file_fh = 77"
  "fh_dev dir_fh = 1" "fh_ino dir_fh = 10" "fh_gen dir_fh = 10" "fh_pwhash dir_fh = 77"
  by (simp_all add: file_fh_def dir_fh_def)


subsection \<open>Descriptors\<close>

lemma sample_fdc: "fdc_inv sample_state"
  by (auto simp: fdc_inv_def fd_table_def sample_state_def open_count_def is_open_def fd_clear_def)

lemma sample_clock: "clock_ok sample_os"
  by (auto simp: clock_ok_def sample_os_def)

theorem fd_cache_reachable_witness:
  "fdc_inv (fd_cache_purge sample_os (fd_cache_init sample_state))"
  by (rule fd_cache_reachable [OF _ sample_clock])
    (auto simp: sample_state_def intro: fd_step.purge_step)

definition write_entry :: "int \<Rightarrow> time_t \<Rightarrow> fd_entry" where
  "write_entry fd use = \<lparr>e_fd = fd, e_kind = UNFS3_FD_WRITE, e_use = use, e_dev = 1, e_ino = 20, e_gen = 20\<rparr>"

definition open_state :: "int \<Rightarrow> time_t \<Rightarrow> nat nfs" where
  "open_state fd use = sample_state\<lparr>
     fd_cache := write_entry fd use # replicate (FD_ENTRIES - 1)
       \<lparr>e_fd = -1, e_kind = UNFS3_FD_READ, e_use = 0, e_dev = 0, e_ino = 0, e_gen = 0\<rparr>,
     fd_cache_writers := if fd = -1 then 0 else 1\<rparr>"

lemma open_idx: "idx_by_fh file_fh UNFS3_FD_WRITE (open_state fd use) = Some 0"
  by (simp add: idx_by_fh_def open_state_def write_entry_def file_fh_def)

lemma open_fdc: "use \<noteq> 0 \<Longrightarrow> fdc_inv (open_state fd use)"
  by (auto simp: fdc_inv_def fd_table_def open_state_def write_entry_def sample_state_def open_count_def
      is_open_def fd_clear_def FD_ENTRIES_def nth_Cons split: nat.splits)

theorem fd_open_checked_witness:
  "fd_open sample_os ''/srv/data'' (fh_bytes file_fh) UNFS3_FD_WRITE True (open_state 5 90) = (5, open_state 5 90) \<and>
   ((\<exists>e\<in>set (fd_cache (open_state 5 90)). e_fd e = 5 \<and> e_key e = (UNFS3_FD_WRITE, 1, 20, 20)) \<or>
    (\<exists>buf t t' :: nat nfs. backend_fstat sample_os 5 t = (Some buf, t') \<and> st_ino buf = 20))"
proof -
  have o: "fd_open sample_os ''/srv/data'' (fh_bytes file_fh) UNFS3_FD_WRITE True (open_state 5 90) = (5, open_state 5 90)"
    by (simp add: fd_open_def open_idx) (simp add: open_state_def write_entry_def)
  from fd_open_checked [OF o] have "(\<exists>e\<in>set (fd_cache (open_state 5 90)). e_fd e = 5 \<and> e_key e = (UNFS3_FD_WRITE, 1, 20, 20)) \<or>
    (\<exists>buf t t' :: nat nfs. backend_fstat sample_os 5 t = (Some buf, t') \<and> st_ino buf = 20)"
    by auto
  with o show ?thesis by blast
qed

theorem fd_open_reports_pending_witness:
  "\<exists>s'. fd_open sample_os ''/srv/data'' (fh_bytes file_fh) UNFS3_FD_WRITE True (open_state (-1) 90) = (-1, s') \<and>
    errno s' = EIO \<and> fd_cache s' ! 0 = fd_clear (write_entry (-1) 90)"
proof -
  have "idx_by_fh (fh_cast (fh_bytes file_fh)) UNFS3_FD_WRITE (open_state (-1) 90) = Some 0"
    by (simp add: open_idx)
  moreover have "pending (fd_cache (open_state (-1) 90) ! 0)"
    by (simp add: pending_def open_state_def write_entry_def)
  ultimately show ?thesis
    using fd_open_reports_pending [of "fh_bytes file_fh" UNFS3_FD_WRITE "open_state (-1) 90" 0 sample_os
        "''/srv/data''" True]
    by (auto simp: open_state_def)
qed


theorem fd_sync_spec_witness:
  "\<exists>r s'. fd_sync sample_os (fh_bytes file_fh) (open_state 5 90) = (r, s') \<and> (r = 0 \<or> r = -1) \<and>
    (\<forall>e\<in>set (fd_cache s'). e_use e \<noteq> 0 \<longrightarrow> e_key e \<noteq> (UNFS3_FD_WRITE, 1, 20, 20))"
proof -
  obtain r s' where s: "fd_sync sample_os (fh_bytes file_fh) (open_state 5 90) = (r, s')" by fastforce
  have i: "fdc_inv (open_state 5 90)" by (rule open_fdc) simp
  from fd_sync_spec [OF i s] s show ?thesis by auto
qed

subsection \<open>Directories\<close>

text \<open>A directory with two names, to which \<open>lstat\<close> answers at every path.\<close>

definition flat_os :: "nat os" where
  "flat_os = sample_os\<lparr>os_lstat := (\<lambda>p c w. (Inr (sample_stat 20 0x81A4), w)),
     os_opendir := (\<lambda>p c w. (Inr [''a'', ''bc''], w))\<rparr>"

lemma flat_dir: "dir_at_rest flat_os ''/srv'' (\<lambda>p. Inr (sample_stat 20 0x81A4)) [''a'', ''bc'']"
  by (auto simp: dir_at_rest_def static_fs_def flat_os_def readable_dir_def NFS_MAXPATHLEN_def
      intro!: exI [of _ "\<lambda>p. Inr [''a'', ''bc'']"])

lemma sample_base: "cookie_base (rcookie sample_state)"
  by (simp add: sample_state_def cookie_base_def)

theorem readdir_lists_all_witness:
  "list_dir flat_os ''/srv'' 512 3 0 sample_state = Some [''a'', ''bc'']"
proof -
  have c: "RESOK_SIZE < unat (512 :: uint32)" by (simp add: RESOK_SIZE_def)
  show ?thesis using readdir_lists_all [OF flat_dir sample_base c] by (simp add: numeral_3_eq_3)
qed

theorem readdir_page_bound_witness:
  "\<exists>r s'. read_dir flat_os ''/srv'' 0 512 sample_state = (r, s') \<and> length (rd_entries r) \<le> MAX_ENTRIES"
proof -
  obtain r s' where r: "read_dir flat_os ''/srv'' 0 512 sample_state = (r, s')" by fastforce
  with readdir_page_bound [OF r] show ?thesis by blast
qed

theorem stale_cookie_restarts_witness:
  "cookie_pos (rcookie sample_state) (of_nat 1 OR rcookie sample_state) = of_nat 1 \<and>
   cookie_pos (rcookie (change_readdir_cookie sample_state)) (of_nat 1 OR rcookie sample_state) = 0"
  by (rule stale_cookie_restarts [OF sample_base]) (simp_all add: cookie_for_def)

theorem readdir_small_count_witness:
  "read_dir flat_os ''/srv'' 0 100 sample_state =
     (\<lparr>rd_status = NFS3_OK, rd_entries = [], rd_eof = False\<rparr>, sample_state)"
  by (rule readdir_small_count [OF flat_dir]) (simp_all add: RESOK_SIZE_def)

subsection \<open>Mounting\<close>

theorem mnt_cmd_argument_roundtrip_witness:
  "mnt_cmd_argument (''@password:'' @ ''key'' @ CHR ''/'' # ''srv'') ''@password:'' PASSWORD_MAXLEN = (''key'', ''/srv'')"
  by (rule mnt_cmd_argument_roundtrip) (simp_all add: PASSWORD_MAXLEN_def)

lemma sample_password:
  "\<exists>t. mnt_command (replicate 64 0) sample_os ''@password:key/srv'' sample_req sample_state = (True, ''/srv'', t)"
  by (simp add: mnt_command_def mnt_cmd_argument_def PASSWORD_MAXLEN_def exports_options_def sample_state_def
      sample_item_def sample_host_def sample_req_def get_remote_def Let_def pw_of_def OPT_RW_def)

theorem mnt_command_authentic_witness:
  "\<exists>it h arg. best_export ''/srv'' (get_remote sample_req) (export_list sample_state) = Some (it, h) \<and>
    (''@password:key/srv'' = ''@password:'' @ h_password h @ ''/srv'' \<or>
     ''@password:key/srv'' = ''@otp:'' @ arg @ ''/srv'')"
proof -
  obtain t where "mnt_command (replicate 64 0) sample_os ''@password:key/srv'' sample_req sample_state = (True, ''/srv'', t)"
    using sample_password by blast
  from mnt_command_authentic [OF this] show ?thesis by auto
qed

definition mounted_state :: "nat nfs" where
  "mounted_state = sample_state\<lparr>mount_cnt := 1, mount_list := [\<lparr>ml_hostname = ''10.0.0.1'', ml_directory = ''/srv''\<rparr>]\<rparr>"

theorem umnt_removes_exactly_witness:
  "mnt_inv mounted_state \<and> mnt_inv (mountproc_umnt sample_os ''/srv'' sample_req mounted_state) \<and>
   mount_list (mountproc_umntall sample_os sample_req mounted_state) =
     filter (\<lambda>m. ml_hostname m \<noteq> inet_ntoa (get_remote sample_req)) (mount_list mounted_state)"
proof -
  have i: "mnt_inv mounted_state" by (simp add: mnt_inv_def mounted_state_def)
  from umnt_removes_exactly [OF i, of sample_os "''/srv''" sample_req] i show ?thesis by blast
qed

text \<open>The export as a removable one, so that its root has a handle of its own.\<close>

definition removable_state :: "nat nfs" where
  "removable_state = sample_state\<lparr>export_list := [sample_item\<lparr>i_hosts := [sample_host\<lparr>h_options := OPT_RW OR OPT_REMOVABLE OR OPT_INSECURE\<rparr>]\<rparr>]\<rparr>"

lemma removable_mount:
  "\<exists>fh s'. mountproc_mnt (replicate 64 0) sample_os ''@password:key/srv'' sample_req removable_state = ((MNT3_OK, Some fh), s')"
  by (simp add: mountproc_mnt_def mnt_command_def mnt_cmd_argument_def PASSWORD_MAXLEN_def exports_options_def
      removable_state_def sample_state_def sample_item_def sample_host_def sample_req_def get_remote_def Let_def
      pw_of_def opt_defs has_bits_def export_point_def NFS_MAXPATHLEN_def fh_comp_def fh_comp_raw_def fh_valid_def FH_MINLEN_def fh_length_def fh_length_of_def)


subsection \<open>Attributes\<close>



subsection \<open>The procedures\<close>

definition sample_junk :: junk where
  "sample_junk = \<lparr>j_stat = sample_stat 0 0, j_name = [], j_obj = [], j_mem = (\<lambda>p. []), j_int = 0,
     j_sattr = \<lparr>set_mode = None, set_uid = None, set_gid = None, set_size = None,
                set_atime = DONT_CHANGE, set_mtime = DONT_CHANGE\<rparr>\<rparr>"

definition sample_rods :: "nat rods" where
  "sample_rods =
     \<lparr>rc_getRodsEnv = (\<lambda>w. (0, \<lparr>rodsHost = [], rodsPort = 1247, rodsUserName = [], rodsZone = [], rodsDefResource = []\<rparr>)),
      rc_connect = (\<lambda>e p w. (Some 1, w)), rc_clientLogin = (\<lambda>c w. (0, w)), rc_disconnect = (\<lambda>c w. w),
      rc_CollCreate = (\<lambda>c p r w. (0, w)), rc_RmColl = (\<lambda>c p w. (0, w)),
      rc_DataObjGet = (\<lambda>c p q v a w. (0, w)), rc_DataObjUnlink = (\<lambda>c p w. (0, w)),
      rc_DataObjCreate = (\<lambda>c p r w. (0, w)), rc_DataObjRename = (\<lambda>c p q w. (0, w)),
      rc_ModAccessControl = (\<lambda>c p u z a w. (0, w)), rc_DataObjOpen = (\<lambda>c p f w. (3, w)),
      rc_DataObjOpenAndStat = (\<lambda>c p f r w. ((3, Some 5), w)), rc_DataObjLseek = (\<lambda>c l off w. (0, w)),
      rc_DataObjRead = (\<lambda>c l n off w. ((0, []), w)), rc_DataObjWrite = (\<lambda>c l d w. (int (length d), w)),
      rc_DataObjClose = (\<lambda>c l w. (0, w)), rc_OpenCollection = (\<lambda>c p w. (1, w)),
      rc_ReadCollection = (\<lambda>c h w. ((-1, \<lparr>ce_is_data = False, ce_dataName = None, ce_collName = None\<rparr>), w)),
      rc_CloseCollection = (\<lambda>c h w. (0, w)),
      rc_GenQuery = (\<lambda>c q i w. ((CAT_NO_ROWS_FOUND, \<lparr>gq_rowCnt = 0, gq_values = [], gq_continueInx = 0\<rparr>), w)),
      rc_errno = (\<lambda>w. None)\<rparr>"

definition served_req :: svc_req where
  "served_req = sample_req\<lparr>rq_clntcred := \<lparr>aup_uid = 1000, aup_gid = 100, aup_gids = [100, 65534]\<rparr>\<rparr>"

definition found_state :: "nat nfs" where
  "found_state = warm_state\<lparr>
     fh_cache := (fh_cache warm_state)[0 := \<lparr>c_dev = 1, c_ino = 20, c_path = ''/srv/data'', c_use = 1\<rparr>],
     fh_cache_time := 1, fh_cache_use := 1, fh_cache_hit := 1, fh_last_entry := 0,
     st_cache_valid := True, st_cache := sample_stat 20 0x81A4\<rparr>"

definition served_state :: "nat nfs" where
  "served_state = found_state\<lparr>exports_opts := OPT_RW, export_path := Some ''/srv'', export_fsid := 0x80000001,
     cred := root_creds\<lparr>euid := 1000, egid := 100, groups := [100, 65534]\<rparr>\<rparr>"

lemma warm_root: "switch_to_root warm_state = warm_state"
  by (simp add: switch_to_root_def to_root_ids_root warm_state_def sample_state_def root_daemon_def root_creds_def)

lemma warm_lookup:
  "fh_cache_lookup sample_os 1 20 warm_state =
    (Some ''/srv/data'', found_state\<lparr>fh_cache_use := 0, fh_cache_hit := 0\<rparr>)"
  by (simp add: fh_cache_lookup_def fh_cache_index_def warm_cache backend_lstat_def sys_call_def
      sample_os_def sample_st_def strip_def sample_stat_def fh_cache_next_def Let_def found_state_def)
    (simp add: warm_state_def sample_state_def)

lemma warm_decomp:
  "fh_decomp sample_os j (fh_bytes file_fh) warm_state = (Some ''/srv/data'', found_state)"
proof -
  have "export_point_from_fsid 1 warm_state = None"
    by (simp add: export_point_from_fsid_def warm_state_def sample_state_def sample_item_def)
  then show ?thesis by (simp add: fh_decomp_def Let_def warm_lookup) (simp add: found_state_def)
qed

lemma found_export:
  "exports_options (Some ''/srv/data'') sample_req found_state =
     (OPT_RW, Some ''key'', Some 0x80000001,
      found_state\<lparr>exports_opts := OPT_RW, export_path := Some ''/srv'', export_fsid := 0x80000001\<rparr>)"
  by (simp add: exports_options_def found_state_def warm_state_def sample_state_def sample_item_def
      sample_host_def sample_req_def get_remote_def Let_def)

lemma warm_prep:
  "prep sample_os j (fh_bytes file_fh) sample_req warm_state = Some (Inr ''/srv/data'', served_req, served_state)"
proof -
  let ?t = "found_state\<lparr>exports_opts := OPT_RW, export_path := Some ''/srv'', export_fsid := 0x80000001\<rparr>"
  have "root_daemon ?t" "can_switch ?t" "\<not> opt_singleuser ?t"
    by (simp_all add: found_state_def warm_state_def sample_state_def root_daemon_def root_creds_def)
  from switch_user_root [OF this, of sample_req]
  have "switch_user sample_req ?t = (Some served_req, served_state)"
    by (simp add: sample_req_def served_req_def served_state_def get_uid_def get_gid_def mangle_def
        found_state_def warm_state_def sample_state_def opt_defs has_bits_def root_creds_def)
  moreover have "export_password_hash found_state = 77"
    by (simp add: found_state_def warm_state_def sample_state_def)
  ultimately show ?thesis
    by (simp add: prep_def warm_root warm_decomp found_export opt_defs)
qed

theorem fh_decomp_resolves_witness:
  "fh_decomp sample_os (sample_stat 0 0) (fh_bytes file_fh) warm_state = (Some ''/srv/data'', found_state) \<and>
   (export_point_from_fsid 1 warm_state = Some ''/srv/data'' \<or> fh_inos file_fh = [] \<or>
    same_object file_fh (st_cache found_state))"
proof -
  have "fh_valid (fh_cast (fh_bytes file_fh))" by (simp add: fh_valid_def)
  from fh_decomp_resolves [OF warm_fhc warm_decomp this] warm_decomp [of "sample_stat 0 0"]
  show ?thesis by auto
qed

theorem prep_safe_witness:
  "prep sample_os sample_junk (fh_bytes file_fh) sample_req warm_state = Some (Inr ''/srv/data'', served_req, served_state) \<and>
   (\<exists>it h. best_export ''/srv/data'' (get_remote sample_req) (export_list warm_state) = Some (it, h) \<and>
      fh_pwhash (fh_cast (fh_bytes file_fh)) = h_password_hash h)"
  using prep_safe [OF warm_prep [of sample_junk]] warm_prep [of sample_junk] by blast


lemma sample_rc [simp]:
  "rc sample_rods (rc_connect sample_rods e p) s = (Some 1, s)"
  "rc sample_rods (rc_clientLogin sample_rods c) s = (0, s)"
  "rc sample_rods (\<lambda>w. ((), rc_disconnect sample_rods c w)) s = ((), s)"
  "rc sample_rods (rc_DataObjOpenAndStat sample_rods c q fl r) s = ((3, Some 5), s)"
  "rc sample_rods (rc_DataObjLseek sample_rods c l off) s = (0, s)"
  "rc sample_rods (rc_DataObjWrite sample_rods c l d) s = (int (length d), s)"
  "rc sample_rods (rc_DataObjClose sample_rods c l) s = (0, s)"
  "rc sample_rods (rc_DataObjGet sample_rods c q q' v a) s = (0, s)"
  "fst (rc_getRodsEnv sample_rods w) = 0"
  by (simp_all add: rc_def sample_rods_def)

lemma served_fields [simp]:
  "export_path served_state = Some ''/srv''" "NFS_RODS_PRIVATE_COLL served_state"
  "st_cache served_state = sample_stat 20 0x81A4" "st_cache_valid served_state"
  "exports_opts served_state = OPT_RW" "\<not> isPublic served_state" "getUID served_req = 1000"
  "opt_singleuser served_state = False" "ZONE served_state = ''zone''"
  by (simp_all add: served_state_def found_state_def warm_state_def sample_state_def isPublic_def
      served_req_def getUID_def)

lemma served_user [simp]: "getUserName sample_os n 1000 served_state = ((0, ''ann''), served_state)"
  by (simp add: getUserName_def sys_call_def sample_os_def)

lemma dec_1000: "dec_int 1000 = ''1000''"
  by (simp add: dec_int_def dec.simps char_of_def bit_0)

lemma served_session [simp]: "rods_session sample_os sample_rods jk served_req served_state = Some (Some 1, served_state)"
  by (simp add: rods_session_def rodsConnecUser_def rodsConnectProxy_def rodsLogin_def case_prod_beta)

lemma served_path [simp]: "getRealPathNFS jk ''/srv/data'' served_req served_state = ''/srv/1000/data''"
  by (simp add: getRealPathNFS_def getNFSDirectory_def export_root_def concat_str_def dec_1000 substring_inside Let_def)

lemma served_name [simp]:
  "rods_name sample_os jk ''/srv/1000/data'' served_req served_state = Some (''/zone/home/ann/data'', served_state)"
  by (simp add: rods_name_def getRodsPath_def getIRODSpathGetAttr_def export_root_def dec_1000 substring_inside
      concatProxy_def concat_str_def)


lemma served_open:
  "fd_open sample_os ''/srv/1000/data'' (fh_bytes file_fh) UNFS3_FD_WRITE False served_state = (5, served_state)"
proof -
  have "idx_by_fh file_fh UNFS3_FD_WRITE served_state = None"
    by (simp add: idx_by_fh_def find_idx_None_nth served_state_def found_state_def warm_state_def sample_state_def)
  then show ?thesis
    by (simp add: fd_open_def Let_def backend_open_def backend_fstat_def sys_num_def sys_call_def sample_os_def
        sample_stat_def get_gen_def)
qed

lemma served_close: "fd_close sample_os 5 UNFS3_FD_WRITE True served_state = (0, served_state)"
proof -
  have "idx_by_fd 5 UNFS3_FD_WRITE served_state = None"
    by (simp add: idx_by_fd_def find_idx_None_nth served_state_def found_state_def warm_state_def sample_state_def)
  then show ?thesis
    by (simp add: fd_close_def backend_fsync_def backend_close_def sys_int_def sys_call_def sample_os_def done_ok_def)
qed

lemma served_write_by_owner: "write_by_owner served_req (sample_stat 20 0x81A4) served_state = served_state"
  by (simp add: write_by_owner_def is_owner_def get_uid_def mangle_def served_req_def sample_req_def sample_stat_def
      AUTH_UNIX_def has_bits_def opt_defs mode_bits served_state_def found_state_def warm_state_def sample_state_def
      S_IWUSR_def Let_def)

lemma served_write:
  "\<exists>r s'. nfsproc3_write sample_os sample_rods sample_junk (fh_bytes file_fh) 0 FILE_SYNC [1, 2] sample_req warm_state = Some (r, s')
     \<and> wr_status r = NFS3_OK"
proof -
  have "is_reg served_state = NFS3_OK" "exports_rw served_state = NFS3_OK"
    by (simp_all add: is_reg_def exports_rw_def sample_stat_def mode_tests mode_bits has_bits_def opt_defs)
  moreover have "backend_pwrite sample_os 5 [1, 2] 0 served_state = (2, served_state)"
    by (simp add: backend_pwrite_def sys_num_def sys_call_def sample_os_def)
  ultimately show ?thesis
    by (simp add: nfsproc3_write_def warm_prep served_open served_close served_write_by_owner iWrite_def
        rcDisconnect_def case_prod_beta Let_def)
qed

theorem write_reply_witness:
  "\<exists>r s'. nfsproc3_write sample_os sample_rods sample_junk (fh_bytes file_fh) 0 FILE_SYNC [1, 2] sample_req warm_state = Some (r, s')
     \<and> wr_committed r = FILE_SYNC \<and> wr_verf r = wverf s'"
proof -
  obtain r s' where w: "nfsproc3_write sample_os sample_rods sample_junk (fh_bytes file_fh) 0 FILE_SYNC [1, 2] sample_req warm_state = Some (r, s')"
    "wr_status r = NFS3_OK" using served_write by blast
  from write_reply [OF w] w(1) show ?thesis by auto
qed

theorem mutating_needs_write_access_witness:
  "\<exists>r s' p req' t. nfsproc3_write sample_os sample_rods sample_junk (fh_bytes file_fh) 0 FILE_SYNC [1, 2] sample_req warm_state = Some (r, s')
     \<and> prep sample_os sample_junk (fh_bytes file_fh) sample_req warm_state = Some (Inr p, req', t) \<and> has_bits (exports_opts t) OPT_RW"
proof -
  obtain r s' where w: "nfsproc3_write sample_os sample_rods sample_junk (fh_bytes file_fh) 0 FILE_SYNC [1, 2] sample_req warm_state = Some (r, s')
    \<and> wr_status r = NFS3_OK" using served_write by blast
  from mutating_needs_write_access [OF disjI1, OF w] w show ?thesis by blast
qed

theorem access_always_grants_witness:
  "\<exists>granted post s'. nfsproc3_access sample_os sample_rods sample_junk (fh_bytes file_fh) ACCESS3_MODIFY sample_req warm_state =
      Some ((NFS3_OK, granted, post), s') \<and>
    granted AND (ACCESS3_READ OR ACCESS3_MODIFY OR ACCESS3_EXTEND) =
      ACCESS3_MODIFY AND (ACCESS3_READ OR ACCESS3_MODIFY OR ACCESS3_EXTEND)"
proof -
  obtain granted post s' where a: "nfsproc3_access sample_os sample_rods sample_junk (fh_bytes file_fh) ACCESS3_MODIFY sample_req warm_state =
      Some ((NFS3_OK, granted, post), s')"
    by (simp add: nfsproc3_access_def warm_prep getFile_def rcDisconnect_def case_prod_beta Let_def)
  from access_always_grants [OF a] a show ?thesis by blast
qed



definition user10_req :: svc_req where
  "user10_req = sample_req\<lparr>rq_clntcred := \<lparr>aup_uid = 10, aup_gid = 100, aup_gids = []\<rparr>\<rparr>"

theorem other_user_reached_witness:
  "getRealPathNFS sample_junk (''/srv'' @ ''/100/secret'') user10_req served_state = ''/srv'' @ ''/100/secret''"
  by (rule other_user_reached [OF served_fields(6,1)]) (simp add: user10_req_def getUID_def)

end
