(* ===== verification/Daemon_Witnesses.thy ===== *)
theory Daemon_Witnesses
  imports Witnesses
begin

text \<open>
  The properties of the configuration, the dispatch and the daemon at concrete inputs, on the sample
  system of \<open>Witnesses\<close>.
\<close>

subsection \<open>Reading a configuration\<close>

definition sample_lines :: "export_line list" where
  "sample_lines = [(''/srv'', [\<lparr>cl_name = Network ''10.0.0.0/8'', cl_opts = [(''rw'', None)]\<rparr>])]"

lemma sample_text: "file_text (print_file sample_lines) = ''/srv 10.0.0.0/8(rw)'' @ [CHR 0x0A]"
  by code_simp

lemma sample_tokens: "print_file sample_lines = [T_PATH ''/srv'', T_WHITE '' '', T_NET ''10.0.0.0/8'', T_CHAR 40,
    T_ID ''rw'', T_CHAR 41, T_CHAR 10]"
  by code_simp

lemma sample_spelled: "well_spelled sample_lines"
  unfolding well_spelled_def spelled_def rule_for_run by code_simp

lemma start_buffer: "fresh_buffer (yy_create_buffer YY_BUF_SIZE)" "yy_at_bol (yy_create_buffer YY_BUF_SIZE)"
  by (simp_all add: fresh_buffer_def buffer_inv_def yy_flush_buffer_def yy_create_buffer_def YY_BUF_SIZE_def)

theorem lexer_follows_rules_witness:
  "map fst (fst (yylex_all (yy_create_buffer YY_BUF_SIZE) (''/srv 10.0.0.0/8(rw)'' @ [CHR 0x0A]))) =
     [(T_PATH ''/srv'', False), (T_WHITE '' '', False), (T_NET ''10.0.0.0/8'', False), (T_CHAR 40, False),
      (T_ID ''rw'', False), (T_CHAR 41, False), (T_CHAR 10, False)]"
proof -
  let ?b = "yy_create_buffer YY_BUF_SIZE"
  have "buffer_inv ?b" using start_buffer by (simp add: fresh_buffer_def)
  from lexer_follows_rules [OF this, of "file_text (print_file sample_lines)" "map (\<lambda>t. (t, False)) (print_file sample_lines)"]
  show ?thesis
    using linked_tokens [OF linked_file [OF sample_spelled]] fresh_unscanned [OF start_buffer(1)] start_buffer(2)
    unfolding sample_text by (simp add: sample_tokens)
qed

theorem yyparse_runs_grammar_witness:
  "length [T_PATH ''/srv'', T_CHAR 10] + 12 < YYMAXDEPTH \<and>
   map_option (apsnd snd) (yyparse sample_os (\<lambda>_. None) [T_PATH ''/srv'', T_CHAR 10] (clear_cur, sample_state)) =
     Some (g_file sample_os (\<lambda>_. None) [T_PATH ''/srv'', T_CHAR 10] (clear_cur, sample_state))"
proof -
  have "length [T_PATH ''/srv'', T_CHAR 10] + 12 < YYMAXDEPTH" by (simp add: YYMAXDEPTH_def)
  with yyparse_runs_grammar [OF this, of sample_os "\<lambda>_. None" "(clear_cur, sample_state)"] show ?thesis by blast
qed


lemma tokens_of_short: "tokens_of bol w ts \<Longrightarrow> length ts \<le> length w"
proof (induction rule: tokens_of.induct)
  case (tokens_next bol w act n t ts)
  then have "n \<le> length w" by (auto simp: longest_match_def)
  with tokens_next show ?case by simp
qed simp_all

definition left_over :: "nat nfs" where
  "left_over = sample_state\<lparr>yy_current_buffer :=
     \<lparr>yy_ch_buf = [CHR 0x0A], yy_buf_size = YY_BUF_SIZE, yy_at_bol = False, yy_eof_pending = False\<rparr>\<rparr>"


theorem md5_streaming_witness:
  "md5_digest (replicate 64 0) [[97], [98, 99]] =
    [0x90, 0x01, 0x50, 0x98, 0x3c, 0xd2, 0x4f, 0xb0, 0xd6, 0x96, 0x3f, 0x7d, 0x28, 0xe1, 0x7f, 0x72]"
  using md5_streaming [of "replicate 64 0" "[[97], [98, 99]]"] by (simp add: md5_rfc_abc)

theorem network_matches_witness: "find_host 0x0100000A [sample_host] = Some sample_host"
proof -
  have "h_mask sample_host = make_netmask (int 8)" by code_simp
  from network_matches [OF _ this, of "0x0100000A"] show ?thesis by code_simp
qed

subsection \<open>Clearing a directory\<close>

text \<open>A tree in which \<open>/srv/1000\<close> holds one file; the world counts what is removed elsewhere.\<close>

definition tree_os :: "nat os" where
  "tree_os = sample_os
     \<lparr>os_dirents := (\<lambda>p c w. (if p = ''/srv/1000'' then Inr [(''.'', True), (''data'', False)] else Inl ENOTDIR, w)),
      os_remove := (\<lambda>p c w. (Inr (), if prefix ''/srv/1000'' p then w else w + 1)),
      os_rmdir := (\<lambda>p c w. (Inr (), if prefix ''/srv/1000'' p then w else w + 1))\<rparr>"


subsection \<open>Dispatch\<close>

lemma no_exports: "encode xdr_exports [] = Some [0, 0, 0, 0]"
  by (simp add: xdr_exports_def xdr_list_def xdr_bool_def xdr_u_int_def xdr_word_def numeral_eq_Suc)

lemma travelsD: "travels c P \<Longrightarrow> P x \<Longrightarrow> \<exists>e. encode c x = Some e \<and> decode c (e @ rest) = Some (x, rest)"
  unfolding travels_def by blast

theorem nfs_arguments_travel_witness:
  "\<exists>e. encode xdr_WRITE3args (replicate 21 7, 4096, 3, FILE_SYNC, [1, 2, 3]) = Some e \<and>
    decode xdr_WRITE3args (e @ [9]) = Some ((replicate 21 7, 4096, 3, FILE_SYNC, [1, 2, 3]), [9])"
proof -
  have "travels xdr_WRITE3args (\<lambda>(f, off, n, st, v). wire_fh f \<and> wire_stable st \<and> wire_data v)"
    using nfs_arguments_travel by (elim conjE)
  then show ?thesis by (rule travelsD) (simp add: wire_fh_def wire_data_def NFS3_FHSIZE_def UINT_MAX_def)
qed

theorem nfs_results_travel_witness:
  "\<exists>e. encode xdr_COMMIT3res (Resfail NFS3ERR_NOTSUPP (None, None)) = Some e \<and>
    decode xdr_COMMIT3res (e @ [9]) = Some (Resfail NFS3ERR_NOTSUPP (None, None), [9])"
proof -
  have "travels xdr_COMMIT3res (wire_reply (\<lambda>(w, v). wire_wcc w \<and> wire_verf v) wire_wcc)"
    using nfs_results_travel by (elim conjE)
  then show ?thesis by (rule travelsD) (simp add: wire_wcc_def wire_attr_def)
qed


lemma flat_page:
  "\<exists>e f. read_dir flat_os ''/srv'' 0 512 sample_state =
     (\<lparr>rd_status = NFS3_OK, rd_entries = [e, f], rd_eof = True\<rparr>, sample_state) \<and>
     ent_name e = ''a'' \<and> ent_name f = ''bc''"
  by (simp add: read_dir_def backend_opendir_def backend_lstat_def sys_call_def flat_os_def RESOK_SIZE_def ENTRY_SIZE_def
      NAME_SIZE_def MAX_ENTRIES_def NFS_MAXPATHLEN_def Let_def)

lemma resok_encodes:
  assumes "wire_attr a" "wire_verf v" "list_all (\<lambda>e. wire_name (ent_name e)) es"
  shows "\<exists>bs. encode xdr_READDIR3resok (a, v, es, eof) = Some bs"
proof -
  have "xdr_routine xdr_READDIR3resok (\<lambda>(a, v, es, eof). wire_attr a \<and> wire_verf v \<and> list_all (\<lambda>e. wire_name (ent_name e)) es)"
    unfolding xdr_READDIR3resok_def xdr_dirlist3_def by (rule xdr_weaken, (rule xdr_rules)+) auto
  from xdr_routine.encodes [OF this, of "(a, v, es, eof)"] assms show ?thesis by simp
qed


subsection \<open>The daemon\<close>

definition sample_env :: "nat outside" where
  "sample_env = \<lparr>w_os = sample_os, w_rods = sample_rods, w_dns = (\<lambda>_. None), w_exports = (\<lambda>p w. None),
     w_flock = (\<lambda>_ _. True)\<rparr>"

definition sample_net :: net where
  "sample_net = \<lparr>n_bind = (\<lambda>_ _ _. True), n_create = (\<lambda>_. True), n_register = (\<lambda>_ _ _. True)\<rparr>"

definition sample_options :: options where
  "sample_options = default_options\<lparr>opt_detach := False\<rparr>"

definition sample_call :: "nat \<Rightarrow> nat \<Rightarrow> call" where
  "sample_call prog pr = \<lparr>c_prog = prog, c_proc = pr, c_msg = [], c_req = sample_req, c_junk = sample_junk,
     c_stack = replicate 64 0, c_fits = (\<lambda>_. True)\<rparr>"

lemma sample_services: "start_services sample_net sample_options = Some all_services"
  by (simp add: start_services_def transports_def create_udp_transport_def create_tcp_transport_def create_transport_def
      sample_net_def sample_options_def default_options_def register_nfs_service_def register_mount_service_def
      register_on_def svc_register_def all_services_def program_numbers)

lemma sample_reload:
  "\<not> exports_access s \<Longrightarrow> reload sample_env o' s = Some (False, s\<lparr>export_list := [], exports_nfslist := []\<rparr>)"
  by (simp add: reload_def exports_parse_def sample_env_def)

lemma sample_main:
  "\<exists>s. main sample_env sample_net (\<lambda>_. 0) None [(CHR ''d'', [])] False 0 root_creds =
     Some (Inr (sample_options, all_services, s))"
proof -
  have o: "parse_option (\<lambda>_. 0) (CHR ''d'') [] default_options = Inr sample_options"
    "\<not> opt_testconfig sample_options" "opt_pid_file sample_options = None"
    by (simp_all add: parse_option_def sample_options_def default_options_def)
  obtain w v where r: "regenerate_write_verifier sample_os (globals 0 root_creds sample_options ([], False)) =
      (globals 0 root_creds sample_options ([], False))\<lparr>world := w, wverf := v\<rparr>"
    by (rule regenerate_write_verifier_frame)
  have "\<not> exports_access (get_squash_ids sample_os (fd_cache_init (fh_cache_init
      ((globals 0 root_creds sample_options ([], False))\<lparr>world := w, wverf := v\<rparr>))))"
    by (simp add: get_squash_ids_def sys_call_def sample_os_def denied_def fd_cache_init_def fh_cache_init_def globals_def
        backend_getpwnam_def)
  then show ?thesis
    by (simp add: main_def configureEnv_def o sample_services initialize_def create_pid_file_def Let_def)
      (auto simp: sample_env_def r sample_reload [unfolded sample_env_def])
qed

lemma sample_serves:
  "serve sample_env all_services (sample_call 100003 0) s = Some (Reply [], s)"
  "serve sample_env all_services (sample_call 100003 1) s = Some (Garbage_args, s)"
  "serve sample_env all_services (sample_call 7 1) s = Some (Prog_unavail, s)"
  by (simp_all add: serve_def svc_dispatch_def all_services_def program_numbers sample_call_def sample_req_def
      nfs3_program_3_def nfs_procs svc_call_def svc_sendreply_def xdr_void_def nfsproc3_null_def
      xdr_GETATTR3args_def xdr_nfs_fh3_def xdr_bytes_def xdr_u_int_def xdr_word_def)

lemma sample_run:
  "\<exists>s'. unfs3_svc_run sample_env o' all_services [Timeout, Ready [sample_call 100003 0], Interrupted SIGUSR1] s =
     Some ([[], [Reply []], []], Running s')"
  by (simp add: svc_round_def sample_serves daemon_exit_def SIGUSR1_def SIGHUP_def Let_def)

theorem server_invariant_witness:
  "\<exists>s ans s'. main sample_env sample_net (\<lambda>_. 0) None [(CHR ''d'', [])] False 0 root_creds =
      Some (Inr (sample_options, all_services, s)) \<and>
    unfs3_svc_run sample_env sample_options all_services
      [Timeout, Ready [sample_call 100003 0], Interrupted SIGUSR1] s = Some (ans, Running s') \<and>
    server_inv s'"
proof -
  have c: "clock_ok (w_os sample_env)" by (simp add: sample_env_def sample_clock)
  have r: "ruid root_creds = 0" "suid root_creds = 0" "rgid root_creds = 0" "sgid root_creds = 0"
    by (simp_all add: root_creds_def)
  obtain s where m: "main sample_env sample_net (\<lambda>_. 0) None [(CHR ''d'', [])] False 0 root_creds =
      Some (Inr (sample_options, all_services, s))"
    using sample_main by blast
  obtain ans s' where u: "unfs3_svc_run sample_env sample_options all_services
      [Timeout, Ready [sample_call 100003 0], Interrupted SIGUSR1] s = Some (ans, Running s')"
    using sample_run by blast
  from server_invariant [OF c m r u] m u show ?thesis by blast
qed

theorem config_only_reloaded_witness:
  "\<exists>ans s'. unfs3_svc_run sample_env sample_options all_services
      [Timeout, Ready [sample_call 100003 0], Interrupted SIGUSR1] sample_state = Some (ans, Running s') \<and>
    server_config s' = server_config sample_state"
proof -
  obtain ans s' where u: "unfs3_svc_run sample_env sample_options all_services
      [Timeout, Ready [sample_call 100003 0], Interrupted SIGUSR1] sample_state = Some (ans, Running s')"
    using sample_run by blast
  from config_only_reloaded [OF u] u show ?thesis by (auto simp: SIGUSR1_def SIGHUP_def)
qed

theorem services_started_witness:
  "\<exists>s. main sample_env sample_net (\<lambda>_. 0) None [(CHR ''d'', [])] False 0 root_creds =
      Some (Inr (sample_options, all_services, s)) \<and>
    serve sample_env all_services (sample_call 7 1) s = Some (Prog_unavail, s)"
proof -
  obtain s where m: "main sample_env sample_net (\<lambda>_. 0) None [(CHR ''d'', [])] False 0 root_creds =
      Some (Inr (sample_options, all_services, s))"
    using sample_main by blast
  from services_started [OF m, of "sample_call 7 1" s] m show ?thesis by (simp add: sample_call_def)
qed

theorem refused_call_harmless_witness:
  "\<exists>s'. serve sample_env all_services (sample_call 100003 1) sample_state = Some (Garbage_args, s') \<and> s' = sample_state"
  using refused_call_harmless [OF sample_serves(2)] sample_serves(2) by auto

end
